(* ===== verification/Prelude.thy ===== *)
theory Prelude
  imports Main "HOL-Library.Word" "HOL-Library.Monad_Syntax"
begin

text \<open>
  Shared vocabulary of the development: the names of the machine types, the
  model of a Go run-time panic, Go slice expressions, and the generic lemmas on
  lists and words that the component theories use.

  A Go expression that may panic (a nil dereference, an index or a slice bound
  out of range) has an \<open>option\<close> type; \<open>None\<close> is the panic.  The \<open>do\<close> notation
  of \<open>HOL-Library.Monad_Syntax\<close> sequences such expressions.
\<close>

unbundle bit_operations_syntax

type_synonym byte = "8 word"
type_synonym uint64 = "64 word"
type_synonym 'a go = "'a option"

named_theorems slice_simps \<open>Go slice expressions that stay within their bounds\<close>
named_theorems stack_simps \<open>definitions of the operand-stack primitives\<close>
named_theorems instr_defs \<open>definitions of the interpreter's instructions\<close>
named_theorems instr_effects \<open>one equation per instruction for its effect on the stack\<close>
named_theorems frame_simps \<open>fields that an operation leaves unchanged\<close>

section \<open>Go slices\<close>

text \<open>\<open>xs[lo:hi]\<close>, a panic when the bounds are not \<open>lo \<le> hi \<le> len(xs)\<close>.\<close>

definition go_slice :: "'a list \<Rightarrow> nat \<Rightarrow> nat \<Rightarrow> 'a list go" where
  "go_slice xs lo hi =
     (if lo \<le> hi \<and> hi \<le> length xs then Some (take (hi - lo) (drop lo xs)) else None)"

text \<open>\<open>copy(xs[lo:], ys)\<close>: overwrites as many elements as both sides have.\<close>

definition copy_at :: "'a list \<Rightarrow> nat \<Rightarrow> 'a list \<Rightarrow> 'a list" where
  "copy_at xs lo ys =
     (let n = min (length ys) (length xs - lo)
      in take lo xs @ take n ys @ drop (lo + n) xs)"

lemma go_slice_Some [slice_simps]:
  "lo \<le> hi \<Longrightarrow> hi \<le> length xs \<Longrightarrow> go_slice xs lo hi = Some (take (hi - lo) (drop lo xs))"
  by (simp add: go_slice_def)

lemma go_slice_SomeD:
  "go_slice xs lo hi = Some ys \<Longrightarrow> lo \<le> hi \<and> hi \<le> length xs \<and> length ys = hi - lo"
  by (auto simp: go_slice_def split: if_splits)

lemma length_copy_at [simp]: "length (copy_at xs lo ys) = length xs"
  by (auto simp: copy_at_def Let_def)

lemma copy_at_nth:
  assumes "lo + length ys \<le> length xs" and "i < length xs"
  shows "copy_at xs lo ys ! i = (if lo \<le> i \<and> i < lo + length ys then ys ! (i - lo) else xs ! i)"
  using assms by (auto simp: copy_at_def Let_def nth_append min_def)

section \<open>Lists split at a stack pointer\<close>

lemma split_last:
  assumes "n < length xs"
  shows "xs = take n xs @ xs ! n # drop (Suc n) xs"
  using assms by (simp add: Cons_nth_drop_Suc)

lemma nth_rev_append_mid [simp]:
  "(rev s @ x # ys) ! length s = x"
  "(rev s @ x # y # zs) ! Suc (length s) = y"
  "(rev s @ x # y # z # us) ! Suc (Suc (length s)) = z"
  "(rev s @ x # y # z # u # vs) ! Suc (Suc (Suc (length s))) = u"
  by (simp_all add: nth_append)

lemma update_rev_append_mid [simp]:
  "(rev s @ x # ys)[length s := v] = rev s @ v # ys"
  "(rev s @ x # y # zs)[Suc (length s) := v] = rev s @ x # v # zs"
  "(rev s @ x # y # z # us)[Suc (Suc (length s)) := v] = rev s @ x # y # v # us"
  by (simp_all add: list_update_append)

section \<open>Words\<close>

lemma word_of_int_mod_2p: "word_of_int (x mod 2 ^ LENGTH('a)) = (word_of_int x :: 'a::len word)"
  by (simp add: word_of_int_eq_iff take_bit_eq_mod)

lemma unat_less_2p64: "unat (w :: uint64) < 2 ^ 64"
  using unsigned_less [of w, where 'a = nat] by simp

lemma unat_sub_le: "(b :: 'a::len word) \<le> a \<Longrightarrow> unat (a - b) = unat a - unat b"
  by (simp add: unat_sub)

lemma unat_add_no_wrap:
  "unat (a :: uint64) + unat b < 2 ^ 64 \<Longrightarrow> unat (a + b) = unat a + unat b"
  by (simp add: unat_word_ariths)

lemma unat_mult_no_wrap:
  "unat (a :: uint64) * unat b < 2 ^ 64 \<Longrightarrow> unat (a * b) = unat a * unat b"
  by (simp add: unat_word_ariths)

lemma unat_of_nat64: "n < 2 ^ 64 \<Longrightarrow> unat (of_nat n :: uint64) = n"
  by (simp add: unat_of_nat)

end
