(* ===== verification/Go_Big.thy ===== *)
theory Go_Big
  imports Prelude
begin

text \<open>
  The part of Go's \<open>math/big\<close> and \<open>encoding/binary\<close> packages that the modelled
  source uses.  A \<open>*big.Int\<close> value is an HOL \<open>int\<close>; its bitwise operations are
  those of two's complement, which HOL's operations on \<open>int\<close> are.  The
  conversions to machine words read the low 64 bits of the absolute value, as
  the library does when the value does not fit.
\<close>

section \<open>Size and conversion to machine words\<close>

fun nat_BitLen :: "nat \<Rightarrow> nat" where
  "nat_BitLen n = (if n = 0 then 0 else Suc (nat_BitLen (n div 2)))"

declare nat_BitLen.simps [simp del]

definition BitLen :: "int \<Rightarrow> nat" where
  "BitLen x = nat_BitLen (nat \<bar>x\<bar>)"

definition IsUint64 :: "int \<Rightarrow> bool" where
  "IsUint64 x \<longleftrightarrow> 0 \<le> x \<and> x < 2 ^ 64"

definition IsInt64 :: "int \<Rightarrow> bool" where
  "IsInt64 x \<longleftrightarrow> - (2 ^ 63) \<le> x \<and> x < 2 ^ 63"

definition Uint64 :: "int \<Rightarrow> uint64" where
  "Uint64 x = word_of_int \<bar>x\<bar>"

definition Int64 :: "int \<Rightarrow> int" where
  "Int64 x = (let v = (word_of_int \<bar>x\<bar> :: uint64) in sint (if x < 0 then - v else v))"

text \<open>\<open>int64(x)\<close> of a Go integer expression: the low 64 bits, read signed.\<close>

definition wrap_int64 :: "int \<Rightarrow> int" where
  "wrap_int64 x = sint (word_of_int x :: uint64)"

text \<open>Euclidean division and modulus (\<open>Int.Div\<close>, \<open>Int.Mod\<close>).\<close>

definition big_Div :: "int \<Rightarrow> int \<Rightarrow> int" where
  "big_Div a b = (if 0 < b then a div b else - (a div (- b)))"

definition big_Mod :: "int \<Rightarrow> int \<Rightarrow> int" where
  "big_Mod a b = a mod \<bar>b\<bar>"

section \<open>Byte and word representations\<close>

text \<open>\<open>Int.Bytes\<close>: the absolute value, big-endian, without leading zeros.\<close>

fun nat_Bytes :: "nat \<Rightarrow> byte list" where
  "nat_Bytes n = (if n = 0 then [] else nat_Bytes (n div 256) @ [word_of_nat (n mod 256)])"

declare nat_Bytes.simps [simp del]

definition Bytes :: "int \<Rightarrow> byte list" where
  "Bytes x = nat_Bytes (nat \<bar>x\<bar>)"

text \<open>\<open>Int.SetBytes\<close>: the unsigned value of a big-endian byte sequence.\<close>

definition SetBytes :: "byte list \<Rightarrow> int" where
  "SetBytes bs = foldl (\<lambda>acc b. 256 * acc + uint b) 0 bs"

text \<open>\<open>Int.Bits\<close>: the absolute value as little-endian 64-bit words.\<close>

fun nat_Bits :: "nat \<Rightarrow> uint64 list" where
  "nat_Bits n = (if n = 0 then [] else word_of_nat (n mod 2 ^ 64) # nat_Bits (n div 2 ^ 64))"

declare nat_Bits.simps [simp del]

definition Bits :: "int \<Rightarrow> uint64 list" where
  "Bits x = nat_Bits (nat \<bar>x\<bar>)"

text \<open>The big-endian bytes of a value in a field of \<open>n\<close> bytes.\<close>

fun be_bytes :: "nat \<Rightarrow> int \<Rightarrow> byte list" where
  "be_bytes 0 x = []"
| "be_bytes (Suc n) x = be_bytes n (x div 256) @ [word_of_int x]"

section \<open>Laws\<close>

lemma nat_BitLen_le_iff: "nat_BitLen n \<le> k \<longleftrightarrow> n < 2 ^ k"
proof (induction k arbitrary: n)
  case 0
  then show ?case by (subst nat_BitLen.simps) simp
next
  case (Suc k)
  show ?case
  proof (cases "n = 0")
    case True
    then show ?thesis by (simp add: nat_BitLen.simps)
  next
    case False
    then have "nat_BitLen n \<le> Suc k \<longleftrightarrow> n div 2 < 2 ^ k"
      by (subst nat_BitLen.simps) (simp add: Suc.IH)
    also have "\<dots> \<longleftrightarrow> n < 2 ^ Suc k" by (simp add: div_less_iff_less_mult mult.commute)
    finally show ?thesis .
  qed
qed

lemma BitLen_le_iff: "BitLen x \<le> k \<longleftrightarrow> \<bar>x\<bar> < 2 ^ k"
  by (simp add: BitLen_def nat_BitLen_le_iff nat_less_iff)

lemma BitLen_gt_iff: "k < BitLen x \<longleftrightarrow> 2 ^ k \<le> \<bar>x\<bar>"
  using BitLen_le_iff [of x k] by linarith

lemma BitLen_eq_0_iff [simp]: "BitLen x = 0 \<longleftrightarrow> x = 0"
  using BitLen_le_iff [of x 0] by auto

lemma uint_Uint64: "IsUint64 x \<Longrightarrow> uint (Uint64 x) = x"
  by (simp add: IsUint64_def Uint64_def uint_word_of_int)

lemma unat_Uint64: "IsUint64 x \<Longrightarrow> unat (Uint64 x) = nat x"
  by (metis uint_Uint64 unat_eq_nat_uint)

lemma IsUint64_uint [simp]: "IsUint64 (uint (w :: uint64))"
  using uint_bounded [of w] by (simp add: IsUint64_def)

lemma Uint64_uint [simp]: "Uint64 (uint (w :: uint64)) = w"
  by (simp add: Uint64_def)

lemma wrap_int64_id: "- (2 ^ 63) \<le> x \<Longrightarrow> x < 2 ^ 63 \<Longrightarrow> wrap_int64 x = x"
  by (simp add: wrap_int64_def sint_sbintrunc' signed_take_bit_int_eq_self)

lemma Int64_id: "IsInt64 x \<Longrightarrow> 0 \<le> x \<Longrightarrow> Int64 x = x"
  by (simp add: Int64_def IsInt64_def sint_sbintrunc' signed_take_bit_int_eq_self Let_def)

lemma SetBytes_Nil [simp]: "SetBytes [] = 0"
  by (simp add: SetBytes_def)

lemma SetBytes_snoc [simp]: "SetBytes (bs @ [b]) = 256 * SetBytes bs + uint b"
  by (simp add: SetBytes_def)

lemma SetBytes_nonneg [simp]: "0 \<le> SetBytes bs"
  by (induction bs rule: rev_induct) simp_all

lemma uint_byte_le: "uint (b :: byte) \<le> 255"
  using uint_bounded [of b] by simp

lemma SetBytes_less: "SetBytes bs < 256 ^ length bs"
proof (induction bs rule: rev_induct)
  case Nil
  then show ?case by simp
next
  case (snoc b bs)
  then show ?case using uint_byte_le [of b] by simp
qed

lemma SetBytes_append: "SetBytes (as @ bs) = 256 ^ length bs * SetBytes as + SetBytes bs"
  by (induction bs rule: rev_induct) (simp_all flip: append_assoc add: algebra_simps)

lemma SetBytes_replicate_0 [simp]: "SetBytes (replicate n 0) = 0"
  by (induction n) (simp_all flip: replicate_append_same)

lemma SetBytes_nat_Bytes: "SetBytes (nat_Bytes n) = int n"
proof (induction n rule: nat_Bytes.induct)
  case (1 n)
  show ?case
  proof (cases "n = 0")
    case True
    then show ?thesis by (simp add: nat_Bytes.simps)
  next
    case False
    have "uint (word_of_nat (n mod 256) :: byte) = int (n mod 256)"
      by (simp add: unsigned_of_nat take_bit_eq_mod)
    with False 1 show ?thesis
      by (subst nat_Bytes.simps) (simp add: zdiv_int zmod_int)
  qed
qed

lemma SetBytes_Bytes: "SetBytes (Bytes x) = \<bar>x\<bar>"
  by (simp add: Bytes_def SetBytes_nat_Bytes)

lemma length_be_bytes [simp]: "length (be_bytes n x) = n"
  by (induction n arbitrary: x) simp_all

lemma SetBytes_be_bytes: "SetBytes (be_bytes n x) = x mod 256 ^ n"
proof (induction n arbitrary: x)
  case 0
  then show ?case by simp
next
  case (Suc n)
  have "uint (word_of_int x :: byte) = x mod 256"
    by (simp add: uint_word_of_int)
  moreover have "x mod (256 * 256 ^ n) = 256 * (x div 256 mod 256 ^ n) + x mod 256"
    by (rule zmod_zmult2_eq) simp
  ultimately show ?case by (simp add: Suc)
qed

lemma SetBytes_be_bytes_word: "SetBytes (be_bytes 32 (uint (w :: 256 word))) = uint w"
  using uint_bounded [of w] by (simp add: SetBytes_be_bytes)

end
