(* ===== verification/Edge_Types.thy ===== *)
theory Edge_Types
  imports Go_Big
begin

text \<open>
  Addresses and hashes (\<open>src/types/types.go\<close>) and the arithmetic and byte
  helpers of \<open>src/helper/common/common.go\<close>.  The arrays \<open>[20]byte\<close> and
  \<open>[32]byte\<close> are kept as the 160- and 256-bit words whose big-endian bytes they
  hold.
\<close>

type_synonym address = "160 word"
type_synonym hash = "256 word"

section \<open>Addresses and hashes\<close>

text \<open>Both conversions keep the last bytes of the argument, right aligned.\<close>

definition BytesToHash :: "byte list \<Rightarrow> hash" where
  "BytesToHash b =
     (let m = min (length b) 32 in word_of_int (SetBytes (drop (length b - m) b)))"

definition BytesToAddress :: "byte list \<Rightarrow> address" where
  "BytesToAddress b =
     (let m = min (length b) 20 in word_of_int (SetBytes (drop (length b - m) b)))"

definition Hash_Bytes :: "hash \<Rightarrow> byte list" where
  "Hash_Bytes h = be_bytes 32 (uint h)"

definition Address_Bytes :: "address \<Rightarrow> byte list" where
  "Address_Bytes a = be_bytes 20 (uint a)"

definition ZeroAddress :: address where "ZeroAddress = 0"
definition ZeroHash :: hash where "ZeroHash = 0"

definition EmptyCodeHash :: hash where
  "EmptyCodeHash = 0xc5d2460186f7233c927e7db2dcc703c0e500b653ca82273b7bfad8045d85a470"

lemma SetBytes_drop_mod:
  assumes "n \<le> length b"
  shows "SetBytes b mod 256 ^ n = SetBytes (drop (length b - n) b)"
proof -
  let ?hi = "take (length b - n) b" and ?lo = "drop (length b - n) b"
  have "SetBytes b = 256 ^ n * SetBytes ?hi + SetBytes ?lo"
    using SetBytes_append [of ?hi ?lo] assms by simp
  moreover have "SetBytes ?lo < 256 ^ n"
    using SetBytes_less [of ?lo] assms by simp
  ultimately show ?thesis by simp
qed

lemma BytesToHash_eq: "BytesToHash b = word_of_int (SetBytes b)"
proof (cases "length b \<le> 32")
  case True
  then show ?thesis by (simp add: BytesToHash_def)
next
  case False
  then have "SetBytes b mod 2 ^ 256 = SetBytes (drop (length b - 32) b)"
    using SetBytes_drop_mod [of 32 b] by simp
  then show ?thesis using False word_of_int_mod_2p [where 'a = 256, of "SetBytes b"]
    by (simp add: BytesToHash_def)
qed

lemma BytesToAddress_eq: "BytesToAddress b = word_of_int (SetBytes b)"
proof (cases "length b \<le> 20")
  case True
  then show ?thesis by (simp add: BytesToAddress_def)
next
  case False
  then have "SetBytes b mod 2 ^ 160 = SetBytes (drop (length b - 20) b)"
    using SetBytes_drop_mod [of 20 b] by simp
  then show ?thesis using False word_of_int_mod_2p [where 'a = 160, of "SetBytes b"]
    by (simp add: BytesToAddress_def)
qed

lemma SetBytes_Hash_Bytes [simp]: "SetBytes (Hash_Bytes h) = uint h"
  using uint_bounded [of h] by (simp add: Hash_Bytes_def SetBytes_be_bytes)

lemma SetBytes_Address_Bytes [simp]: "SetBytes (Address_Bytes a) = uint a"
  using uint_bounded [of a] by (simp add: Address_Bytes_def SetBytes_be_bytes)

lemma BytesToHash_Hash_Bytes [simp]: "BytesToHash (Hash_Bytes h) = h"
  by (simp add: BytesToHash_eq)

lemma BytesToAddress_Address_Bytes [simp]: "BytesToAddress (Address_Bytes a) = a"
  by (simp add: BytesToAddress_eq)

lemma length_Hash_Bytes [simp]: "length (Hash_Bytes h) = 32"
  by (simp add: Hash_Bytes_def)

lemma length_Address_Bytes [simp]: "length (Address_Bytes a) = 20"
  by (simp add: Address_Bytes_def)

lemma Address_Bytes_inject: "Address_Bytes a = Address_Bytes b \<longleftrightarrow> a = b"
  by (metis BytesToAddress_Address_Bytes)

lemma Hash_Bytes_inject: "Hash_Bytes a = Hash_Bytes b \<longleftrightarrow> a = b"
  by (metis BytesToHash_Hash_Bytes)

section \<open>Helpers of package common\<close>

definition common_Min :: "uint64 \<Rightarrow> uint64 \<Rightarrow> uint64" where
  "common_Min a b = (if a < b then a else b)"

definition common_Max :: "uint64 \<Rightarrow> uint64 \<Rightarrow> uint64" where
  "common_Max a b = (if b < a then a else b)"

definition BigMin :: "int \<Rightarrow> int \<Rightarrow> int" where
  "BigMin x y = (if y < x then y else x)"

definition PadLeftOrTrim :: "byte list \<Rightarrow> nat \<Rightarrow> byte list" where
  "PadLeftOrTrim bb n =
     (let l = length bb in
      if l = n then bb
      else if n < l then drop (l - n) bb
      else copy_at (replicate n 0) (n - l) bb)"

definition ExtendByteSlice :: "byte list \<Rightarrow> nat \<Rightarrow> byte list" where
  "ExtendByteSlice b needLength =
     (let b' = (if length b < needLength then b @ replicate (needLength - length b) 0 else b)
      in take needLength b')"

definition BigIntDivCeil :: "int \<Rightarrow> int \<Rightarrow> int" where
  "BigIntDivCeil a b = big_Div (a + b - 1) b"

definition SafeAddUint64 :: "uint64 \<Rightarrow> uint64 \<Rightarrow> uint64 \<times> bool" where
  "SafeAddUint64 a b = (let sum = a + b in if sum < a \<or> sum < b then (0, True) else (sum, False))"

definition EncodeUint64ToBytes :: "uint64 \<Rightarrow> byte list" where
  "EncodeUint64ToBytes v = be_bytes 8 (uint v)"

text \<open>\<open>binary.BigEndian.Uint64\<close> reads the first eight bytes and panics on fewer.\<close>

definition EncodeBytesToUint64 :: "byte list \<Rightarrow> uint64 go" where
  "EncodeBytesToUint64 b = (if length b < 8 then None else Some (word_of_int (SetBytes (take 8 b))))"

lemma BigMin_min [simp]: "BigMin x y = min x y"
  by (simp add: BigMin_def min_def)

lemma length_ExtendByteSlice [simp]: "length (ExtendByteSlice b n) = n"
  by (simp add: ExtendByteSlice_def)

lemma ExtendByteSlice_grow:
  "length b \<le> n \<Longrightarrow> ExtendByteSlice b n = b @ replicate (n - length b) 0"
  by (simp add: ExtendByteSlice_def)

lemma length_PadLeftOrTrim [simp]: "length (PadLeftOrTrim bb n) = n"
  by (simp add: PadLeftOrTrim_def Let_def)

lemma SetBytes_PadLeftOrTrim: "SetBytes (PadLeftOrTrim bb n) = SetBytes bb mod 256 ^ n"
proof -
  consider (eq) "length bb = n" | (long) "n < length bb" | (short) "length bb < n" by linarith
  then show ?thesis
  proof cases
    case eq
    then show ?thesis using SetBytes_less [of bb] by (simp add: PadLeftOrTrim_def)
  next
    case long
    then show ?thesis using SetBytes_drop_mod [of n bb] by (simp add: PadLeftOrTrim_def Let_def)
  next
    case short
    then have "(256 :: int) ^ length bb \<le> 256 ^ n" by (intro power_increasing) simp_all
    then have "SetBytes bb < 256 ^ n" using SetBytes_less [of bb] by linarith
    with short show ?thesis
      by (simp add: PadLeftOrTrim_def Let_def copy_at_def SetBytes_append)
  qed
qed

lemma SetBytes_inject: "SetBytes as = SetBytes bs \<Longrightarrow> length as = length bs \<Longrightarrow> as = bs"
proof (induction as arbitrary: bs rule: rev_induct)
  case (snoc a as)
  then obtain b cs where bs: "bs = cs @ [b]" by (cases bs rule: rev_cases) auto
  have ab: "uint a < 256" "uint b < 256" using uint_lt2p [of a] uint_lt2p [of b] by simp_all
  have e: "256 * SetBytes as + uint a = 256 * SetBytes cs + uint b" using snoc.prems(1) bs by simp
  have "uint a = uint b" using arg_cong [OF e, of "\<lambda>x. x mod 256"] ab by simp
  moreover from this e have "SetBytes as = SetBytes cs" by simp
  ultimately show ?case using snoc bs by (auto simp: word_uint_eq_iff)
qed simp

lemma Hash_Bytes_BytesToHash: "length b = 32 \<Longrightarrow> Hash_Bytes (BytesToHash b) = b"
proof -
  assume l: "length b = 32"
  have "SetBytes (Hash_Bytes (BytesToHash b)) = SetBytes b"
    using SetBytes_less [of b] SetBytes_nonneg [of b] l by (simp add: BytesToHash_eq uint_word_of_int)
  then show ?thesis using l by (metis SetBytes_inject length_Hash_Bytes)
qed

lemma SafeAddUint64_spec:
  "SafeAddUint64 a b =
     (if unat a + unat b < 2 ^ 64 then (a + b, False) else (0, True))"
proof -
  have "a + b < a \<longleftrightarrow> \<not> unat a + unat b < 2 ^ 64" and "a + b < b \<longleftrightarrow> \<not> unat a + unat b < 2 ^ 64"
    using unat_less_2p64 [of a] unat_less_2p64 [of b]
    by (auto simp: word_less_nat_alt unat_word_ariths mod_if)
  then show ?thesis by (simp add: SafeAddUint64_def Let_def)
qed

lemma BigIntDivCeil_bounds:
  assumes "0 < b"
  shows "b * (BigIntDivCeil a b - 1) < a" and "a \<le> b * BigIntDivCeil a b"
proof -
  define q r where "q = (a + b - 1) div b" and "r = (a + b - 1) mod b"
  then have eq: "BigIntDivCeil a b = q" and "a + b - 1 = b * q + r" and "0 \<le> r" and "r < b"
    using assms by (simp_all add: BigIntDivCeil_def big_Div_def)
  then show "b * (BigIntDivCeil a b - 1) < a" and "a \<le> b * BigIntDivCeil a b"
    unfolding eq by (simp_all add: algebra_simps)
qed

lemma EncodeUint64_roundtrip: "EncodeBytesToUint64 (EncodeUint64ToBytes v) = Some v"
  using uint_bounded [of v]
  by (simp add: EncodeBytesToUint64_def EncodeUint64ToBytes_def SetBytes_be_bytes)

end
