(* ===== verification/Chain_Params.thy ===== *)
theory Chain_Params
  imports Edge_Types
begin

text \<open>
  Fork activation and the burn-contract schedule (\<open>src/chain/params.go\<close>).  The
  Go map of forks is a finite partial function from fork names; the burn-contract
  map is an association list with distinct keys, because the code iterates over
  it (in an unspecified order) before it sorts the keys.
\<close>

section \<open>Forks\<close>

record Fork =
  Block :: uint64

type_synonym Forks = "string \<rightharpoonup> Fork"

record ForksInTime =
  Homestead :: bool
  Byzantium :: bool
  Constantinople :: bool
  Petersburg :: bool
  Istanbul :: bool
  London :: bool
  EIP150 :: bool
  EIP158 :: bool
  EIP155 :: bool
  QuorumCalcAlignment :: bool
  TxHashWithType :: bool
  LondonFix :: bool

definition NewFork :: "uint64 \<Rightarrow> Fork" where
  "NewFork n = \<lparr>Block = n\<rparr>"

definition Active :: "Fork \<Rightarrow> uint64 \<Rightarrow> bool" where
  "Active f block \<longleftrightarrow> Block f \<le> block"

definition IsActive :: "Forks \<Rightarrow> string \<Rightarrow> uint64 \<Rightarrow> bool" where
  "IsActive f name block = (case f name of None \<Rightarrow> False | Some ff \<Rightarrow> Active ff block)"

definition SetFork :: "Forks \<Rightarrow> string \<Rightarrow> Fork \<Rightarrow> Forks" where
  "SetFork f name v = f(name \<mapsto> v)"

definition RemoveFork :: "Forks \<Rightarrow> string \<Rightarrow> Forks" where
  "RemoveFork f name = f(name := None)"

definition Forks_At :: "Forks \<Rightarrow> uint64 \<Rightarrow> ForksInTime" where
  "Forks_At f block =
     \<lparr>Homestead = IsActive f ''homestead'' block,
      Byzantium = IsActive f ''byzantium'' block,
      Constantinople = IsActive f ''constantinople'' block,
      Petersburg = IsActive f ''petersburg'' block,
      Istanbul = IsActive f ''istanbul'' block,
      London = IsActive f ''london'' block,
      EIP150 = IsActive f ''EIP150'' block,
      EIP158 = IsActive f ''EIP158'' block,
      EIP155 = IsActive f ''EIP155'' block,
      QuorumCalcAlignment = IsActive f ''quorumcalcalignment'' block,
      TxHashWithType = IsActive f ''txHashWithType'' block,
      LondonFix = IsActive f ''londonfix'' block\<rparr>"

definition AllForksEnabled :: Forks where
  "AllForksEnabled =
     [''homestead'' \<mapsto> NewFork 0, ''EIP150'' \<mapsto> NewFork 0, ''EIP155'' \<mapsto> NewFork 0,
      ''EIP158'' \<mapsto> NewFork 0, ''byzantium'' \<mapsto> NewFork 0, ''constantinople'' \<mapsto> NewFork 0,
      ''petersburg'' \<mapsto> NewFork 0, ''istanbul'' \<mapsto> NewFork 0, ''london'' \<mapsto> NewFork 0,
      ''quorumcalcalignment'' \<mapsto> NewFork 0, ''txHashWithType'' \<mapsto> NewFork 0,
      ''londonfix'' \<mapsto> NewFork 0]"

lemma IsActive_mono: "IsActive f name b \<Longrightarrow> b \<le> b' \<Longrightarrow> IsActive f name b'"
  by (auto simp: IsActive_def Active_def split: option.splits intro: order_trans)

lemma IsActive_SetFork:
  "IsActive (SetFork f name v) n b = (if n = name then Active v b else IsActive f n b)"
  by (simp add: IsActive_def SetFork_def)

lemma IsActive_RemoveFork:
  "IsActive (RemoveFork f name) n b = (n \<noteq> name \<and> IsActive f n b)"
  by (simp add: IsActive_def RemoveFork_def)

section \<open>The burn contract of a block\<close>

datatype burn_error = ErrBurnContractAddressMissing

type_synonym burn_schedule = "(uint64 \<times> address) list"

text \<open>The loop over the sorted start blocks.\<close>

fun burn_scan :: "burn_schedule \<Rightarrow> uint64 list \<Rightarrow> uint64 \<Rightarrow> address option" where
  "burn_scan m (a # b # bs) block =
     (if a \<le> block \<and> block < b then map_of m a else burn_scan m (b # bs) block)"
| "burn_scan m [a] block = map_of m a"
| "burn_scan m [] block = None"

definition CalculateBurnContract :: "burn_schedule \<Rightarrow> uint64 \<Rightarrow> burn_error + address" where
  "CalculateBurnContract m block =
     (let blocks = map fst m in
      if blocks = [] then Inl ErrBurnContractAddressMissing
      else case burn_scan m (sort blocks) block of
             Some a \<Rightarrow> Inr a
           | None \<Rightarrow> Inr ZeroAddress)"

text \<open>
  Reading a missing key of a Go map gives the zero address; the scan only reads
  keys of the map, so that default is never taken.
\<close>

lemma burn_scan_le:
  assumes "sorted bs" and "bs \<noteq> []" and "hd bs \<le> block"
  shows "burn_scan m bs block = map_of m (Max {b \<in> set bs. b \<le> block})"
  using assms
proof (induction m bs block rule: burn_scan.induct)
  case (1 m a b bs block)
  show ?case
  proof (cases "block < b")
    case True
    with 1 have "{x \<in> set (a # b # bs). x \<le> block} = {a}" by fastforce
    with 1 True show ?thesis by simp
  next
    case False
    then have b: "b \<le> block" by simp
    let ?S = "{x \<in> set (b # bs). x \<le> block}"
    have "{x \<in> set (a # b # bs). x \<le> block} = insert a ?S" using 1 by auto
    moreover have "Max (insert a ?S) = Max ?S"
    proof -
      have "b \<in> ?S" and "a \<le> b" using 1 b by auto
      then have "a \<le> Max ?S" by (intro order_trans [OF \<open>a \<le> b\<close>] Max_ge) simp_all
      moreover have "Max (insert a ?S) = max a (Max ?S)"
        using \<open>b \<in> ?S\<close> by (intro Max_insert) auto
      ultimately show ?thesis by simp
    qed
    ultimately show ?thesis using 1 b False by simp
  qed
next
  case (2 m a block)
  then have "{x. x = a \<and> x \<le> block} = {a}" by auto
  then show ?case by simp
qed simp

lemma burn_scan_before:
  assumes "sorted bs" and "bs \<noteq> []" and "block < hd bs"
  shows "burn_scan m bs block = map_of m (last bs)"
  using assms
proof (induction m bs block rule: burn_scan.induct)
  case (1 m a b bs block)
  then show ?case by auto
qed simp_all

lemma CalculateBurnContract_active:
  assumes "distinct (map fst m)" and "(s, a) \<in> set m" and "s \<le> block"
    and "\<And>s' a'. (s', a') \<in> set m \<Longrightarrow> s' \<le> block \<Longrightarrow> s' \<le> s"
  shows "CalculateBurnContract m block = Inr a"
proof -
  let ?bs = "sort (map fst m)"
  have s: "s \<in> set ?bs" using assms(2) by force
  then have ne: "?bs \<noteq> []" by (metis empty_iff empty_set)
  then have "hd ?bs \<le> s" using s sorted_sort [of "map fst m"]
    by (cases ?bs) (simp_all add: sorted_simps(2) del: set_sort, blast)
  then have le: "hd ?bs \<le> block" using assms(3) by simp
  have "Max {b \<in> set ?bs. b \<le> block} = s"
    using s assms(3,4) by (intro Max_eqI) auto
  then have "burn_scan m ?bs block = map_of m s"
    using burn_scan_le [OF sorted_sort ne le] by simp
  also have "\<dots> = Some a" using assms(1,2) by simp
  finally show ?thesis using ne assms(2) by (auto simp: CalculateBurnContract_def Let_def)
qed

end
