(* ===== verification/Runtime_Defs.thy ===== *)
theory Runtime_Defs
  imports Chain_Params
begin

text \<open>
  The vocabulary shared by every runtime (\<open>src/state/runtime/runtime.go\<close>): the
  errors, the transaction context, the contract being executed, the result of an
  execution, and the \<open>Host\<close> interface through which the interpreter reaches the
  world state.  A Go interface is a record of operations over a state type \<open>'h\<close>;
  operations that mutate the host return its new state.
\<close>

section \<open>Errors, statuses and call types\<close>

datatype error =
    ErrOutOfGas
  | ErrNotEnoughFunds
  | ErrInsufficientBalance
  | ErrMaxCodeSizeExceeded
  | ErrContractAddressCollision
  | ErrDepth
  | ErrExecutionReverted
  | ErrCodeStoreOutOfGas
  | ErrUnauthorizedCaller
  | ErrInvalidInputData
  | ErrNotAuth
  | ErrInsufficientFunds
  | ErrNonceUintOverflow
  | ErrRuntimeNotFound
  | ErrSnapshotOutOfRange int
  | errGasUintOverflow
  | errWriteProtection
  | errInvalidJump
  | errOpCodeNotFound
  | errReturnDataOutOfBounds
  | errNoFunctionSignature
  | errInputTooShort
  | errFunctionNotFound
  | errAdminSelfRemove
  | errPrecompile nat
  | StackUnderflowError int int
  | StackOverflowError int int

datatype StorageStatus =
  StorageUnchanged | StorageModified | StorageModifiedAgain | StorageAdded | StorageDeleted

datatype CallType = Call | CallCode | DelegateCall | StaticCall | Create | Create2

section \<open>Contexts, contracts and results\<close>

record TxContext =
  CtxGasPrice :: hash
  CtxOrigin :: address
  Coinbase :: address
  Number :: int
  Timestamp :: int
  GasLimit :: int
  ChainID :: int
  Difficulty :: hash
  NonPayable :: bool
  BaseFee :: "int option"
  BurnContract :: address

record Contract =
  Code :: "byte list"
  Type :: CallType
  CodeAddress :: address
  Address :: address
  Origin :: address
  Caller :: address
  Depth :: int
  Value :: "int option"
  Input :: "byte list"
  Gas :: uint64
  Static :: bool

record ExecutionResult =
  ReturnValue :: "byte list"
  GasLeft :: uint64
  GasUsed :: uint64
  Err :: "error option"
  ResAddress :: address

definition NewContract ::
  "int \<Rightarrow> address \<Rightarrow> address \<Rightarrow> address \<Rightarrow> int option \<Rightarrow> uint64 \<Rightarrow> byte list \<Rightarrow> Contract" where
  "NewContract depth origin sender to v g code =
     \<lparr>Code = code, Type = Call, CodeAddress = to, Address = to, Origin = origin,
      Caller = sender, Depth = depth, Value = v, Input = [], Gas = g, Static = False\<rparr>"

definition NewContractCreation ::
  "int \<Rightarrow> address \<Rightarrow> address \<Rightarrow> address \<Rightarrow> int option \<Rightarrow> uint64 \<Rightarrow> byte list \<Rightarrow> Contract" where
  "NewContractCreation depth origin sender to v g code =
     NewContract depth origin sender to v g code"

definition NewContractCall ::
  "int \<Rightarrow> address \<Rightarrow> address \<Rightarrow> address \<Rightarrow> int option \<Rightarrow> uint64 \<Rightarrow> byte list \<Rightarrow> byte list \<Rightarrow>
   Contract" where
  "NewContractCall depth origin sender to v g code input =
     (NewContract depth origin sender to v g code)\<lparr>Input := input\<rparr>"

text \<open>The zero value of a result, from which the composite literals are built.\<close>

definition no_result :: ExecutionResult where
  "no_result = \<lparr>ReturnValue = [], GasLeft = 0, GasUsed = 0, Err = None, ResAddress = ZeroAddress\<rparr>"

definition Succeeded :: "ExecutionResult \<Rightarrow> bool" where
  "Succeeded r \<longleftrightarrow> Err r = None"

definition Failed :: "ExecutionResult \<Rightarrow> bool" where
  "Failed r \<longleftrightarrow> Err r \<noteq> None"

definition Reverted :: "ExecutionResult \<Rightarrow> bool" where
  "Reverted r \<longleftrightarrow> Err r = Some ErrExecutionReverted"

definition UpdateGasUsed :: "ExecutionResult \<Rightarrow> uint64 \<Rightarrow> uint64 \<Rightarrow> ExecutionResult" where
  "UpdateGasUsed r gasLimit refund =
     (let used = gasLimit - GasLeft r;
          maxRefund = used div 2;
          refund' = (if maxRefund < refund then maxRefund else refund)
      in r\<lparr>GasLeft := GasLeft r + refund', GasUsed := used - refund'\<rparr>)"

text \<open>
  The refund never exceeds half of the gas used, and what is used and what is
  left always add up to the limit.
\<close>

lemma UpdateGasUsed_sum:
  assumes "GasLeft r \<le> gasLimit"
  shows "unat (GasLeft (UpdateGasUsed r gasLimit refund)) +
         unat (GasUsed (UpdateGasUsed r gasLimit refund)) = unat gasLimit"
    and "unat (GasLeft (UpdateGasUsed r gasLimit refund)) \<le>
         unat (GasLeft r) + (unat gasLimit - unat (GasLeft r)) div 2"
    and "unat (GasLeft r) \<le> unat (GasLeft (UpdateGasUsed r gasLimit refund))"
proof -
  define used where "used = gasLimit - GasLeft r"
  define d where "d = (if used div 2 < refund then used div 2 else refund)"
  have used: "unat used = unat gasLimit - unat (GasLeft r)"
    using assms by (simp add: used_def unat_sub_le)
  have half: "unat (used div 2) = unat used div 2" by (simp add: unat_div)
  have d: "unat d \<le> unat used div 2"
    by (auto simp: d_def half word_less_nat_alt not_less simp flip: half)
  have le: "unat (GasLeft r) \<le> unat gasLimit" using assms by (simp add: word_le_nat_alt)
  have left: "unat (GasLeft r + d) = unat (GasLeft r) + unat d"
    using d used le unat_less_2p64 [of gasLimit] by (intro unat_add_no_wrap) linarith
  have rest: "unat (used - d) = unat used - unat d"
    using d by (intro unat_sub_le) (simp add: word_le_nat_alt)
  have eq: "GasLeft (UpdateGasUsed r gasLimit refund) = GasLeft r + d"
      "GasUsed (UpdateGasUsed r gasLimit refund) = used - d"
    by (simp_all add: UpdateGasUsed_def Let_def used_def d_def)
  show "unat (GasLeft (UpdateGasUsed r gasLimit refund)) +
      unat (GasUsed (UpdateGasUsed r gasLimit refund)) = unat gasLimit"
    unfolding eq left rest using d used le by linarith
  show "unat (GasLeft (UpdateGasUsed r gasLimit refund)) \<le>
      unat (GasLeft r) + (unat gasLimit - unat (GasLeft r)) div 2"
    unfolding eq left using d used by simp
  show "unat (GasLeft r) \<le> unat (GasLeft (UpdateGasUsed r gasLimit refund))"
    unfolding eq left by simp
qed

section \<open>The host interface\<close>

text \<open>
  \<open>GetCode\<close> and \<open>GetCodeSize\<close> may fill a cache, so they return the host too.
  \<open>Callx\<close> runs another contract; \<open>None\<close> is a call that does not return.
  \<open>GetTracer\<close> is left out: the model is the host without a tracer.
\<close>

record 'h Host =
  AccountExists :: "'h \<Rightarrow> address \<Rightarrow> bool"
  GetStorage :: "'h \<Rightarrow> address \<Rightarrow> hash \<Rightarrow> hash"
  SetStorage :: "'h \<Rightarrow> address \<Rightarrow> hash \<Rightarrow> hash \<Rightarrow> ForksInTime \<Rightarrow> StorageStatus \<times> 'h"
  SetState :: "'h \<Rightarrow> address \<Rightarrow> hash \<Rightarrow> hash \<Rightarrow> 'h"
  GetBalance :: "'h \<Rightarrow> address \<Rightarrow> int"
  GetCodeSize :: "'h \<Rightarrow> address \<Rightarrow> nat \<times> 'h"
  GetCodeHash :: "'h \<Rightarrow> address \<Rightarrow> hash"
  GetCode :: "'h \<Rightarrow> address \<Rightarrow> byte list \<times> 'h"
  Selfdestruct :: "'h \<Rightarrow> address \<Rightarrow> address \<Rightarrow> 'h"
  GetTxContext :: "'h \<Rightarrow> TxContext"
  GetBlockHash :: "'h \<Rightarrow> int \<Rightarrow> hash"
  EmitLog :: "'h \<Rightarrow> address \<Rightarrow> hash list \<Rightarrow> byte list \<Rightarrow> 'h"
  Callx :: "'h \<Rightarrow> Contract \<Rightarrow> (ExecutionResult \<times> 'h) go"
  AccountEmpty :: "'h \<Rightarrow> address \<Rightarrow> bool"
  GetNonce :: "'h \<Rightarrow> address \<Rightarrow> uint64"
  Transfer :: "'h \<Rightarrow> address \<Rightarrow> address \<Rightarrow> int option \<Rightarrow> error option \<times> 'h"
  GetRefund :: "'h \<Rightarrow> uint64"

text \<open>
  What the interpreter uses besides its host: Keccak-256 and the RLP encoder are
  third-party packages, so they are parameters (\<open>RlpAddrNonce a n\<close> is the RLP
  encoding of the list \<open>[a, n]\<close>).
\<close>

record 'h Env = "'h Host" +
  Keccak256 :: "byte list \<Rightarrow> byte list"
  RlpAddrNonce :: "address \<Rightarrow> uint64 \<Rightarrow> byte list"

definition CreateAddress ::
  "(byte list \<Rightarrow> byte list) \<Rightarrow> (address \<Rightarrow> uint64 \<Rightarrow> byte list) \<Rightarrow> address \<Rightarrow> uint64 \<Rightarrow> address" where
  "CreateAddress keccak rlp addr nonce = BytesToAddress (drop 12 (keccak (rlp addr nonce)))"

definition CreateAddress2 ::
  "(byte list \<Rightarrow> byte list) \<Rightarrow> address \<Rightarrow> hash \<Rightarrow> byte list \<Rightarrow> address" where
  "CreateAddress2 keccak addr salt inithash =
     BytesToAddress
       (drop 12 (keccak ([0xff] @ Address_Bytes addr @ Hash_Bytes salt @ keccak inithash)))"

end
