(* ===== verification/EVM_Bitmap.thy ===== *)
theory EVM_Bitmap
  imports Runtime_Defs
begin

text \<open>
  The jump-destination bitmap (\<open>src/state/runtime/evm/bitmap.go\<close>): one bit per
  code byte, set by a single left-to-right scan that skips the immediate bytes
  of PUSH instructions.  The specification is the set of instruction boundaries,
  defined inductively; the scan marks exactly the boundaries that hold a
  JUMPDEST.
\<close>

definition isPushOp :: "byte \<Rightarrow> bool" where
  "isPushOp i \<longleftrightarrow> drop_bit 5 i = 3"

definition bm_isSet :: "byte list \<Rightarrow> nat \<Rightarrow> bool go" where
  "bm_isSet buf i =
     (if i div 8 < length buf then Some ((buf ! (i div 8)) AND push_bit (i mod 8) 1 \<noteq> 0) else None)"

definition bm_set :: "byte list \<Rightarrow> nat \<Rightarrow> byte list go" where
  "bm_set buf i =
     (if i div 8 < length buf
      then Some (buf[i div 8 := (buf ! (i div 8)) OR push_bit (i mod 8) 1]) else None)"

definition bm_reset :: "byte list \<Rightarrow> byte list" where
  "bm_reset buf = []"

function setCode_from :: "byte list \<Rightarrow> nat \<Rightarrow> byte list \<Rightarrow> byte list go" where
  "setCode_from code i buf =
     (if i < length code then
        (let c = code ! i in
         if isPushOp c then setCode_from code (i + (unat c - 0x60 + 2)) buf
         else if c = 0x5b then
           do { buf' \<leftarrow> bm_set buf i; setCode_from code (i + 1) buf' }
         else setCode_from code (i + 1) buf)
      else Some buf)"
  by pat_completeness auto
termination
  by (relation "measure (\<lambda>(code, i, buf). length code - i)") auto

declare setCode_from.simps [simp del]

definition bm_setCode :: "byte list \<Rightarrow> byte list \<Rightarrow> byte list go" where
  "bm_setCode buf code = setCode_from code 0 (ExtendByteSlice buf (length code div 8 + 1))"

section \<open>Specification\<close>

text \<open>The number of bytes an instruction occupies, and where instructions start.\<close>

definition instr_len :: "byte \<Rightarrow> nat" where
  "instr_len c = (if 0x60 \<le> unat c \<and> unat c \<le> 0x7f then unat c - 0x60 + 2 else 1)"

text \<open>\<open>instr_from code i j\<close>: reading instructions from offset \<open>i\<close>, one starts at \<open>j\<close>.\<close>

inductive instr_from :: "byte list \<Rightarrow> nat \<Rightarrow> nat \<Rightarrow> bool" for code where
  here: "instr_from code i i"
| there: "i < length code \<Longrightarrow> instr_from code (i + instr_len (code ! i)) j \<Longrightarrow> instr_from code i j"

definition jumpdest :: "byte list \<Rightarrow> nat \<Rightarrow> bool" where
  "jumpdest code i \<longleftrightarrow> i < length code \<and> instr_from code 0 i \<and> code ! i = 0x5b"

section \<open>The bits of a buffer\<close>

definition marked :: "byte list \<Rightarrow> nat \<Rightarrow> bool" where
  "marked buf i \<longleftrightarrow> i div 8 < length buf \<and> bit (buf ! (i div 8)) (i mod 8)"

lemma isPushOp_iff: "isPushOp c \<longleftrightarrow> 0x60 \<le> unat c \<and> unat c \<le> 0x7f"
proof -
  have "drop_bit 5 c = 3 \<longleftrightarrow> unat (drop_bit 5 c) = unat (3 :: byte)"
    by (simp only: word_unat_eq_iff)
  also have "unat (drop_bit 5 c) = unat c div 32"
    by (simp add: drop_bit_eq_div unat_div)
  finally show ?thesis by (auto simp: isPushOp_def)
qed

lemma instr_len_isPushOp:
  "instr_len c = (if isPushOp c then unat c - 0x60 + 2 else 1)"
  by (simp add: instr_len_def isPushOp_iff)

lemma instr_len_pos [simp]: "0 < instr_len c"
  by (simp add: instr_len_def)

lemma bm_isSet_marked: "i div 8 < length buf \<Longrightarrow> bm_isSet buf i = Some (marked buf i)"
  by (simp add: bm_isSet_def marked_def push_bit_eq_mult and_exp_eq_0_iff_not_bit)

lemma bm_set_marked:
  assumes "i div 8 < length buf"
  obtains buf' where "bm_set buf i = Some buf'" and "length buf' = length buf"
    and "\<And>j. marked buf' j \<longleftrightarrow> j = i \<or> marked buf j"
proof
  let ?b = "buf[i div 8 := (buf ! (i div 8)) OR push_bit (i mod 8) 1]"
  show "bm_set buf i = Some ?b" and "length ?b = length buf"
    using assms by (simp_all add: bm_set_def)
  fix j
  have same: "j = i" if "j div 8 = i div 8" and "j mod 8 = i mod 8"
    using that by (metis mult_div_mod_eq)
  have "bit (push_bit (i mod 8) 1 :: byte) (j mod 8) \<longleftrightarrow> j mod 8 = i mod 8"
    by (auto simp: push_bit_eq_mult bit_exp_iff)
  then show "marked ?b j \<longleftrightarrow> j = i \<or> marked buf j"
    using assms same by (cases "j div 8 = i div 8") (auto simp: marked_def bit_or_iff)
qed

lemma marked_zero [simp]: "\<not> marked (replicate n 0) i"
  by (auto simp: marked_def)

section \<open>Correctness of the scan\<close>

lemma instr_from_unfold:
  "instr_from code i j \<longleftrightarrow>
     i = j \<or> i < length code \<and> instr_from code (i + instr_len (code ! i)) j"
  by (subst instr_from.simps) auto

lemma instr_from_le: "instr_from code i j \<Longrightarrow> i \<le> j"
  by (induction rule: instr_from.induct) auto

lemma setCode_from_marks:
  assumes "length code div 8 < length buf"
  shows "\<exists>buf'. setCode_from code i buf = Some buf' \<and> length buf' = length buf \<and>
    (\<forall>j. marked buf' j \<longleftrightarrow>
       marked buf j \<or> j < length code \<and> instr_from code i j \<and> code ! j = 0x5b)"
  using assms
proof (induction code i buf rule: setCode_from.induct)
  case (1 code i buf)
  show ?case
  proof (cases "i < length code")
    case False
    then have "\<not> (j < length code \<and> instr_from code i j)" for j
      using instr_from_le [of code i j] by auto
    with False show ?thesis by (subst setCode_from.simps) auto
  next
    case len: True
    note unfold = setCode_from.simps [of code i buf] instr_from_unfold [of code i]
    consider (push) "isPushOp (code ! i)" | (dest) "\<not> isPushOp (code ! i)" "code ! i = 0x5b"
      | (other) "\<not> isPushOp (code ! i)" "code ! i \<noteq> 0x5b" by blast
    then show ?thesis
    proof cases
      case push
      moreover have "code ! i \<noteq> 0x5b" using push by (auto simp: isPushOp_def)
      ultimately show ?thesis
        using "1.IH"(1) [OF len refl push "1.prems"] len
        by (auto simp: unfold instr_len_isPushOp)
    next
      case dest
      have "i div 8 < length buf"
        using len "1.prems" by (meson div_le_mono le_less_trans less_imp_le)
      then obtain b where b: "bm_set buf i = Some b" "length b = length buf"
          "\<And>j. marked b j \<longleftrightarrow> j = i \<or> marked buf j"
        by (rule bm_set_marked) blast
      with "1.prems" have "length code div 8 < length b" by simp
      with "1.IH"(2) [OF len refl dest] b(2,3) dest len show ?thesis
        by (auto simp: unfold instr_len_isPushOp b(1))
    next
      case other
      then show ?thesis
        using "1.IH"(3) [OF len refl other "1.prems"] len
        by (auto simp: unfold instr_len_isPushOp)
    qed
  qed
qed

lemma bm_setCode_correct:
  obtains buf where "bm_setCode [] code = Some buf" and "length buf = length code div 8 + 1"
    and "\<And>i. i < length code \<Longrightarrow> bm_isSet buf i = Some (jumpdest code i)"
proof -
  let ?b = "ExtendByteSlice [] (length code div 8 + 1)"
  have zero: "\<not> marked ?b j" for j by (simp add: ExtendByteSlice_grow del: replicate_Suc)
  have "length code div 8 < length ?b" by simp
  then obtain buf where buf: "bm_setCode [] code = Some buf" "length buf = length ?b"
      "\<And>j. marked buf j \<longleftrightarrow>
         marked ?b j \<or> j < length code \<and> instr_from code 0 j \<and> code ! j = 0x5b"
    using setCode_from_marks [of code ?b 0] unfolding bm_setCode_def by blast
  have "bm_isSet buf i = Some (jumpdest code i)" if "i < length code" for i
  proof -
    from that have "i div 8 < length buf"
      using div_le_mono [of i "length code" 8] by (simp add: buf(2))
    then show ?thesis
      using buf(3) [of i] zero [of i] that by (simp add: bm_isSet_marked jumpdest_def)
  qed
  with buf(1,2) that show thesis by simp
qed

end
