(* ===== verification/EVM_State.thy ===== *)
theory EVM_State
  imports EVM_Bitmap
begin

text \<open>
  The interpreter's machine state and its primitives
  (\<open>src/state/runtime/evm/state.go\<close>).

  The operand stack is the slice of big-integer cells \<open>stack\<close> with the stack
  pointer \<open>sp\<close>.  Popping only moves \<open>sp\<close>: the cell stays in the slice and the
  next push recycles it, so a pointer to a cell is its index and a write through
  a popped pointer is a write to a dead cell.  Cells are never shared between
  two positions of the slice, so the model keeps the values in the slice
  directly.  Nil is the pointer \<open>None\<close>; reading or writing through it panics.
\<close>

record 'h vm =
  ip :: int
  code :: "byte list"
  tmp :: "byte list"
  host :: 'h
  msg :: Contract
  config :: ForksInTime
  memory :: "byte list"
  lastGasCost :: uint64
  stack :: "int list"
  sp :: nat
  err :: "error option"
  stop :: bool
  gas :: uint64
  currentConsumedGas :: uint64
  bitmap :: "byte list"
  returnData :: "byte list"
  ret :: "byte list"

type_synonym cell = "nat option"
type_synonym 'h instruction = "'h vm \<Rightarrow> 'h vm go"

definition stackSize :: nat where "stackSize = 1024"

section \<open>Halting and resetting\<close>

definition vm_reset :: "'h vm \<Rightarrow> 'h vm" where
  "vm_reset c = c\<lparr>sp := 0, ip := 0, gas := 0, currentConsumedGas := 0, lastGasCost := 0,
     stop := False, err := None, bitmap := bm_reset (bitmap c), stack := [], tmp := [],
     ret := [], code := [], memory := []\<rparr>"

definition resetReturnData :: "'h vm \<Rightarrow> 'h vm" where
  "resetReturnData c = c\<lparr>returnData := []\<rparr>"

definition Halt :: "'h vm \<Rightarrow> 'h vm" where
  "Halt c = c\<lparr>stop := True\<rparr>"

definition vm_exit :: "error option \<Rightarrow> 'h vm \<Rightarrow> 'h vm" where
  "vm_exit e c = (if e = None then c else c\<lparr>stop := True, err := e\<rparr>)"

section \<open>The operand stack\<close>

definition push1 :: "'h vm \<Rightarrow> cell \<times> 'h vm" where
  "push1 c =
     (if sp c < length (stack c) then (Some (sp c), c\<lparr>sp := sp c + 1\<rparr>)
      else (Some (length (stack c)), c\<lparr>stack := stack c @ [0], sp := sp c + 1\<rparr>))"

definition stack_pop :: "'h vm \<Rightarrow> cell \<times> 'h vm" where
  "stack_pop c = (if sp c = 0 then (None, c) else (Some (sp c - 1), c\<lparr>sp := sp c - 1\<rparr>))"

definition stack_top :: "'h vm \<Rightarrow> cell" where
  "stack_top c = (if sp c = 0 then None else Some (sp c - 1))"

text \<open>Reading and setting the big integer behind a pointer.\<close>

definition deref :: "'h vm \<Rightarrow> cell \<Rightarrow> int go" where
  "deref c p = (case p of None \<Rightarrow> None
     | Some i \<Rightarrow> if i < length (stack c) then Some (stack c ! i) else None)"

definition assign :: "'h vm \<Rightarrow> cell \<Rightarrow> int \<Rightarrow> 'h vm go" where
  "assign c p v = (case p of None \<Rightarrow> None
     | Some i \<Rightarrow> if i < length (stack c) then Some (c\<lparr>stack := (stack c)[i := v]\<rparr>) else None)"

text \<open>\<open>c.push1().Set(v)\<close>, as most instructions use it.\<close>

definition stack_push :: "'h vm \<Rightarrow> int \<Rightarrow> 'h vm go" where
  "stack_push c v = (let (p, c) = push1 c in assign c p v)"

definition stackAtLeast :: "'h vm \<Rightarrow> nat \<Rightarrow> bool" where
  "stackAtLeast c n \<longleftrightarrow> n \<le> sp c"

definition popHash :: "'h vm \<Rightarrow> (hash \<times> 'h vm) go" where
  "popHash c = do { let (p, c) = stack_pop c; v \<leftarrow> deref c p; Some (BytesToHash (Bytes v), c) }"

definition popAddr :: "'h vm \<Rightarrow> (address \<times> bool \<times> 'h vm) go" where
  "popAddr c =
     (let (p, c) = stack_pop c in
      if p = None then Some (ZeroAddress, False, c)
      else do { b \<leftarrow> deref c p; Some (BytesToAddress (Bytes b), True, c) })"

text \<open>Indices below zero or past the slice panic.\<close>

definition peekAt :: "'h vm \<Rightarrow> nat \<Rightarrow> cell go" where
  "peekAt c n =
     (if n \<le> sp c \<and> sp c - n < length (stack c) then Some (Some (sp c - n)) else None)"

definition stack_swap :: "'h vm \<Rightarrow> nat \<Rightarrow> 'h vm go" where
  "stack_swap c n =
     (if n + 1 \<le> sp c \<and> sp c \<le> length (stack c)
      then (let x = stack c ! (sp c - 1); y = stack c ! (sp c - n - 1)
            in Some (c\<lparr>stack := (stack c)[sp c - 1 := y, sp c - n - 1 := x]\<rparr>))
      else None)"

lemmas stack_defs [stack_simps] =
  push1_def stack_pop_def stack_top_def deref_def assign_def stack_push_def

section \<open>Gas and memory\<close>

definition consumeGas :: "'h vm \<Rightarrow> uint64 \<Rightarrow> bool \<times> 'h vm" where
  "consumeGas c g =
     (let c = c\<lparr>currentConsumedGas := currentConsumedGas c + g\<rparr> in
      if gas c < g then (False, vm_exit (Some ErrOutOfGas) c)
      else (True, c\<lparr>gas := gas c - g\<rparr>))"

definition allocateMemory :: "'h vm \<Rightarrow> int \<Rightarrow> int \<Rightarrow> bool \<times> 'h vm" where
  "allocateMemory c offset sz =
     (if \<not> IsUint64 offset \<or> \<not> IsUint64 sz
      then (False, vm_exit (Some errReturnDataOutOfBounds) c)
      else if sz = 0 then (True, c)
      else
        let o' = Uint64 offset; s = Uint64 sz in
        if 0xffffffffe0 < o' \<or> 0xffffffffe0 < s
        then (False, vm_exit (Some errReturnDataOutOfBounds) c)
        else
          let newSize = o' + s; currentSize = (of_nat (length (memory c)) :: uint64) in
          if currentSize < newSize then
            let w = (newSize + 31) div 32;
                newCost = 3 * w + w * w div 512;
                cost = newCost - lastGasCost c;
                c = c\<lparr>lastGasCost := newCost\<rparr>;
                (ok, c) = consumeGas c cost
            in if \<not> ok then (False, vm_exit (Some ErrOutOfGas) c)
               else (True, c\<lparr>memory := ExtendByteSlice (memory c) (unat (w * 32))\<rparr>)
          else (True, c))"

text \<open>\<open>get2\<close> appends \<open>length\<close> bytes of memory at \<open>offset\<close> to \<open>dst\<close>.\<close>

definition get2 :: "'h vm \<Rightarrow> byte list \<Rightarrow> int \<Rightarrow> int \<Rightarrow> (byte list \<times> bool \<times> 'h vm) go" where
  "get2 c dst offset len =
     (if len = 0 then Some ([], True, c)
      else
        let (ok, c) = allocateMemory c offset len in
        if \<not> ok then Some ([], False, c)
        else do {
          let o' = unat (Uint64 offset);
          let l = unat (Uint64 len);
          bs \<leftarrow> go_slice (memory c) o' (o' + l);
          Some (dst @ bs, True, c) })"

section \<open>Code access\<close>

definition validJumpdest :: "'h vm \<Rightarrow> int \<Rightarrow> bool go" where
  "validJumpdest c dest =
     (let udest = Uint64 dest in
      if 63 \<le> BitLen dest \<or> of_nat (length (code c)) \<le> udest then Some False
      else bm_isSet (bitmap c) (unat udest))"

text \<open>The second component is \<open>ok\<close>; reading at a negative offset panics.\<close>

definition CurrentOpCode :: "'h vm \<Rightarrow> (byte \<times> bool) go" where
  "CurrentOpCode c =
     (if int (length (code c)) \<le> ip c then Some (0, False)
      else if ip c < 0 then None
      else Some (code c ! nat (ip c), True))"

definition inStaticCall :: "'h vm \<Rightarrow> bool" where
  "inStaticCall c = Static (msg c)"

definition bigToHash :: "int \<Rightarrow> hash" where
  "bigToHash b = BytesToHash (Bytes b)"

definition vm_Len :: "'h vm \<Rightarrow> nat" where
  "vm_Len c = length (memory c)"

section \<open>Laws of the primitives\<close>

lemma vm_exit_simps [simp]:
  "stop (vm_exit (Some e) c)" "err (vm_exit (Some e) c) = Some e"
  by (simp_all add: vm_exit_def)

lemma vm_exit_frame [simp]:
  "ip (vm_exit e c) = ip c" "code (vm_exit e c) = code c" "tmp (vm_exit e c) = tmp c"
  "host (vm_exit e c) = host c" "msg (vm_exit e c) = msg c" "config (vm_exit e c) = config c"
  "memory (vm_exit e c) = memory c" "lastGasCost (vm_exit e c) = lastGasCost c"
  "stack (vm_exit e c) = stack c" "sp (vm_exit e c) = sp c" "gas (vm_exit e c) = gas c"
  "bitmap (vm_exit e c) = bitmap c" "returnData (vm_exit e c) = returnData c"
  "ret (vm_exit e c) = ret c"
  by (simp_all add: vm_exit_def)

lemma Halt_frame [simp]:
  "ip (Halt c) = ip c" "code (Halt c) = code c" "tmp (Halt c) = tmp c"
  "host (Halt c) = host c" "msg (Halt c) = msg c" "config (Halt c) = config c"
  "memory (Halt c) = memory c" "lastGasCost (Halt c) = lastGasCost c"
  "stack (Halt c) = stack c" "sp (Halt c) = sp c" "gas (Halt c) = gas c"
  "bitmap (Halt c) = bitmap c" "returnData (Halt c) = returnData c"
  "ret (Halt c) = ret c" "stop (Halt c)" "err (Halt c) = err c"
  by (simp_all add: Halt_def)

lemma consumeGas_cases:
  obtains (out) "gas c < g" and "consumeGas c g =
      (False, vm_exit (Some ErrOutOfGas) (c\<lparr>currentConsumedGas := currentConsumedGas c + g\<rparr>))"
  | (ok) "g \<le> gas c" and "consumeGas c g =
      (True, c\<lparr>currentConsumedGas := currentConsumedGas c + g, gas := gas c - g\<rparr>)"
  by (cases "gas c < g") (simp_all add: consumeGas_def Let_def)

text \<open>The price of memory in the protocol: \<open>3 w + w\<^sup>2 / 512\<close> for \<open>w\<close> words.\<close>

definition Cmem :: "nat \<Rightarrow> nat" where
  "Cmem w = 3 * w + w * w div 512"

definition mem_words :: "nat \<Rightarrow> nat" where
  "mem_words n = (n + 31) div 32"

lemma Cmem_mono: "v \<le> w \<Longrightarrow> Cmem v \<le> Cmem w"
  by (simp add: Cmem_def add_mono div_le_mono mult_le_mono)

text \<open>
  \<open>mem_limit\<close> bounds every memory the interpreter can hold.  \<open>exact_limit\<close> is
  the largest memory for which the squared word count fits in 64 bits.
\<close>

definition mem_limit :: nat where "mem_limit = 2 * 0xffffffffe0"
definition exact_limit :: nat where "exact_limit = 2 ^ 37 - 32"

definition mem_inv :: "'h vm \<Rightarrow> bool" where
  "mem_inv c \<longleftrightarrow> length (memory c) mod 32 = 0 \<and> length (memory c) \<le> mem_limit \<and>
     (length (memory c) \<le> exact_limit \<longrightarrow> unat (lastGasCost c) = Cmem (length (memory c) div 32))"

text \<open>The size of a memory of \<open>n\<close> bytes after an access to \<open>[offset, offset + sz)\<close>.\<close>

definition alloc_size :: "nat \<Rightarrow> int \<Rightarrow> int \<Rightarrow> nat" where
  "alloc_size n offset sz =
     (if sz \<noteq> 0 \<and> n < nat offset + nat sz then 32 * mem_words (nat offset + nat sz) else n)"

lemma exact_cost:
  assumes "unat w * 32 \<le> exact_limit"
  shows "unat (3 * w + w * w div 512 :: uint64) = Cmem (unat w)"
proof -
  have w: "unat w \<le> 2 ^ 32 - 1" using assms by (simp add: exact_limit_def)
  then have sq: "unat w * unat w \<le> (2 ^ 32 - 1) * (2 ^ 32 - 1)" by (intro mult_le_mono)
  then have "unat (w * w) = unat w * unat w" by (intro unat_mult_no_wrap) simp
  then have d: "unat (w * w div 512) = unat w * unat w div 512" by (simp add: unat_div)
  have t: "unat (3 * w) = 3 * unat w"
    using w unat_mult_no_wrap [of 3 w] by simp
  have "unat w * unat w div 512 \<le> (2 ^ 32 - 1) * (2 ^ 32 - 1) div 512"
    using sq by (intro div_le_mono)
  then have "unat (3 * w) + unat (w * w div 512) < 2 ^ 64" using w by (simp add: t d)
  then show ?thesis by (simp add: unat_add_no_wrap t d Cmem_def)
qed

lemma alloc_words:
  fixes o' s :: uint64
  assumes "o' \<le> 0xffffffffe0" and "s \<le> 0xffffffffe0"
  shows "unat (o' + s) = unat o' + unat s" (is ?sum)
    and "unat ((o' + s + 31) div 32) = mem_words (unat o' + unat s)" (is ?words)
    and "unat ((o' + s + 31) div 32 * 32) = 32 * mem_words (unat o' + unat s)" (is ?bytes)
    and "32 * mem_words (unat o' + unat s) \<le> mem_limit" (is ?lim)
proof -
  have b: "unat o' \<le> 0xffffffffe0" "unat s \<le> 0xffffffffe0"
    using assms by (simp_all add: word_le_nat_alt)
  then show sum: ?sum by (intro unat_add_no_wrap) simp
  then have "unat (o' + s + 31) = unat o' + unat s + 31"
    using b by (subst unat_add_no_wrap) simp_all
  then show words: ?words by (simp add: mem_words_def unat_div)
  show ?lim using b by (simp add: mem_words_def mem_limit_def)
  then show ?bytes using words
    by (subst unat_mult_no_wrap) (simp_all add: mem_limit_def)
qed

lemma alloc_charge:
  assumes "mem_inv c" and "length (memory c) \<le> n" and "n \<le> exact_limit" and "n = 32 * unat w"
    and "nc = 3 * w + w * w div 512" and "nc - lastGasCost c \<le> gas c"
  shows "unat nc = Cmem (n div 32)"
    and "unat (gas c) = unat (gas c - (nc - lastGasCost c)) + (unat nc - unat (lastGasCost c))"
proof -
  show nc: "unat nc = Cmem (n div 32)"
    unfolding assms(5) using assms(3,4) exact_cost [of w] by simp
  have "unat (lastGasCost c) = Cmem (length (memory c) div 32)"
    using assms(1-3) by (simp add: mem_inv_def)
  also have "\<dots> \<le> unat nc"
    unfolding nc using assms(2) by (intro Cmem_mono div_le_mono)
  finally have "unat (nc - lastGasCost c) = unat nc - unat (lastGasCost c)"
    by (intro unat_sub_le) (simp add: word_le_nat_alt)
  then show "unat (gas c) = unat (gas c - (nc - lastGasCost c)) + (unat nc - unat (lastGasCost c))"
    using assms(6) by (simp add: unat_sub_le word_le_nat_alt)
qed

lemma allocateMemory_grow:
  assumes inv: "mem_inv c" and u64: "IsUint64 offset" "IsUint64 sz" and nz: "sz \<noteq> 0"
    and big: "\<not> 0xffffffffe0 < Uint64 offset" "\<not> 0xffffffffe0 < Uint64 sz"
    and grow: "length (memory c) < nat offset + nat sz"
  obtains (fail) g l where "allocateMemory c offset sz =
      (False, vm_exit (Some ErrOutOfGas) (c\<lparr>lastGasCost := l, currentConsumedGas := g\<rparr>))"
  | (ok) g l u where "allocateMemory c offset sz =
      (True, c\<lparr>lastGasCost := l, currentConsumedGas := g, gas := u,
         memory := memory c @ replicate (32 * mem_words (nat offset + nat sz) - length (memory c)) 0\<rparr>)"
    and "32 * mem_words (nat offset + nat sz) \<le> mem_limit"
    and "32 * mem_words (nat offset + nat sz) \<le> exact_limit \<Longrightarrow>
      unat l = Cmem (mem_words (nat offset + nat sz)) \<and>
      unat (gas c) = unat u + (unat l - unat (lastGasCost c))"
    and "u \<le> gas c"
proof -
  let ?n = "length (memory c)" and ?N = "32 * mem_words (nat offset + nat sz)"
  define o' s w nc where "o' = Uint64 offset" and "s = Uint64 sz" and
    "w = (o' + s + 31) div 32" and "nc = 3 * w + w * w div 512"
  have os: "unat o' = nat offset" "unat s = nat sz"
    using u64 by (simp_all add: o'_def s_def unat_Uint64)
  have small: "o' \<le> 0xffffffffe0" "s \<le> 0xffffffffe0"
    using big by (simp_all add: o'_def s_def not_less)
  note words = alloc_words [OF small, unfolded os, folded w_def]
  have lt: "(of_nat ?n :: uint64) < o' + s"
    using inv grow
    by (simp add: word_less_nat_alt words unat_of_nat64 mem_inv_def mem_limit_def)
  let ?c = "c\<lparr>lastGasCost := nc\<rparr>" and ?d = "nc - lastGasCost c"
  have eq: "allocateMemory c offset sz =
      (case consumeGas ?c ?d of (b, c) \<Rightarrow>
         if \<not> b then (False, vm_exit (Some ErrOutOfGas) c)
         else (True, c\<lparr>memory := ExtendByteSlice (memory c) (unat (w * 32))\<rparr>))"
    using u64 nz lt big
    by (simp add: allocateMemory_def Let_def w_def nc_def flip: o'_def s_def split: prod.split)
  have ge: "?n \<le> ?N" using grow by (simp add: mem_words_def)
  show thesis
  proof (cases rule: consumeGas_cases [of ?c ?d])
    case out
    then have "allocateMemory c offset sz = (False, vm_exit (Some ErrOutOfGas)
        (c\<lparr>lastGasCost := nc, currentConsumedGas := currentConsumedGas c + ?d\<rparr>))"
      unfolding eq by (simp add: vm_exit_def)
    then show thesis by (rule fail)
  next
    case enough: ok
    show thesis
    proof (rule ok [where l = nc and g = "currentConsumedGas c + ?d" and u = "gas c - ?d"])
      show "allocateMemory c offset sz =
          (True, c\<lparr>lastGasCost := nc, currentConsumedGas := currentConsumedGas c + ?d,
             gas := gas c - ?d, memory := memory c @ replicate (?N - ?n) 0\<rparr>)"
        using enough ge by (simp add: eq ExtendByteSlice_grow words)
      show "gas c - ?d \<le> gas c" using enough(1) by (simp add: word_sub_le)
      show "unat nc = Cmem (mem_words (nat offset + nat sz)) \<and>
          unat (gas c) = unat (gas c - ?d) + (unat nc - unat (lastGasCost c))" if "?N \<le> exact_limit"
        using alloc_charge [OF inv ge that, of w nc] enough(1) words(2) by (simp add: nc_def)
    qed (rule words)
  qed
qed

lemma allocateMemory_keep:
  assumes inv: "mem_inv c" and u64: "IsUint64 offset" "IsUint64 sz"
    and small: "sz = 0 \<or> \<not> 0xffffffffe0 < Uint64 offset \<and> \<not> 0xffffffffe0 < Uint64 sz"
    and fits: "sz = 0 \<or> \<not> length (memory c) < nat offset + nat sz"
  shows "allocateMemory c offset sz = (True, c)"
proof (cases "sz = 0")
  case False
  have cur: "unat (of_nat (length (memory c)) :: uint64) = length (memory c)"
    using inv by (intro unat_of_nat64) (simp add: mem_inv_def mem_limit_def)
  from False small have "Uint64 offset \<le> 0xffffffffe0" "Uint64 sz \<le> 0xffffffffe0" by auto
  from alloc_words(1) [OF this] u64 fits False
  have "\<not> (of_nat (length (memory c)) :: uint64) < Uint64 offset + Uint64 sz"
    by (simp add: word_less_nat_alt cur unat_Uint64)
  with False u64 small show ?thesis by (simp add: allocateMemory_def)
qed (use u64 in \<open>simp add: allocateMemory_def\<close>)

lemma allocateMemory_cases:
  assumes inv: "mem_inv c"
  obtains (fail) e g l where "allocateMemory c offset sz =
      (False, vm_exit (Some e) (c\<lparr>lastGasCost := l, currentConsumedGas := g\<rparr>))"
  | (ok) g l u z where "allocateMemory c offset sz =
      (True, c\<lparr>lastGasCost := l, currentConsumedGas := g, gas := u, memory := memory c @ replicate z 0\<rparr>)"
    and "IsUint64 offset" and "IsUint64 sz"
    and "length (memory c) + z = alloc_size (length (memory c)) offset sz"
    and "alloc_size (length (memory c)) offset sz \<le> mem_limit"
    and "32 dvd alloc_size (length (memory c)) offset sz"
    and "alloc_size (length (memory c)) offset sz \<le> exact_limit \<Longrightarrow>
      unat l = Cmem (alloc_size (length (memory c)) offset sz div 32) \<and>
      unat (gas c) = unat u + (unat l - unat (lastGasCost c))"
    and "u \<le> gas c"
proof -
  let ?n = "length (memory c)"
  consider (bounds) "\<not> (IsUint64 offset \<and> IsUint64 sz) \<or>
      sz \<noteq> 0 \<and> (0xffffffffe0 < Uint64 offset \<or> 0xffffffffe0 < Uint64 sz)"
    | (keep) "IsUint64 offset" "IsUint64 sz"
        "sz = 0 \<or> \<not> 0xffffffffe0 < Uint64 offset \<and> \<not> 0xffffffffe0 < Uint64 sz"
        "sz = 0 \<or> \<not> ?n < nat offset + nat sz"
    | (grow) "IsUint64 offset" "IsUint64 sz" "sz \<noteq> 0" "\<not> 0xffffffffe0 < Uint64 offset"
        "\<not> 0xffffffffe0 < Uint64 sz" "?n < nat offset + nat sz" by blast
  then show thesis
  proof cases
    case bounds
    then have "allocateMemory c offset sz = (False, vm_exit (Some errReturnDataOutOfBounds)
        (c\<lparr>lastGasCost := lastGasCost c, currentConsumedGas := currentConsumedGas c\<rparr>))"
      by (auto simp: allocateMemory_def Let_def)
    then show thesis by (rule fail)
  next
    case keep
    have size: "alloc_size ?n offset sz = ?n" using keep(4) by (auto simp: alloc_size_def)
    have "allocateMemory c offset sz = (True, c)"
      by (rule allocateMemory_keep [OF inv keep])
    with inv keep(1,2) show thesis
      by (intro ok [where z = 0 and l = "lastGasCost c" and g = "currentConsumedGas c" and u = "gas c"])
        (simp_all add: size mem_inv_def mod_eq_0_iff_dvd)
  next
    case grow
    then have size: "alloc_size ?n offset sz = 32 * mem_words (nat offset + nat sz)"
      by (simp add: alloc_size_def)
    show thesis
    proof (cases rule: allocateMemory_grow [OF inv grow])
      case (1 g l)
      then show thesis by (rule fail)
    next
      case (2 g l u)
      moreover have "?n + (32 * mem_words (nat offset + nat sz) - ?n) = alloc_size ?n offset sz"
        unfolding size using grow(6) by (intro le_add_diff_inverse) (simp add: mem_words_def)
      ultimately show thesis using grow(1,2)
        by (intro ok [where u = u and l = l]) (assumption | simp add: size)+
    qed
  qed
qed

lemma alloc_size_ge:
  "length m \<le> alloc_size (length m) offset sz"
  "sz \<noteq> 0 \<Longrightarrow> nat offset + nat sz \<le> alloc_size (length m) offset sz"
  by (auto simp: alloc_size_def mem_words_def)

text \<open>An access that was paid for once is free from then on.\<close>

lemma allocateMemory_again:
  assumes inv: "mem_inv c" and al: "allocateMemory c offset sz = (True, c')"
    and c'': "mem_inv c''" "length (memory c'') = length (memory c')"
  shows "allocateMemory c'' offset sz = (True, c'')"
proof -
  have small: "sz = 0 \<or> \<not> 0xffffffffe0 < Uint64 offset \<and> \<not> 0xffffffffe0 < Uint64 sz"
    using al by (auto simp: allocateMemory_def Let_def split: if_splits)
  show ?thesis
  proof (cases rule: allocateMemory_cases [OF inv, of offset sz])
    case (1 e g l)
    then show ?thesis using al by simp
  next
    case (2 g l u z)
    then have "length (memory c') = alloc_size (length (memory c)) offset sz" using al by auto
    then have "sz = 0 \<or> \<not> length (memory c'') < nat offset + nat sz"
      using alloc_size_ge(2) [of sz offset "memory c"] c''(2) by auto
    with 2(2,3) small show ?thesis by (intro allocateMemory_keep [OF c''(1)])
  qed
qed

end
