(* ===== verification/EVM_Arith.thy ===== *)
theory EVM_Arith
  imports EVM_State "HOL-Library.Signed_Division"
begin

text \<open>
  The arithmetic, comparison, bitwise and shift instructions
  (\<open>src/state/runtime/evm/instructions.go\<close>, \<open>opAdd\<close> to \<open>opSar\<close>).  Each
  definition works on stack cells as the code does, including the writes to
  popped (dead) cells.
\<close>

section \<open>Wrapping to and from 256-bit words\<close>

definition tt256 :: int where "tt256 = 2 ^ 256"
definition tt256m1 :: int where "tt256m1 = tt256 - 1"

definition toU256 :: "int \<Rightarrow> int" where
  "toU256 x = (if x < 0 \<or> 256 < BitLen x then x AND tt256m1 else x)"

definition to256 :: "int \<Rightarrow> int" where
  "to256 x = (if 255 < BitLen x then x - tt256 else x)"

section \<open>Arithmetic\<close>

definition opAdd :: "'h instruction" where
  "opAdd c = do {
     let (a, c) = stack_pop c;
     let b = stack_top c;
     av \<leftarrow> deref c a; bv \<leftarrow> deref c b;
     assign c b (toU256 (av + bv)) }"

definition opMul :: "'h instruction" where
  "opMul c = do {
     let (a, c) = stack_pop c;
     let b = stack_top c;
     av \<leftarrow> deref c a; bv \<leftarrow> deref c b;
     assign c b (toU256 (av * bv)) }"

definition opSub :: "'h instruction" where
  "opSub c = do {
     let (a, c) = stack_pop c;
     let b = stack_top c;
     av \<leftarrow> deref c a; bv \<leftarrow> deref c b;
     assign c b (toU256 (av - bv)) }"

definition opDiv :: "'h instruction" where
  "opDiv c = do {
     let (a, c) = stack_pop c;
     let b = stack_top c;
     av \<leftarrow> deref c a; bv \<leftarrow> deref c b;
     if bv = 0 then assign c b 0 else assign c b (toU256 (big_Div av bv)) }"

definition opSDiv :: "'h instruction" where
  "opSDiv c = do {
     let (a, c) = stack_pop c;
     av \<leftarrow> deref c a;
     let av = to256 av;
     c \<leftarrow> assign c a av;
     let b = stack_top c;
     bv \<leftarrow> deref c b;
     let bv = to256 bv;
     c \<leftarrow> assign c b bv;
     if bv = 0 then assign c b 0
     else do {
       let neg = (sgn av \<noteq> sgn bv);
       c \<leftarrow> assign c a \<bar>av\<bar>;
       let q = big_Div \<bar>av\<bar> \<bar>bv\<bar>;
       assign c b (toU256 (if neg then - q else q)) } }"

definition opMod :: "'h instruction" where
  "opMod c = do {
     let (a, c) = stack_pop c;
     let b = stack_top c;
     av \<leftarrow> deref c a; bv \<leftarrow> deref c b;
     if bv = 0 then assign c b 0 else assign c b (toU256 (big_Mod av bv)) }"

definition opSMod :: "'h instruction" where
  "opSMod c = do {
     let (a, c) = stack_pop c;
     av \<leftarrow> deref c a;
     let av = to256 av;
     c \<leftarrow> assign c a av;
     let b = stack_top c;
     bv \<leftarrow> deref c b;
     let bv = to256 bv;
     c \<leftarrow> assign c b bv;
     if bv = 0 then assign c b 0
     else do {
       let neg = (av < 0);
       c \<leftarrow> assign c a \<bar>av\<bar>;
       let r = big_Mod \<bar>av\<bar> \<bar>bv\<bar>;
       assign c b (toU256 (if neg then - r else r)) } }"

text \<open>
  \<open>opExp\<close>: square and multiply over the 64-bit words of the exponent, low word
  first, 64 rounds per word; the state is the pair of accumulator and base.
\<close>

fun exp_bits :: "nat \<Rightarrow> uint64 \<Rightarrow> int \<times> int \<Rightarrow> int \<times> int" where
  "exp_bits 0 d (z, x) = (z, x)"
| "exp_bits (Suc i) d (z, x) =
     exp_bits i (drop_bit 1 d) (if d AND 1 = 1 then toU256 (z * x) else z, toU256 (x * x))"

fun exp_words :: "uint64 list \<Rightarrow> int \<times> int \<Rightarrow> int \<times> int" where
  "exp_words [] zx = zx"
| "exp_words (d # ds) zx = exp_words ds (exp_bits 64 d zx)"

definition opExp :: "'h instruction" where
  "opExp c = do {
     let (x, c) = stack_pop c;
     let y = stack_top c;
     yv \<leftarrow> deref c y;
     let g = (if EIP158 (config c) then 50 else 10 :: uint64);
     let gasCost = of_nat ((BitLen yv + 7) div 8) * g;
     let (ok, c) = consumeGas c gasCost;
     if \<not> ok then Some c
     else do {
       xv \<leftarrow> deref c x;
       let (zv, xv) = exp_words (Bits yv) (1, xv);
       c \<leftarrow> assign c x xv;
       assign c y zv } }"

definition opAddMod :: "'h instruction" where
  "opAddMod c = do {
     let (a, c) = stack_pop c;
     let (b, c) = stack_pop c;
     let z = stack_top c;
     zv \<leftarrow> deref c z;
     if zv = 0 then assign c z 0
     else do {
       av \<leftarrow> deref c a; bv \<leftarrow> deref c b;
       c \<leftarrow> assign c a (av + bv);
       assign c z (toU256 (big_Mod (av + bv) zv)) } }"

definition opMulMod :: "'h instruction" where
  "opMulMod c = do {
     let (a, c) = stack_pop c;
     let (b, c) = stack_pop c;
     let z = stack_top c;
     zv \<leftarrow> deref c z;
     if zv = 0 then assign c z 0
     else do {
       av \<leftarrow> deref c a; bv \<leftarrow> deref c b;
       c \<leftarrow> assign c a (av * bv);
       assign c z (toU256 (big_Mod (av * bv) zv)) } }"

section \<open>Bitwise instructions\<close>

definition opAnd :: "'h instruction" where
  "opAnd c = do {
     let (a, c) = stack_pop c;
     let b = stack_top c;
     av \<leftarrow> deref c a; bv \<leftarrow> deref c b;
     assign c b (av AND bv) }"

definition opOr :: "'h instruction" where
  "opOr c = do {
     let (a, c) = stack_pop c;
     let b = stack_top c;
     av \<leftarrow> deref c a; bv \<leftarrow> deref c b;
     assign c b (av OR bv) }"

definition opXor :: "'h instruction" where
  "opXor c = do {
     let (a, c) = stack_pop c;
     let b = stack_top c;
     av \<leftarrow> deref c a; bv \<leftarrow> deref c b;
     assign c b (av XOR bv) }"

text \<open>\<open>(31 - indx) * 8\<close> is 64-bit signed arithmetic, converted to \<open>uint\<close>.\<close>

definition opByte :: "'h instruction" where
  "opByte c = do {
     let (x, c) = stack_pop c;
     let y = stack_top c;
     xv \<leftarrow> deref c x;
     let indx = Int64 xv;
     if 31 < indx then assign c y 0
     else do {
       let sh = (word_of_int ((31 - indx) * 8) :: uint64);
       yv \<leftarrow> deref c y;
       assign c y ((drop_bit (unat sh) yv) AND 255) } }"

definition opNot :: "'h instruction" where
  "opNot c = do {
     let a = stack_top c;
     av \<leftarrow> deref c a;
     assign c a (toU256 (NOT av)) }"

definition opIsZero :: "'h instruction" where
  "opIsZero c = do {
     let a = stack_top c;
     av \<leftarrow> deref c a;
     if av = 0 then assign c a 1 else assign c a 0 }"

section \<open>Comparisons\<close>

definition opEq :: "'h instruction" where
  "opEq c = do {
     let (a, c) = stack_pop c;
     let b = stack_top c;
     av \<leftarrow> deref c a; bv \<leftarrow> deref c b;
     if av = bv then assign c b 1 else assign c b 0 }"

definition opLt :: "'h instruction" where
  "opLt c = do {
     let (a, c) = stack_pop c;
     let b = stack_top c;
     av \<leftarrow> deref c a; bv \<leftarrow> deref c b;
     if av < bv then assign c b 1 else assign c b 0 }"

definition opGt :: "'h instruction" where
  "opGt c = do {
     let (a, c) = stack_pop c;
     let b = stack_top c;
     av \<leftarrow> deref c a; bv \<leftarrow> deref c b;
     if bv < av then assign c b 1 else assign c b 0 }"

definition opSlt :: "'h instruction" where
  "opSlt c = do {
     let (a, c) = stack_pop c;
     av \<leftarrow> deref c a;
     let av = to256 av;
     c \<leftarrow> assign c a av;
     let b = stack_top c;
     bv \<leftarrow> deref c b;
     let bv = to256 bv;
     c \<leftarrow> assign c b bv;
     if av < bv then assign c b 1 else assign c b 0 }"

definition opSgt :: "'h instruction" where
  "opSgt c = do {
     let (a, c) = stack_pop c;
     av \<leftarrow> deref c a;
     let av = to256 av;
     c \<leftarrow> assign c a av;
     let b = stack_top c;
     bv \<leftarrow> deref c b;
     let bv = to256 bv;
     c \<leftarrow> assign c b bv;
     if bv < av then assign c b 1 else assign c b 0 }"

text \<open>
  The word operand may be missing: the handler asks for one stack element only,
  and the code tests the pointer for nil.
\<close>

definition opSignExtension :: "'h instruction" where
  "opSignExtension c = do {
     let (ext, c) = stack_pop c;
     let x = stack_top c;
     extv \<leftarrow> deref c ext;
     if 32 < extv then Some c
     else if x = None then Some c
     else do {
       let bi = unat (Uint64 extv * 8 + 7);
       let mask = push_bit bi 1 - (1 :: int);
       xv \<leftarrow> deref c x;
       if bit xv bi then assign c x (toU256 (xv OR (NOT mask)))
       else assign c x (toU256 (xv AND mask)) } }"

section \<open>Shifts\<close>

definition equalOrOverflowsUint256 :: "int \<Rightarrow> bool" where
  "equalOrOverflowsUint256 b \<longleftrightarrow> 8 < BitLen b"

definition opShl :: "'h instruction" where
  "opShl c =
     (if \<not> Constantinople (config c) then Some (vm_exit (Some errOpCodeNotFound) c)
      else do {
        let (shift, c) = stack_pop c;
        let v = stack_top c;
        sv \<leftarrow> deref c shift;
        vv \<leftarrow> deref c v;
        if equalOrOverflowsUint256 sv then assign c v 0
        else assign c v (toU256 (push_bit (unat (Uint64 sv)) vv)) })"

definition opShr :: "'h instruction" where
  "opShr c =
     (if \<not> Constantinople (config c) then Some (vm_exit (Some errOpCodeNotFound) c)
      else do {
        let (shift, c) = stack_pop c;
        let v = stack_top c;
        sv \<leftarrow> deref c shift;
        vv \<leftarrow> deref c v;
        if equalOrOverflowsUint256 sv then assign c v 0
        else assign c v (toU256 (drop_bit (unat (Uint64 sv)) vv)) })"

definition opSar :: "'h instruction" where
  "opSar c =
     (if \<not> Constantinople (config c) then Some (vm_exit (Some errOpCodeNotFound) c)
      else do {
        let (shift, c) = stack_pop c;
        let v = stack_top c;
        vv \<leftarrow> deref c v;
        let vv = to256 vv;
        c \<leftarrow> assign c v vv;
        sv \<leftarrow> deref c shift;
        if equalOrOverflowsUint256 sv then
          (if 0 \<le> vv then assign c v 0 else assign c v tt256m1)
        else assign c v (toU256 (drop_bit (unat (Uint64 sv)) vv)) })"

end
