(* ===== verification/EVM_Instr.thy ===== *)
theory EVM_Instr
  imports EVM_Opcodes
begin

text \<open>
  The instructions that touch memory, storage, the context, the code and other
  contracts (\<open>src/state/runtime/evm/instructions.go\<close>, from \<open>opMload\<close> on).  Those
  that need the host or the hash function take the environment \<open>E\<close> as their first
  argument.
\<close>

section \<open>Memory\<close>

definition opMload :: "'h instruction" where
  "opMload c = do {
     let (offset, c) = stack_pop c;
     ov \<leftarrow> deref c offset;
     (bs, ok, c) \<leftarrow> get2 c [] ov 32;
     let c = c\<lparr>tmp := bs\<rparr>;
     if \<not> ok then Some c else stack_push c (SetBytes bs) }"

text \<open>
  \<open>opMStore\<close> writes the 64-bit words of the value, least significant first, from
  the end of the 32-byte slot towards its start, and fills the rest with zeros.  A
  value of more than 32 bytes would run past the start of the slot and panic.
\<close>

fun put_bytes :: "nat \<Rightarrow> uint64 \<Rightarrow> byte list \<times> nat \<Rightarrow> (byte list \<times> nat) go" where
  "put_bytes 0 d (buf, i) = Some (buf, i)"
| "put_bytes (Suc j) d (buf, i) =
     (if i = 0 then None else put_bytes j (drop_bit 8 d) (buf[i - 1 := ucast d], i - 1))"

fun put_words :: "uint64 list \<Rightarrow> byte list \<times> nat \<Rightarrow> (byte list \<times> nat) go" where
  "put_words [] bi = Some bi"
| "put_words (d # ds) bi = put_bytes 8 d bi \<bind> put_words ds"

fun zero_down :: "nat \<Rightarrow> byte list \<Rightarrow> byte list" where
  "zero_down 0 buf = buf"
| "zero_down (Suc i) buf = zero_down i (buf[i := 0])"

definition opMStore :: "'h instruction" where
  "opMStore c = do {
     let (offset, c) = stack_pop c;
     let (val, c) = stack_pop c;
     ov \<leftarrow> deref c offset;
     let (ok, c) = allocateMemory c ov 32;
     if \<not> ok then Some c
     else do {
       let o' = unat (Uint64 ov);
       buf \<leftarrow> go_slice (memory c) o' (o' + 32);
       vv \<leftarrow> deref c val;
       (buf, i) \<leftarrow> put_words (Bits vv) (buf, 32);
       Some (c\<lparr>memory := take o' (memory c) @ zero_down i buf @ drop (o' + 32) (memory c)\<rparr>) } }"

definition opMStore8 :: "'h instruction" where
  "opMStore8 c = do {
     let (offset, c) = stack_pop c;
     let (val, c) = stack_pop c;
     ov \<leftarrow> deref c offset;
     let (ok, c) = allocateMemory c ov 1;
     if \<not> ok then Some c
     else do {
       vv \<leftarrow> deref c val;
       let o' = unat (Uint64 ov);
       if o' < length (memory c)
       then Some (c\<lparr>memory := (memory c)[o' := ucast (Uint64 vv AND 0xff)]\<rparr>) else None } }"

section \<open>Storage and hashing\<close>

definition opSload :: "'h Env \<Rightarrow> 'h instruction" where
  "opSload E c = do {
     let loc = stack_top c;
     let g = (if Istanbul (config c) then 800 else if EIP150 (config c) then 200 else 50 :: uint64);
     let (ok, c) = consumeGas c g;
     if \<not> ok then Some c
     else do {
       lv \<leftarrow> deref c loc;
       let val = GetStorage E (host c) (Address (msg c)) (bigToHash lv);
       assign c loc (SetBytes (Hash_Bytes val)) } }"

definition sstore_cost :: "ForksInTime \<Rightarrow> StorageStatus \<Rightarrow> uint64" where
  "sstore_cost f status =
     (let legacyGasMetering = (\<not> Istanbul f \<and> (Petersburg f \<or> \<not> Constantinople f));
          reset = (if Istanbul f then 800 else if legacyGasMetering then 5000 else 200)
      in case status of
           StorageUnchanged \<Rightarrow> reset
         | StorageModified \<Rightarrow> 5000
         | StorageModifiedAgain \<Rightarrow> reset
         | StorageAdded \<Rightarrow> 20000
         | StorageDeleted \<Rightarrow> 5000)"

definition opSStore :: "'h Env \<Rightarrow> 'h instruction" where
  "opSStore E c =
     (if inStaticCall c then Some (vm_exit (Some errWriteProtection) c)
      else if Istanbul (config c) \<and> gas c \<le> 2300 then Some (vm_exit (Some ErrOutOfGas) c)
      else do {
        (key, c) \<leftarrow> popHash c;
        (val, c) \<leftarrow> popHash c;
        let (status, h) = SetStorage E (host c) (Address (msg c)) key val (config c);
        let c = c\<lparr>host := h\<rparr>;
        let (ok, c) = consumeGas c (sstore_cost (config c) status);
        Some c })"

definition sha3WordGas :: uint64 where "sha3WordGas = 6"

definition opSha3 :: "'h Env \<Rightarrow> 'h instruction" where
  "opSha3 E c = do {
     let (offset, c) = stack_pop c;
     let (len, c) = stack_pop c;
     ov \<leftarrow> deref c offset; lv \<leftarrow> deref c len;
     (bs, ok, c) \<leftarrow> get2 c [] ov lv;
     let c = c\<lparr>tmp := bs\<rparr>;
     if \<not> ok then Some c
     else do {
       let sz = Uint64 lv;
       let (ok, c) = consumeGas c ((sz + 31) div 32 * sha3WordGas);
       if \<not> ok then Some c
       else do {
         let c = c\<lparr>tmp := Keccak256 E (tmp c)\<rparr>;
         stack_push c (SetBytes (tmp c)) } } }"

definition opPop :: "'h instruction" where
  "opPop c = (let (p, c) = stack_pop c in Some c)"

section \<open>The context of the call\<close>

definition opAddress :: "'h instruction" where
  "opAddress c = stack_push c (SetBytes (Address_Bytes (Address (msg c))))"

definition opBalance :: "'h Env \<Rightarrow> 'h instruction" where
  "opBalance E c = do {
     (addr, _, c) \<leftarrow> popAddr c;
     let g = (if Istanbul (config c) then 700 else if EIP150 (config c) then 400 else 20 :: uint64);
     let (ok, c) = consumeGas c g;
     if \<not> ok then Some c else stack_push c (GetBalance E (host c) addr) }"

definition opSelfBalance :: "'h Env \<Rightarrow> 'h instruction" where
  "opSelfBalance E c =
     (if \<not> Istanbul (config c) then Some (vm_exit (Some errOpCodeNotFound) c)
      else stack_push c (GetBalance E (host c) (Address (msg c))))"

definition opChainID :: "'h Env \<Rightarrow> 'h instruction" where
  "opChainID E c =
     (if \<not> Istanbul (config c) then Some (vm_exit (Some errOpCodeNotFound) c)
      else stack_push c (uint (word_of_int (ChainID (GetTxContext E (host c))) :: uint64)))"

definition opOrigin :: "'h Env \<Rightarrow> 'h instruction" where
  "opOrigin E c = stack_push c (SetBytes (Address_Bytes (CtxOrigin (GetTxContext E (host c)))))"

definition opCaller :: "'h instruction" where
  "opCaller c = stack_push c (SetBytes (Address_Bytes (Caller (msg c))))"

definition opCallValue :: "'h instruction" where
  "opCallValue c = stack_push c (case Value (msg c) of Some v \<Rightarrow> v | None \<Rightarrow> 0)"

text \<open>
  \<open>setBytes\<close> overwrites the first \<open>sz\<close> bytes of \<open>dst\<close> with the input from
  \<open>dataOffset\<close> on, padding with zeros.  \<open>zero_range\<close> is its clearing loop: it panics
  when the range does not fit.
\<close>

definition zero_range :: "byte list \<Rightarrow> nat \<Rightarrow> nat \<Rightarrow> byte list go" where
  "zero_range dst from n =
     (if from + n \<le> length dst then Some (take from dst @ replicate n 0 @ drop (from + n) dst)
      else None)"

definition setBytes :: "byte list \<Rightarrow> byte list \<Rightarrow> uint64 \<Rightarrow> int \<Rightarrow> byte list go" where
  "setBytes dst input sz dataOffset =
     (if \<not> IsUint64 dataOffset then zero_range dst 0 (unat sz)
      else do {
        let inputSize = (of_nat (length input) :: uint64);
        let begin' = min (Uint64 dataOffset) inputSize;
        let copySize = min sz (inputSize - begin');
        dst \<leftarrow> (if 0 < copySize
           then do {
             src \<leftarrow> go_slice input (unat begin') (unat (begin' + copySize));
             Some (copy_at dst 0 src) }
           else Some dst);
        if 0 < sz - copySize then zero_range dst (unat copySize) (unat (sz - copySize))
        else Some dst })"

definition opCallDataLoad :: "'h instruction" where
  "opCallDataLoad c = do {
     let offset = stack_top c;
     ov \<leftarrow> deref c offset;
     buf \<leftarrow> setBytes (replicate 32 0) (Input (msg c)) 32 ov;
     assign c offset (SetBytes buf) }"

definition opCallDataSize :: "'h instruction" where
  "opCallDataSize c = stack_push c (uint (of_nat (length (Input (msg c))) :: uint64))"

definition opCodeSize :: "'h instruction" where
  "opCodeSize c = stack_push c (uint (of_nat (length (code c)) :: uint64))"

definition opExtCodeSize :: "'h Env \<Rightarrow> 'h instruction" where
  "opExtCodeSize E c = do {
     (addr, _, c) \<leftarrow> popAddr c;
     let g = (if EIP150 (config c) then 700 else 20 :: uint64);
     let (ok, c) = consumeGas c g;
     if \<not> ok then Some c
     else do {
       let (n, h) = GetCodeSize E (host c) addr;
       let c = c\<lparr>host := h\<rparr>;
       stack_push c (uint (of_nat n :: uint64)) } }"

definition opGasPrice :: "'h Env \<Rightarrow> 'h instruction" where
  "opGasPrice E c = stack_push c (SetBytes (Hash_Bytes (CtxGasPrice (GetTxContext E (host c)))))"

definition opReturnDataSize :: "'h instruction" where
  "opReturnDataSize c =
     (if \<not> Byzantium (config c) then Some (vm_exit (Some errOpCodeNotFound) c)
      else stack_push c (uint (of_nat (length (returnData c)) :: uint64)))"

definition opExtCodeHash :: "'h Env \<Rightarrow> 'h instruction" where
  "opExtCodeHash E c =
     (if \<not> Constantinople (config c) then Some (vm_exit (Some errOpCodeNotFound) c)
      else do {
        (addr, _, c) \<leftarrow> popAddr c;
        let g = (if Istanbul (config c) then 700 else 400 :: uint64);
        let (ok, c) = consumeGas c g;
        if \<not> ok then Some c
        else if AccountEmpty E (host c) addr then stack_push c 0
        else stack_push c (SetBytes (Hash_Bytes (GetCodeHash E (host c) addr))) })"

definition opPC :: "'h instruction" where
  "opPC c = stack_push c (uint (word_of_int (ip c) :: uint64))"

definition opMSize :: "'h instruction" where
  "opMSize c = stack_push c (uint (of_nat (length (memory c)) :: uint64))"

definition opGas :: "'h instruction" where
  "opGas c = stack_push c (uint (gas c))"

section \<open>Copying into memory\<close>

definition copyGas :: uint64 where "copyGas = 3"

text \<open>\<open>c.setBytes(c.memory[o:], input, size, offset)\<close>: the tail of the memory is written in place.\<close>

definition set_memory :: "'h vm \<Rightarrow> uint64 \<Rightarrow> byte list \<Rightarrow> uint64 \<Rightarrow> int \<Rightarrow> 'h vm go" where
  "set_memory c o' input sz dataOffset = do {
     dst \<leftarrow> go_slice (memory c) (unat o') (length (memory c));
     dst \<leftarrow> setBytes dst input sz dataOffset;
     Some (c\<lparr>memory := take (unat o') (memory c) @ dst\<rparr>) }"

definition opExtCodeCopy :: "'h Env \<Rightarrow> 'h instruction" where
  "opExtCodeCopy E c = do {
     (addr, _, c) \<leftarrow> popAddr c;
     let (memOffset, c) = stack_pop c;
     let (codeOffset, c) = stack_pop c;
     let (len, c) = stack_pop c;
     mv \<leftarrow> deref c memOffset; cv \<leftarrow> deref c codeOffset; lv \<leftarrow> deref c len;
     let (ok, c) = allocateMemory c mv lv;
     if \<not> ok then Some c
     else do {
       let sz = Uint64 lv;
       let (ok, c) = consumeGas c ((sz + 31) div 32 * copyGas);
       if \<not> ok then Some c
       else do {
         let (ok, c) = consumeGas c (if EIP150 (config c) then 700 else 20);
         if \<not> ok then Some c
         else do {
           let (cd, h) = GetCode E (host c) addr;
           let c = c\<lparr>host := h\<rparr>;
           if sz \<noteq> 0 then set_memory c (Uint64 mv) cd sz cv else Some c } } } }"

definition opCallDataCopy :: "'h instruction" where
  "opCallDataCopy c = do {
     let (memOffset, c) = stack_pop c;
     let (dataOffset, c) = stack_pop c;
     let (len, c) = stack_pop c;
     mv \<leftarrow> deref c memOffset; dv \<leftarrow> deref c dataOffset; lv \<leftarrow> deref c len;
     let (ok, c) = allocateMemory c mv lv;
     if \<not> ok then Some c
     else do {
       let sz = Uint64 lv;
       let (ok, c) = consumeGas c ((sz + 31) div 32 * copyGas);
       if \<not> ok then Some c
       else if sz \<noteq> 0 then set_memory c (Uint64 mv) (Input (msg c)) sz dv else Some c } }"

definition opReturnDataCopy :: "'h instruction" where
  "opReturnDataCopy c =
     (if \<not> Byzantium (config c) then Some (vm_exit (Some errOpCodeNotFound) c)
      else do {
        let (memOffset, c) = stack_pop c;
        let (dataOffset, c) = stack_pop c;
        let (len, c) = stack_pop c;
        mv \<leftarrow> deref c memOffset; dv \<leftarrow> deref c dataOffset; lv \<leftarrow> deref c len;
        if \<not> IsUint64 dv then Some (vm_exit (Some errReturnDataOutOfBounds) c)
        else if lv = 0 then Some c
        else do {
          let (ok, c) = allocateMemory c mv lv;
          if \<not> ok then Some c
          else do {
            let ulength = Uint64 lv;
            let (ok, c) = consumeGas c ((ulength + 31) div 32 * copyGas);
            if \<not> ok then Some c
            else do {
              let dataEnd = dv + lv;
              c \<leftarrow> assign c len dataEnd;
              if \<not> IsUint64 dataEnd then Some (vm_exit (Some errReturnDataOutOfBounds) c)
              else if of_nat (length (returnData c)) < Uint64 dataEnd
              then Some (vm_exit (Some errReturnDataOutOfBounds) c)
              else do {
                dat \<leftarrow> go_slice (returnData c) (unat (Uint64 dv)) (unat (Uint64 dataEnd));
                let o' = Uint64 mv;
                dst \<leftarrow> go_slice (memory c) (unat o') (unat (o' + ulength));
                Some (c\<lparr>memory := take (unat o') (memory c) @ copy_at dst 0 dat @
                       drop (unat (o' + ulength)) (memory c)\<rparr>) } } } } })"

definition opCodeCopy :: "'h instruction" where
  "opCodeCopy c = do {
     let (memOffset, c) = stack_pop c;
     let (dataOffset, c) = stack_pop c;
     let (len, c) = stack_pop c;
     mv \<leftarrow> deref c memOffset; dv \<leftarrow> deref c dataOffset; lv \<leftarrow> deref c len;
     let (ok, c) = allocateMemory c mv lv;
     if \<not> ok then Some c
     else do {
       let sz = Uint64 lv;
       let (ok, c) = consumeGas c ((sz + 31) div 32 * copyGas);
       if \<not> ok then Some c
       else if sz \<noteq> 0 then set_memory c (Uint64 mv) (code c) sz dv else Some c } }"

section \<open>Block information\<close>

definition opBlockHash :: "'h Env \<Rightarrow> 'h instruction" where
  "opBlockHash E c = do {
     let num = stack_top c;
     nv \<leftarrow> deref c num;
     if \<not> IsInt64 nv then assign c num 0
     else
       let n = Int64 nv; lastBlock = Number (GetTxContext E (host c))
       in if wrap_int64 (lastBlock - 257) < n \<and> n < lastBlock
          then assign c num (SetBytes (Hash_Bytes (GetBlockHash E (host c) n)))
          else assign c num 0 }"

definition opCoinbase :: "'h Env \<Rightarrow> 'h instruction" where
  "opCoinbase E c = stack_push c (SetBytes (Address_Bytes (Coinbase (GetTxContext E (host c)))))"

definition opTimestamp :: "'h Env \<Rightarrow> 'h instruction" where
  "opTimestamp E c = stack_push c (Timestamp (GetTxContext E (host c)))"

definition opNumber :: "'h Env \<Rightarrow> 'h instruction" where
  "opNumber E c = stack_push c (Number (GetTxContext E (host c)))"

definition opDifficulty :: "'h Env \<Rightarrow> 'h instruction" where
  "opDifficulty E c = stack_push c (SetBytes (Hash_Bytes (Difficulty (GetTxContext E (host c)))))"

definition opGasLimit :: "'h Env \<Rightarrow> 'h instruction" where
  "opGasLimit E c = stack_push c (GasLimit (GetTxContext E (host c)))"

text \<open>A missing base fee is a nil pointer that \<open>push\<close> dereferences.\<close>

definition opBaseFee :: "'h Env \<Rightarrow> 'h instruction" where
  "opBaseFee E c =
     (if \<not> London (config c) then Some (vm_exit (Some errOpCodeNotFound) c)
      else do {
        v \<leftarrow> BaseFee (GetTxContext E (host c));
        stack_push c v })"

definition opSelfDestruct :: "'h Env \<Rightarrow> 'h instruction" where
  "opSelfDestruct E c =
     (if inStaticCall c then Some (vm_exit (Some errWriteProtection) c)
      else do {
        (addr, _, c) \<leftarrow> popAddr c;
        let g = (if EIP150 (config c)
                 then 5000 + (if EIP158 (config c)
                              then (if AccountEmpty E (host c) addr \<and>
                                       GetBalance E (host c) (Address (msg c)) \<noteq> 0
                                    then 25000 else 0)
                              else if \<not> AccountExists E (host c) addr then 25000 else 0)
                 else 0);
        let (ok, c) = consumeGas c g;
        if \<not> ok then Some c
        else Some (Halt (c\<lparr>host := Selfdestruct E (host c) (Address (msg c)) addr\<rparr>)) })"

end
