(* ===== verification/EVM_Calls.thy ===== *)
theory EVM_Calls
  imports EVM_Instr
begin

text \<open>
  Jumps, the stack and log families, contract creation, message calls and halting
  (\<open>src/state/runtime/evm/instructions.go\<close>, from \<open>opJump\<close> on).
\<close>

section \<open>Jumps\<close>

text \<open>The destination minus one, as a Go int: the loop increments it.\<close>

definition jump_to :: "'h vm \<Rightarrow> int \<Rightarrow> 'h vm go" where
  "jump_to c dest = do {
     ok \<leftarrow> validJumpdest c dest;
     Some (if ok then c\<lparr>ip := sint (Uint64 dest - 1)\<rparr> else vm_exit (Some errInvalidJump) c) }"

definition opJump :: "'h instruction" where
  "opJump c = do {
     let (dest, c) = stack_pop c;
     dv \<leftarrow> deref c dest;
     jump_to c dv }"

definition opJumpi :: "'h instruction" where
  "opJumpi c = do {
     let (dest, c) = stack_pop c;
     let (cond, c) = stack_pop c;
     dv \<leftarrow> deref c dest; cv \<leftarrow> deref c cond;
     if cv \<noteq> 0 then jump_to c dv else Some c }"

definition opJumpDest :: "'h instruction" where
  "opJumpDest c = Some c"

section \<open>The PUSH, DUP, SWAP and LOG families\<close>

definition opPush :: "nat \<Rightarrow> 'h instruction" where
  "opPush n c = do {
     let ins = code c;
     let i = nat (ip c);
     let (v, c) = push1 c;
     bs \<leftarrow> (if length ins < i + 1 + n
        then do { rest \<leftarrow> go_slice ins (i + 1) (length ins); Some (rest @ replicate n 0) }
        else go_slice ins (i + 1) (i + 1 + n));
     c \<leftarrow> assign c v (SetBytes bs);
     Some (c\<lparr>ip := ip c + int n\<rparr>) }"

definition opDup :: "nat \<Rightarrow> 'h instruction" where
  "opDup n c =
     (if \<not> stackAtLeast c n
      then Some (vm_exit (Some (StackUnderflowError (int (sp c)) (int n))) c)
      else do {
        val \<leftarrow> peekAt c n;
        let (p, c) = push1 c;
        v \<leftarrow> deref c val;
        assign c p v })"

definition opSwap :: "nat \<Rightarrow> 'h instruction" where
  "opSwap n c =
     (if \<not> stackAtLeast c (n + 1)
      then Some (vm_exit (Some (StackUnderflowError (int (sp c)) (int (n + 1)))) c)
      else stack_swap c n)"

fun pop_topics :: "nat \<Rightarrow> 'h vm \<Rightarrow> (hash list \<times> 'h vm) go" where
  "pop_topics 0 c = Some ([], c)"
| "pop_topics (Suc n) c = do {
     let (p, c) = stack_pop c;
     v \<leftarrow> deref c p;
     (ts, c) \<leftarrow> pop_topics n c;
     Some (bigToHash v # ts, c) }"

text \<open>The factory gets the position in the range, counted from one.\<close>

definition opLog :: "'h Env \<Rightarrow> nat \<Rightarrow> 'h instruction" where
  "opLog E n c =
     (let sz = n - 1 in
      if inStaticCall c then Some (vm_exit (Some errWriteProtection) c)
      else if \<not> stackAtLeast c (2 + sz)
      then Some (vm_exit (Some (StackUnderflowError (int (sp c)) (int (2 + sz)))) c)
      else do {
        let (mStart, c) = stack_pop c;
        let (mSize, c) = stack_pop c;
        (topics, c) \<leftarrow> pop_topics sz c;
        sv \<leftarrow> deref c mStart; lv \<leftarrow> deref c mSize;
        (bs, ok, c) \<leftarrow> get2 c [] sv lv;
        let c = c\<lparr>tmp := bs\<rparr>;
        if \<not> ok then Some c
        else do {
          let c = c\<lparr>host := EmitLog E (host c) (Address (msg c)) topics (tmp c)\<rparr>;
          let (ok, c) = consumeGas c (of_nat sz * 375);
          if \<not> ok then Some c
          else do {
            let (ok, c) = consumeGas c (Uint64 lv * 8);
            Some c } } })"

definition opStop :: "'h instruction" where
  "opStop c = Some (Halt c)"

section \<open>Contract creation\<close>

text \<open>
  The Go functions return a contract pointer and an error.  \<open>Built\<close> is a contract
  without error, \<open>Build_stop\<close> is \<open>nil, nil\<close> (the machine has already exited) and
  \<open>Build_error\<close> is an error with the contract, if any, whose gas is given back.
\<close>

datatype 'a build = Built 'a | Build_stop | Build_error "Contract option" error

definition buildCreateContract :: "'h Env \<Rightarrow> byte \<Rightarrow> 'h vm \<Rightarrow> (Contract build \<times> 'h vm) go" where
  "buildCreateContract E op c = do {
     let (val, c) = stack_pop c;
     let (offset, c) = stack_pop c;
     let (len, c) = stack_pop c;
     let (salt, c) = (if op = OP_CREATE2 then stack_pop c else (None, c));
     vv \<leftarrow> deref c val; ov \<leftarrow> deref c offset; lv \<leftarrow> deref c len;
     let hasTransfer = (vv \<noteq> 0);
     (input, ok, c) \<leftarrow> get2 c [] ov lv;
     if \<not> ok then Some (Build_stop, c)
     else do {
       let (ok, c) = consumeGas c 0;
       if \<not> ok then Some (Build_stop, c)
       else if hasTransfer \<and> GetBalance E (host c) (Address (msg c)) < vv
       then Some (Build_error None ErrInsufficientFunds, c)
       else do {
         let (ok, c) = (if op = OP_CREATE2
                        then consumeGas c ((Uint64 lv + 31) div 32 * sha3WordGas) else (True, c));
         if \<not> ok then Some (Build_stop, c)
         else do {
           let g = gas c;
           let g = (if EIP150 (config c) \<or> op = OP_CREATE2 then g - g div 64 else g);
           let (ok, c) = consumeGas c g;
           if \<not> ok then Some (Build_stop, c)
           else do {
             addr \<leftarrow> (if op = OP_CREATE
                then Some (CreateAddress (Keccak256 E) (RlpAddrNonce E) (Address (msg c))
                             (GetNonce E (host c) (Address (msg c))))
                else do {
                  sv \<leftarrow> deref c salt;
                  Some (CreateAddress2 (Keccak256 E) (Address (msg c)) (bigToHash sv) input) });
             Some (Built (NewContractCreation (Depth (msg c) + 1) (Origin (msg c)) (Address (msg c))
                            addr (Some vv) g input), c) } } } } }"

text \<open>\<open>opCreate\<close> after the contract was built.\<close>

definition finish_create :: "'h Env \<Rightarrow> byte \<Rightarrow> Contract build \<Rightarrow> 'h instruction" where
  "finish_create E op b c =
     (case b of
        Build_error ct e \<Rightarrow> do {
          c \<leftarrow> stack_push c 0;
          Some (case ct of Some k \<Rightarrow> c\<lparr>gas := gas c + Gas k\<rparr> | None \<Rightarrow> c) }
      | Build_stop \<Rightarrow> Some c
      | Built contract \<Rightarrow> do {
          let contract = contract\<lparr>Type := Create\<rparr>;
          (result, h) \<leftarrow> Callx E (host c) contract;
          let c = c\<lparr>host := h\<rparr>;
          let storeOOG = (Err result = Some ErrCodeStoreOutOfGas);
          c \<leftarrow> stack_push c
            (if op = OP_CREATE \<and> Homestead (config c) \<and> storeOOG then 0
             else if op = OP_CREATE \<and> Failed result \<and> \<not> storeOOG then 0
             else if op = OP_CREATE2 \<and> Failed result then 0
             else SetBytes (Address_Bytes (Address contract)));
          let c = c\<lparr>gas := gas c + GasLeft result\<rparr>;
          Some (if Reverted result then c\<lparr>returnData := ReturnValue result\<rparr> else c) })"

definition opCreate :: "'h Env \<Rightarrow> byte \<Rightarrow> 'h instruction" where
  "opCreate E op c =
     (if inStaticCall c then Some (vm_exit (Some errWriteProtection) c)
      else if op = OP_CREATE2 \<and> \<not> Constantinople (config c)
      then Some (vm_exit (Some errOpCodeNotFound) c)
      else do {
        (b, c) \<leftarrow> buildCreateContract E op (resetReturnData c);
        finish_create E op b c })"

section \<open>Message calls\<close>

text \<open>\<open>transfersValue\<close>, and the price of a call without the gas it forwards.\<close>

definition transfers_value :: "byte \<Rightarrow> int option \<Rightarrow> bool" where
  "transfers_value op v \<longleftrightarrow>
     (op = OP_CALL \<or> op = OP_CALLCODE) \<and> (case v of Some x \<Rightarrow> x \<noteq> 0 | None \<Rightarrow> False)"

definition call_base_cost :: "'h Env \<Rightarrow> byte \<Rightarrow> 'h vm \<Rightarrow> address \<Rightarrow> bool \<Rightarrow> uint64" where
  "call_base_cost E op c addr transfersValue =
     (if EIP150 (config c) then 700 else 40) +
     (if op = OP_CALL
      then (if EIP158 (config c)
            then (if transfersValue \<and> AccountEmpty E (host c) addr then 25000 else 0)
            else if \<not> AccountExists E (host c) addr then 25000 else 0)
      else 0) +
     (if transfersValue then 9000 else 0)"

text \<open>
  The gas a call forwards: from EIP-150 on at most all but one 64th of what is
  left, before it exactly what was asked.  \<open>None\<close> is a request that does not fit in
  64 bits before EIP-150.
\<close>

definition call_gas :: "ForksInTime \<Rightarrow> uint64 \<Rightarrow> uint64 \<Rightarrow> int \<Rightarrow> uint64 option" where
  "call_gas f available gasCost initialGas =
     (let ok = IsUint64 initialGas in
      if EIP150 f then
        let availableGas = available - gasCost;
            availableGas = availableGas - availableGas div 64
        in Some (if \<not> ok \<or> availableGas < Uint64 initialGas then availableGas else Uint64 initialGas)
      else if \<not> ok then None
      else Some (Uint64 initialGas))"

definition call_contract ::
  "byte \<Rightarrow> Contract \<Rightarrow> address \<Rightarrow> int option \<Rightarrow> uint64 \<Rightarrow> byte list \<Rightarrow> byte list \<Rightarrow> Contract" where
  "call_contract op parent addr val g cd args =
     (let contract = NewContractCall (Depth parent + 1) (Origin parent) (Address parent) addr val g cd args;
          contract = (if op = OP_STATICCALL \<or> Static parent then contract\<lparr>Static := True\<rparr> else contract)
      in if op = OP_CALLCODE \<or> op = OP_DELEGATECALL then
           let contract = contract\<lparr>Address := Address parent\<rparr>
           in if op = OP_DELEGATECALL
              then contract\<lparr>Value := Value parent, Caller := Caller parent\<rparr> else contract
         else contract)"

text \<open>\<open>buildCallContract\<close> once the operands are read and the memory is allocated.\<close>

definition charge_call ::
  "'h Env \<Rightarrow> byte \<Rightarrow> address \<Rightarrow> int option \<Rightarrow> int \<Rightarrow> byte list \<Rightarrow> uint64 \<Rightarrow> uint64 \<Rightarrow> 'h vm \<Rightarrow>
   (Contract \<times> uint64 \<times> uint64) build \<times> 'h vm" where
  "charge_call E op addr val initialGas args retOffset retSize c =
     (let transfersValue = transfers_value op val;
          gasCost = call_base_cost E op c addr transfersValue
      in case call_gas (config c) (gas c) gasCost initialGas of
           None \<Rightarrow> (Build_stop, vm_exit (Some ErrOutOfGas) c)
         | Some g \<Rightarrow>
             let (total, isOverflow) = SafeAddUint64 gasCost g in
             if isOverflow then (Build_stop, vm_exit (Some errGasUintOverflow) c)
             else
               let (ok, c) = consumeGas c total in
               if \<not> ok then (Build_stop, c)
               else
                 let g = (if transfersValue then g + 2300 else g);
                     (cd, h) = GetCode E (host c) addr;
                     c = c\<lparr>host := h\<rparr>;
                     contract = call_contract op (msg c) addr val g cd args
                 in if transfersValue \<and> GetBalance E (host c) (Address (msg c)) < the val
                    then (Build_error (Some contract) ErrInsufficientFunds, c)
                    else (Built (contract, retOffset, retSize), c))"

definition buildCallContract ::
  "'h Env \<Rightarrow> byte \<Rightarrow> 'h vm \<Rightarrow> ((Contract \<times> uint64 \<times> uint64) build \<times> 'h vm) go" where
  "buildCallContract E op c = do {
     let (initialGas, c) = stack_pop c;
     (addr, _, c) \<leftarrow> popAddr c;
     let (val, c) = (if op = OP_CALL \<or> op = OP_CALLCODE then stack_pop c else (None, c));
     let (inOffset, c) = stack_pop c;
     let (inSize, c) = stack_pop c;
     let (retOffset, c) = stack_pop c;
     let (retSize, c) = stack_pop c;
     iov \<leftarrow> deref c inOffset; isv \<leftarrow> deref c inSize;
     (args, ok, c) \<leftarrow> get2 c [] iov isv;
     if \<not> ok then Some (Build_stop, c)
     else do {
       rov \<leftarrow> deref c retOffset; rsv \<leftarrow> deref c retSize;
       let (ok, c) = allocateMemory c rov rsv;
       if \<not> ok then Some (Build_stop, c)
       else do {
         vv \<leftarrow> (case val of None \<Rightarrow> Some None | Some p \<Rightarrow> do { x \<leftarrow> deref c val; Some (Some x) });
         ig \<leftarrow> deref c initialGas;
         Some (charge_call E op addr vv ig args (Uint64 rov) (Uint64 rsv) c) } } }"

definition call_type :: "byte \<Rightarrow> CallType go" where
  "call_type op =
     (if op = OP_CALL then Some Call
      else if op = OP_CALLCODE then Some CallCode
      else if op = OP_DELEGATECALL then Some DelegateCall
      else if op = OP_STATICCALL then Some StaticCall
      else None)"

text \<open>\<open>copy(c.memory[offset:offset+size], data)\<close>.\<close>

definition copy_memory :: "'h vm \<Rightarrow> uint64 \<Rightarrow> uint64 \<Rightarrow> byte list \<Rightarrow> 'h vm go" where
  "copy_memory c offset sz bs = do {
     dst \<leftarrow> go_slice (memory c) (unat offset) (unat (offset + sz));
     Some (c\<lparr>memory := take (unat offset) (memory c) @ copy_at dst 0 bs @
            drop (unat (offset + sz)) (memory c)\<rparr>) }"

text \<open>\<open>opCall\<close> after the contract was built.\<close>

definition finish_call ::
  "'h Env \<Rightarrow> CallType \<Rightarrow> (Contract \<times> uint64 \<times> uint64) build \<Rightarrow> 'h instruction" where
  "finish_call E callType b c =
     (case b of
        Build_error ct e \<Rightarrow> do {
          c \<leftarrow> stack_push c 0;
          Some (case ct of Some k \<Rightarrow> c\<lparr>gas := gas c + Gas k\<rparr> | None \<Rightarrow> c) }
      | Build_stop \<Rightarrow> Some c
      | Built (contract, offset, sz) \<Rightarrow> do {
          (result, h) \<leftarrow> Callx E (host c) (contract\<lparr>Type := callType\<rparr>);
          let c = c\<lparr>host := h\<rparr>;
          c \<leftarrow> stack_push c (if Succeeded result then 1 else 0);
          c \<leftarrow> (if (Succeeded result \<or> Reverted result) \<and> ReturnValue result \<noteq> [] \<and> 0 < sz
               then copy_memory c offset sz (ReturnValue result) else Some c);
          Some (c\<lparr>gas := gas c + GasLeft result, returnData := ReturnValue result\<rparr>) })"

definition opCall :: "'h Env \<Rightarrow> byte \<Rightarrow> 'h instruction" where
  "opCall E op c0 = do {
     let c = resetReturnData c0;
     protected \<leftarrow> (if op = OP_CALL \<and> inStaticCall c
        then do { p \<leftarrow> peekAt c 3; v \<leftarrow> deref c p; Some (0 < BitLen v) } else Some False);
     if protected then Some (vm_exit (Some errWriteProtection) c)
     else if op = OP_DELEGATECALL \<and> \<not> Homestead (config c)
     then Some (vm_exit (Some errOpCodeNotFound) c)
     else if op = OP_STATICCALL \<and> \<not> Byzantium (config c)
     then Some (vm_exit (Some errOpCodeNotFound) c)
     else do {
       callType \<leftarrow> call_type op;
       (b, c) \<leftarrow> buildCallContract E op c;
       finish_call E callType b c } }"

section \<open>Halting\<close>

definition opHalt :: "byte \<Rightarrow> 'h instruction" where
  "opHalt op c =
     (if op = OP_REVERT \<and> \<not> Byzantium (config c) then Some (vm_exit (Some errOpCodeNotFound) c)
      else do {
        let (offset, c) = stack_pop c;
        let (sz, c) = stack_pop c;
        ov \<leftarrow> deref c offset; sv \<leftarrow> deref c sz;
        (bs, ok, c) \<leftarrow> get2 c [] ov sv;
        let c = c\<lparr>ret := bs\<rparr>;
        if \<not> ok then Some c
        else Some (if op = OP_REVERT then vm_exit (Some ErrExecutionReverted) c else Halt c) })"

end
