(* ===== verification/EVM_Run.thy ===== *)
theory EVM_Run
  imports EVM_Arith EVM_Calls
begin

text \<open>
  The dispatch table (\<open>src/state/runtime/evm/dispatch_table.go\<close>), the interpreter
  loop (\<open>state.Run\<close> in \<open>state.go\<close>) and the runtime's entry point
  (\<open>src/state/runtime/evm/evm.go\<close>).
\<close>

section \<open>The dispatch table\<close>

record 'h handler =
  inst :: "'h instruction"
  stack_req :: nat
  gas_req :: uint64

type_synonym 'h table = "byte \<rightharpoonup> 'h handler"

text \<open>Registering an opcode twice panics.\<close>

definition register :: "byte \<Rightarrow> 'h handler \<Rightarrow> 'h table \<Rightarrow> 'h table go" where
  "register op h t = (if t op \<noteq> None then None else Some (t(op \<mapsto> h)))"

fun registerAll :: "(byte \<times> 'h handler) list \<Rightarrow> 'h table \<Rightarrow> 'h table go" where
  "registerAll [] t = Some t"
| "registerAll ((op, h) # es) t = register op h t \<bind> registerAll es"

fun range_entries ::
  "nat \<Rightarrow> byte \<Rightarrow> (nat \<Rightarrow> 'h instruction) \<Rightarrow> uint64 \<Rightarrow> nat \<Rightarrow> (byte \<times> 'h handler) list" where
  "range_entries 0 i factory g c = []"
| "range_entries (Suc n) i factory g c =
     (i, \<lparr>inst = factory c, stack_req = 0, gas_req = g\<rparr>) # range_entries n (i + 1) factory g (Suc c)"

definition registerRange ::
  "byte \<Rightarrow> byte \<Rightarrow> (nat \<Rightarrow> 'h instruction) \<Rightarrow> uint64 \<Rightarrow> (byte \<times> 'h handler) list" where
  "registerRange from to factory g = range_entries (unat to + 1 - unat from) from factory g 1"

text \<open>The registrations of \<open>init\<close>, in its order.\<close>

definition dispatch_init :: "'h Env \<Rightarrow> (byte \<times> 'h handler) list" where
  "dispatch_init E =
    [(OP_STOP, \<lparr>inst = opStop, stack_req = 0, gas_req = 0\<rparr>),
     (OP_ADD, \<lparr>inst = opAdd, stack_req = 2, gas_req = 3\<rparr>),
     (OP_SUB, \<lparr>inst = opSub, stack_req = 2, gas_req = 3\<rparr>),
     (OP_MUL, \<lparr>inst = opMul, stack_req = 2, gas_req = 5\<rparr>),
     (OP_DIV, \<lparr>inst = opDiv, stack_req = 2, gas_req = 5\<rparr>),
     (OP_SDIV, \<lparr>inst = opSDiv, stack_req = 2, gas_req = 5\<rparr>),
     (OP_MOD, \<lparr>inst = opMod, stack_req = 2, gas_req = 5\<rparr>),
     (OP_SMOD, \<lparr>inst = opSMod, stack_req = 2, gas_req = 5\<rparr>),
     (OP_EXP, \<lparr>inst = opExp, stack_req = 2, gas_req = 10\<rparr>)] @
    registerRange OP_PUSH1 OP_PUSH32 opPush 3 @
    registerRange OP_DUP1 OP_DUP16 opDup 3 @
    registerRange OP_SWAP1 OP_SWAP16 opSwap 3 @
    registerRange OP_LOG0 OP_LOG4 (opLog E) 375 @
    [(OP_ADDMOD, \<lparr>inst = opAddMod, stack_req = 3, gas_req = 8\<rparr>),
     (OP_MULMOD, \<lparr>inst = opMulMod, stack_req = 3, gas_req = 8\<rparr>),
     (OP_AND, \<lparr>inst = opAnd, stack_req = 2, gas_req = 3\<rparr>),
     (OP_OR, \<lparr>inst = opOr, stack_req = 2, gas_req = 3\<rparr>),
     (OP_XOR, \<lparr>inst = opXor, stack_req = 2, gas_req = 3\<rparr>),
     (OP_BYTE, \<lparr>inst = opByte, stack_req = 2, gas_req = 3\<rparr>),
     (OP_NOT, \<lparr>inst = opNot, stack_req = 1, gas_req = 3\<rparr>),
     (OP_ISZERO, \<lparr>inst = opIsZero, stack_req = 1, gas_req = 3\<rparr>),
     (OP_EQ, \<lparr>inst = opEq, stack_req = 2, gas_req = 3\<rparr>),
     (OP_LT, \<lparr>inst = opLt, stack_req = 2, gas_req = 3\<rparr>),
     (OP_GT, \<lparr>inst = opGt, stack_req = 2, gas_req = 3\<rparr>),
     (OP_SLT, \<lparr>inst = opSlt, stack_req = 2, gas_req = 3\<rparr>),
     (OP_SGT, \<lparr>inst = opSgt, stack_req = 2, gas_req = 3\<rparr>),
     (OP_SIGNEXTEND, \<lparr>inst = opSignExtension, stack_req = 1, gas_req = 5\<rparr>),
     (OP_SHL, \<lparr>inst = opShl, stack_req = 2, gas_req = 3\<rparr>),
     (OP_SHR, \<lparr>inst = opShr, stack_req = 2, gas_req = 3\<rparr>),
     (OP_SAR, \<lparr>inst = opSar, stack_req = 2, gas_req = 3\<rparr>),
     (OP_CREATE, \<lparr>inst = (opCreate E OP_CREATE), stack_req = 3, gas_req = 32000\<rparr>),
     (OP_CREATE2, \<lparr>inst = (opCreate E OP_CREATE2), stack_req = 4, gas_req = 32000\<rparr>),
     (OP_CALL, \<lparr>inst = (opCall E OP_CALL), stack_req = 7, gas_req = 0\<rparr>),
     (OP_CALLCODE, \<lparr>inst = (opCall E OP_CALLCODE), stack_req = 7, gas_req = 0\<rparr>),
     (OP_DELEGATECALL, \<lparr>inst = (opCall E OP_DELEGATECALL), stack_req = 6, gas_req = 0\<rparr>),
     (OP_STATICCALL, \<lparr>inst = (opCall E OP_STATICCALL), stack_req = 6, gas_req = 0\<rparr>),
     (OP_REVERT, \<lparr>inst = (opHalt OP_REVERT), stack_req = 2, gas_req = 0\<rparr>),
     (OP_RETURN, \<lparr>inst = (opHalt OP_RETURN), stack_req = 2, gas_req = 0\<rparr>),
     (OP_MLOAD, \<lparr>inst = opMload, stack_req = 1, gas_req = 3\<rparr>),
     (OP_MSTORE, \<lparr>inst = opMStore, stack_req = 2, gas_req = 3\<rparr>),
     (OP_MSTORE8, \<lparr>inst = opMStore8, stack_req = 2, gas_req = 3\<rparr>),
     (OP_SLOAD, \<lparr>inst = (opSload E), stack_req = 1, gas_req = 0\<rparr>),
     (OP_SSTORE, \<lparr>inst = (opSStore E), stack_req = 2, gas_req = 0\<rparr>),
     (OP_SHA3, \<lparr>inst = (opSha3 E), stack_req = 2, gas_req = 30\<rparr>),
     (OP_POP, \<lparr>inst = opPop, stack_req = 1, gas_req = 2\<rparr>),
     (OP_EXTCODEHASH, \<lparr>inst = (opExtCodeHash E), stack_req = 1, gas_req = 0\<rparr>),
     (OP_ADDRESS, \<lparr>inst = opAddress, stack_req = 0, gas_req = 2\<rparr>),
     (OP_BALANCE, \<lparr>inst = (opBalance E), stack_req = 1, gas_req = 0\<rparr>),
     (OP_SELFBALANCE, \<lparr>inst = (opSelfBalance E), stack_req = 0, gas_req = 5\<rparr>),
     (OP_ORIGIN, \<lparr>inst = (opOrigin E), stack_req = 0, gas_req = 2\<rparr>),
     (OP_CALLER, \<lparr>inst = opCaller, stack_req = 0, gas_req = 2\<rparr>),
     (OP_CALLVALUE, \<lparr>inst = opCallValue, stack_req = 0, gas_req = 2\<rparr>),
     (OP_CALLDATALOAD, \<lparr>inst = opCallDataLoad, stack_req = 1, gas_req = 3\<rparr>),
     (OP_CALLDATASIZE, \<lparr>inst = opCallDataSize, stack_req = 0, gas_req = 2\<rparr>),
     (OP_CODESIZE, \<lparr>inst = opCodeSize, stack_req = 0, gas_req = 2\<rparr>),
     (OP_EXTCODESIZE, \<lparr>inst = (opExtCodeSize E), stack_req = 1, gas_req = 0\<rparr>),
     (OP_GASPRICE, \<lparr>inst = (opGasPrice E), stack_req = 0, gas_req = 2\<rparr>),
     (OP_RETURNDATASIZE, \<lparr>inst = opReturnDataSize, stack_req = 0, gas_req = 2\<rparr>),
     (OP_CHAINID, \<lparr>inst = (opChainID E), stack_req = 0, gas_req = 2\<rparr>),
     (OP_PC, \<lparr>inst = opPC, stack_req = 0, gas_req = 2\<rparr>),
     (OP_MSIZE, \<lparr>inst = opMSize, stack_req = 0, gas_req = 2\<rparr>),
     (OP_GAS, \<lparr>inst = opGas, stack_req = 0, gas_req = 2\<rparr>),
     (OP_EXTCODECOPY, \<lparr>inst = (opExtCodeCopy E), stack_req = 4, gas_req = 0\<rparr>),
     (OP_CALLDATACOPY, \<lparr>inst = opCallDataCopy, stack_req = 3, gas_req = 3\<rparr>),
     (OP_RETURNDATACOPY, \<lparr>inst = opReturnDataCopy, stack_req = 3, gas_req = 3\<rparr>),
     (OP_CODECOPY, \<lparr>inst = opCodeCopy, stack_req = 3, gas_req = 3\<rparr>),
     (OP_BLOCKHASH, \<lparr>inst = (opBlockHash E), stack_req = 1, gas_req = 20\<rparr>),
     (OP_COINBASE, \<lparr>inst = (opCoinbase E), stack_req = 0, gas_req = 2\<rparr>),
     (OP_TIMESTAMP, \<lparr>inst = (opTimestamp E), stack_req = 0, gas_req = 2\<rparr>),
     (OP_NUMBER, \<lparr>inst = (opNumber E), stack_req = 0, gas_req = 2\<rparr>),
     (OP_DIFFICULTY, \<lparr>inst = (opDifficulty E), stack_req = 0, gas_req = 2\<rparr>),
     (OP_GASLIMIT, \<lparr>inst = (opGasLimit E), stack_req = 0, gas_req = 2\<rparr>),
     (OP_BASEFEE, \<lparr>inst = (opBaseFee E), stack_req = 0, gas_req = 2\<rparr>),
     (OP_SELFDESTRUCT, \<lparr>inst = (opSelfDestruct E), stack_req = 1, gas_req = 0\<rparr>),
     (OP_JUMP, \<lparr>inst = opJump, stack_req = 1, gas_req = 8\<rparr>),
     (OP_JUMPI, \<lparr>inst = opJumpi, stack_req = 2, gas_req = 10\<rparr>),
     (OP_JUMPDEST, \<lparr>inst = opJumpDest, stack_req = 0, gas_req = 1\<rparr>)]"

definition dispatchTable :: "'h Env \<Rightarrow> 'h table" where
  "dispatchTable E = map_of (dispatch_init E)"

section \<open>The interpreter loop\<close>

text \<open>
  One iteration of the loop of \<open>Run\<close>.  The flag is \<open>False\<close> where the loop breaks.
\<close>

definition run_step :: "'h Env \<Rightarrow> 'h vm \<Rightarrow> ('h vm \<times> bool) go" where
  "run_step E c = do {
     (op, ok) \<leftarrow> CurrentOpCode c;
     if \<not> ok then Some (Halt c, False)
     else case dispatchTable E op of
       None \<Rightarrow> Some (vm_exit (Some errOpCodeNotFound) c, False)
     | Some i \<Rightarrow>
         if sp c < stack_req i
         then Some (vm_exit (Some (StackUnderflowError (int (sp c)) (int (stack_req i)))) c, False)
         else do {
           let (ok, c) = consumeGas c (gas_req i);
           if \<not> ok then Some (vm_exit (Some ErrOutOfGas) c, False)
           else do {
             c \<leftarrow> inst i c;
             if stackSize < sp c
             then Some (vm_exit (Some (StackOverflowError (int (sp c)) (int stackSize))) c, False)
             else Some (c\<lparr>ip := ip c + 1\<rparr>, True) } } }"

text \<open>\<open>n\<close> bounds the number of iterations; running out of it is \<open>None\<close>.\<close>

fun run_loop :: "'h Env \<Rightarrow> nat \<Rightarrow> 'h vm \<Rightarrow> 'h vm go" where
  "run_loop E 0 c = (if stop c then Some c else None)"
| "run_loop E (Suc n) c =
     (if stop c then Some c
      else do { (c, continue) \<leftarrow> run_step E c; if continue then run_loop E n c else Some c })"

definition state_Run :: "'h Env \<Rightarrow> nat \<Rightarrow> 'h vm \<Rightarrow> (byte list \<times> error option \<times> 'h vm) go" where
  "state_Run E n c = do { c \<leftarrow> run_loop E n c; Some (ret c, err c, c) }"

section \<open>The runtime\<close>

text \<open>
  \<open>st\<close> is the state the pool hands out: some machine that was \<open>reset\<close> before it was
  put back.  The fuel is the contract's gas plus one, which is enough for every
  run.  The host after the run is returned with the result.
\<close>

definition EVM_Run ::
  "'h Env \<Rightarrow> 'h vm \<Rightarrow> Contract \<Rightarrow> 'h \<Rightarrow> ForksInTime \<Rightarrow> (ExecutionResult \<times> 'h) go" where
  "EVM_Run E st ct h f = do {
     let c = resetReturnData st;
     let c = c\<lparr>msg := ct, code := Code ct, gas := Gas ct, host := h, config := f\<rparr>;
     b \<leftarrow> bm_setCode (bitmap c) (Code ct);
     let c = c\<lparr>bitmap := b\<rparr>;
     (r, e, c) \<leftarrow> state_Run E (unat (Gas ct) + 1) c;
     let gasLeft = (if e \<noteq> None \<and> e \<noteq> Some ErrExecutionReverted then 0 else gas c);
     Some (no_result\<lparr>ReturnValue := r, GasLeft := gasLeft, GasUsed := Gas ct - gasLeft, Err := e\<rparr>,
           host c) }"

definition EVM_CanRun :: "Contract \<Rightarrow> ForksInTime \<Rightarrow> bool" where
  "EVM_CanRun ct f = True"

end
