(* ===== verification/EVM_Arith_Spec.thy ===== *)
theory EVM_Arith_Spec
  imports EVM_Arith
begin

text \<open>
  What the arithmetic instructions compute.  The abstract machine has a stack of
  256-bit words; the abstraction reads the live cells of the recycled stack, top
  first.  One locale per instruction shape (two operands, one operand, three
  operands) states the contract between an instruction's effect on cells and the
  word operation it implements; every instruction is an interpretation.
\<close>


definition in_range :: "int \<Rightarrow> bool" where
  "in_range x \<longleftrightarrow> 0 \<le> x \<and> x < 2 ^ 256"

abbreviation wd :: "int \<Rightarrow> 256 word" where "wd \<equiv> word_of_int"

lemma toU256_mod: "toU256 x = x mod 2 ^ 256"
proof (cases "x < 0 \<or> 256 < BitLen x")
  case True
  have "tt256m1 = mask 256" by (simp add: tt256m1_def tt256_def mask_eq_exp_minus_1)
  then have "x AND tt256m1 = take_bit 256 x" by (simp only: take_bit_eq_mask)
  with True show ?thesis by (simp add: toU256_def take_bit_eq_mod)
next
  case False
  then have "0 \<le> x" "x < 2 ^ 256" using BitLen_le_iff [of x 256] by auto
  with False show ?thesis by (simp add: toU256_def)
qed

lemma toU256_uint: "toU256 x = uint (wd x)"
  by (simp add: toU256_mod uint_word_of_int)

lemma in_range_uint [simp]: "in_range (uint (w :: 256 word))"
  using uint_bounded [of w] by (simp add: in_range_def)

lemma in_range_W: "in_range x \<Longrightarrow> uint (wd x) = x"
  by (simp add: in_range_def uint_word_of_int)

lemma in_range_01 [simp]: "in_range 0" "in_range 1"
  by (simp_all add: in_range_def)

lemma in_rangeE:
  assumes "in_range x"
  obtains w :: "256 word" where "x = uint w"
  using in_range_W [OF assms] by metis

lemma in_range_toU256 [simp]: "in_range (toU256 x)"
  by (simp add: toU256_uint)

lemma W_toU256 [simp]: "wd (toU256 x) = wd x"
  by (simp add: toU256_uint)

lemma to256_sint: "in_range x \<Longrightarrow> to256 x = sint (wd x)"
proof -
  assume r: "in_range x"
  have "255 < BitLen x \<longleftrightarrow> 2 ^ 255 \<le> x" using r by (simp add: BitLen_gt_iff in_range_def)
  moreover have "sint (wd x) = (if x < 2 ^ 255 then x else x - 2 ^ 256)"
  proof -
    have "sint (wd x) = signed_take_bit 255 x" by (simp add: sint_sbintrunc')
    also have "\<dots> = (x + 2 ^ 255) mod 2 ^ 256 - 2 ^ 255"
      by (simp add: signed_take_bit_eq_take_bit_shift take_bit_eq_mod)
    also have "\<dots> = (if x < 2 ^ 255 then x else x - 2 ^ 256)"
    proof (cases "x < 2 ^ 255")
      case True
      then show ?thesis using r by (simp add: in_range_def)
    next
      case False
      then have "(x + 2 ^ 255) mod 2 ^ 256 = x + 2 ^ 255 - 2 ^ 256"
        using r by (intro int_mod_pos_eq [where q = 1]) (simp_all add: in_range_def)
      with False show ?thesis by simp
    qed
    finally show ?thesis .
  qed
  ultimately show ?thesis by (simp add: to256_def tt256_def)
qed


section \<open>The abstract stack\<close>

definition stk_ok :: "'h vm \<Rightarrow> bool" where
  "stk_ok c \<longleftrightarrow> sp c \<le> length (stack c) \<and> (\<forall>x \<in> set (take (sp c) (stack c)). in_range x)"

definition astack :: "'h vm \<Rightarrow> 256 word list" where
  "astack c = map wd (rev (take (sp c) (stack c)))"

text \<open>\<open>stk c s hi\<close>: the live cells hold \<open>s\<close>, top first, and \<open>hi\<close> are dead.\<close>

definition stk :: "'h vm \<Rightarrow> int list \<Rightarrow> int list \<Rightarrow> bool" where
  "stk c s hi \<longleftrightarrow> stack c = rev s @ hi \<and> sp c = length s"

lemma stkI: "stack c = rev s @ hi \<Longrightarrow> sp c = length s \<Longrightarrow> stk c s hi"
  by (simp add: stk_def)

lemma stk_abs:
  assumes "stk c s hi"
  shows "astack c = map wd s" and "stk_ok c \<longleftrightarrow> (\<forall>x \<in> set s. in_range x)" and "sp c = length s"
  using assms by (simp_all add: stk_def astack_def stk_ok_def)

lemma stk_exists: "sp c \<le> length (stack c) \<Longrightarrow> \<exists>s hi. stk c s hi"
  by (intro exI [of _ "rev (take (sp c) (stack c))"] exI [of _ "drop (sp c) (stack c)"])
    (simp add: stk_def)

lemma stk_okE:
  assumes "stk_ok c"
  obtains s hi where "stk c s hi" and "\<forall>x \<in> set s. in_range x" and "astack c = map wd s"
    and "sp c = length s"
  using assms stk_exists [of c] stk_abs by (metis stk_ok_def)

lemma stk_ok1E:
  assumes "stk_ok c" and "Suc 0 \<le> sp c"
  obtains s a hi where "stack c = rev s @ a # hi" and "sp c = Suc (length s)"
    and "in_range a" and "\<forall>x \<in> set s. in_range x" and "astack c = wd a # map wd s"
proof -
  obtain s0 hi where *: "stk c s0 hi" "\<forall>x \<in> set s0. in_range x" "astack c = map wd s0" "sp c = length s0"
    using assms(1) by (rule stk_okE)
  with assms(2) obtain a s where "s0 = a # s" by (cases s0) auto
  with * that show thesis by (simp add: stk_def)
qed

lemma stk_ok2E:
  assumes "stk_ok c" and "2 \<le> sp c"
  obtains s a b hi where "stack c = rev s @ b # a # hi" and "sp c = Suc (Suc (length s))"
    and "in_range a" and "in_range b" and "\<forall>x \<in> set s. in_range x"
    and "astack c = wd a # wd b # map wd s"
proof -
  obtain s0 hi where *: "stk c s0 hi" "\<forall>x \<in> set s0. in_range x" "astack c = map wd s0" "sp c = length s0"
    using assms(1) by (rule stk_okE)
  with assms(2) obtain a b s where "s0 = a # b # s" by (cases s0; cases "tl s0") auto
  with * that show thesis by (simp add: stk_def)
qed

lemma stk_ok3E:
  assumes "stk_ok c" and "3 \<le> sp c"
  obtains s a b z hi where "stack c = rev s @ z # b # a # hi" and "sp c = Suc (Suc (Suc (length s)))"
    and "in_range a" and "in_range b" and "in_range z" and "\<forall>x \<in> set s. in_range x"
    and "astack c = wd a # wd b # wd z # map wd s"
proof -
  obtain s0 hi where *: "stk c s0 hi" "\<forall>x \<in> set s0. in_range x" "astack c = map wd s0" "sp c = length s0"
    using assms(1) by (rule stk_okE)
  with assms(2) obtain a b z s where "s0 = a # b # z # s"
    by (cases s0; cases "tl s0"; cases "tl (tl s0)") auto
  with * that show thesis by (simp add: stk_def)
qed

text \<open>The result of an instruction that leaves the live cells \<open>s\<close>.\<close>

lemma stk_update:
  "stk_ok (c\<lparr>stack := rev s @ hi, sp := length s\<rparr>) \<longleftrightarrow> (\<forall>x \<in> set s. in_range x)"
  "astack (c\<lparr>stack := rev s @ hi, sp := length s\<rparr>) = map wd s"
  by (simp_all add: stk_ok_def astack_def)

lemma stk_update1:
  "stk_ok (c\<lparr>stack := rev s @ v # hi, sp := Suc (length s)\<rparr>) \<longleftrightarrow>
     in_range v \<and> (\<forall>x \<in> set s. in_range x)"
  "astack (c\<lparr>stack := rev s @ v # hi, sp := Suc (length s)\<rparr>) = wd v # map wd s"
  using stk_update [where s = "v # s"] by simp_all

definition same_but_stack :: "'h vm \<Rightarrow> 'h vm \<Rightarrow> bool" where
  "same_but_stack c c' \<longleftrightarrow> c' = c\<lparr>stack := stack c', sp := sp c'\<rparr>"

lemma same_but_stackI [simp]: "same_but_stack c (c\<lparr>stack := x, sp := n\<rparr>)"
  by (simp add: same_but_stack_def)

lemma same_but_stackI1 [simp]: "same_but_stack c (c\<lparr>stack := x\<rparr>)"
  by (simp add: same_but_stack_def)

definition refines_op2 ::
  "('h vm \<Rightarrow> bool) \<Rightarrow> 'h instruction \<Rightarrow> (256 word \<Rightarrow> 256 word \<Rightarrow> 256 word) \<Rightarrow> bool" where
  "refines_op2 P f h \<longleftrightarrow>
     (\<forall>c x y ws. P c \<longrightarrow> stk_ok c \<longrightarrow> astack c = x # y # ws \<longrightarrow>
        (\<exists>c'. f c = Some c' \<and> astack c' = h x y # ws \<and> stk_ok c' \<and> same_but_stack c c'))"

definition refines_op1 ::
  "('h vm \<Rightarrow> bool) \<Rightarrow> 'h instruction \<Rightarrow> (256 word \<Rightarrow> 256 word) \<Rightarrow> bool" where
  "refines_op1 P f h \<longleftrightarrow>
     (\<forall>c x ws. P c \<longrightarrow> stk_ok c \<longrightarrow> astack c = x # ws \<longrightarrow>
        (\<exists>c'. f c = Some c' \<and> astack c' = h x # ws \<and> stk_ok c' \<and> same_but_stack c c'))"

definition refines_op3 ::
  "('h vm \<Rightarrow> bool) \<Rightarrow> 'h instruction \<Rightarrow> (256 word \<Rightarrow> 256 word \<Rightarrow> 256 word \<Rightarrow> 256 word) \<Rightarrow> bool" where
  "refines_op3 P f h \<longleftrightarrow>
     (\<forall>c x y z ws. P c \<longrightarrow> stk_ok c \<longrightarrow> astack c = x # y # z # ws \<longrightarrow>
        (\<exists>c'. f c = Some c' \<and> astack c' = h x y z # ws \<and> stk_ok c' \<and> same_but_stack c c'))"

lemma length_astack: "stk_ok c \<Longrightarrow> length (astack c) = sp c"
  by (simp add: astack_def stk_ok_def)

section \<open>Instructions with two operands\<close>

locale stack_op2 =
  fixes enabled :: "'h vm \<Rightarrow> bool" and instr :: "'h instruction"
    and val dead :: "int \<Rightarrow> int \<Rightarrow> int"
  assumes effect: "enabled c \<Longrightarrow> stack c = rev s @ b # a # hi \<Longrightarrow> sp c = Suc (Suc (length s)) \<Longrightarrow>
      instr c = Some (c\<lparr>stack := rev s @ val a b # dead a b # hi, sp := Suc (length s)\<rparr>)"
    and range: "in_range a \<Longrightarrow> in_range b \<Longrightarrow> in_range (val a b)"
begin

lemma run_cells:
  assumes "enabled c" and "stk_ok c" and "2 \<le> sp c"
  obtains c' s a b where "instr c = Some c'" and "stk_ok c'" and "same_but_stack c c'"
    and "in_range a" and "in_range b"
    and "astack c = wd a # wd b # map wd s" and "astack c' = wd (val a b) # map wd s"
proof -
  obtain s a b hi where *: "stack c = rev s @ b # a # hi" "sp c = Suc (Suc (length s))"
      "in_range a" "in_range b" "\<forall>x \<in> set s. in_range x" "astack c = wd a # wd b # map wd s"
    using assms(2,3) by (rule stk_ok2E)
  show thesis
    by (rule that [OF effect [OF assms(1) *(1,2)], of a b])
      (use * range [OF *(3,4)] in \<open>simp_all add: stk_update1\<close>)
qed

lemma keeps:
  assumes "enabled c" and "stk_ok c" and "2 \<le> sp c"
  shows "\<exists>c'. instr c = Some c' \<and> stk_ok c' \<and> same_but_stack c c'"
  using assms run_cells by metis

end

locale stack_binop = stack_op2 enabled instr val dead
  for enabled :: "'h vm \<Rightarrow> bool" and instr :: "'h instruction" and val dead :: "int \<Rightarrow> int \<Rightarrow> int" +
  fixes wop :: "256 word \<Rightarrow> 256 word \<Rightarrow> 256 word"
  assumes word: "in_range a \<Longrightarrow> in_range b \<Longrightarrow> wd (val a b) = wop (wd a) (wd b)"
begin

lemma refines: "refines_op2 enabled instr wop"
  unfolding refines_op2_def
proof (intro allI impI)
  fix c x y ws
  assume en: "enabled c" and ok: "stk_ok c" and st: "astack c = x # y # ws"
  have "2 \<le> sp c" using length_astack [OF ok] st by simp
  with en ok st show "\<exists>c'. instr c = Some c' \<and> astack c' = wop x y # ws \<and> stk_ok c' \<and> same_but_stack c c'"
    by (metis run_cells word list.inject)
qed

end

lemma to256_uint [simp]: "to256 (uint (w :: 256 word)) = sint w"
  by (simp add: to256_sint)

lemma int_unat: "int (unat (w :: 256 word)) = uint w"
  by simp

lemma uint_pos_iff: "0 < uint (w :: 256 word) \<longleftrightarrow> w \<noteq> 0"
  using uint_ge_0 [of w] by (auto simp: less_le uint_0_iff)

lemma sint_eq_0_iff: "sint (w :: 256 word) = 0 \<longleftrightarrow> w = 0"
  using signed_word_eqI [of w 0] by auto

lemmas binop_simps = stack_simps Let_def

interpretation add: stack_binop "\<lambda>_. True" opAdd "\<lambda>a b. toU256 (a + b)" "\<lambda>a b. a" "(+)"
  by unfold_locales (simp_all add: opAdd_def binop_simps)

interpretation mul: stack_binop "\<lambda>_. True" opMul "\<lambda>a b. toU256 (a * b)" "\<lambda>a b. a" "(*)"
  by unfold_locales (simp_all add: opMul_def binop_simps)

interpretation sub: stack_binop "\<lambda>_. True" opSub "\<lambda>a b. toU256 (a - b)" "\<lambda>a b. a" "(-)"
  by unfold_locales (simp_all add: opSub_def binop_simps)


interpretation div: stack_binop "\<lambda>_. True" opDiv
    "\<lambda>a b. if b = 0 then 0 else toU256 (big_Div a b)" "\<lambda>a b. a" "(div)"
  by unfold_locales
    (auto elim!: in_rangeE simp: opDiv_def binop_simps big_Div_def uint_0_iff uint_pos_iff word_div_def)

interpretation sdiv: stack_binop "\<lambda>_. True" opSDiv
    "\<lambda>a b. if to256 b = 0 then 0 else
       toU256 (if sgn (to256 a) \<noteq> sgn (to256 b) then - big_Div \<bar>to256 a\<bar> \<bar>to256 b\<bar>
               else big_Div \<bar>to256 a\<bar> \<bar>to256 b\<bar>)"
    "\<lambda>a b. if to256 b = 0 then to256 a else \<bar>to256 a\<bar>"
    "\<lambda>x y. wd (sint x sdiv sint y)"
proof (unfold_locales, goal_cases)
  case 1
  then show ?case by (simp add: opSDiv_def binop_simps)
next
  case 2
  then show ?case by simp
next
  case (3 a b)
  then show ?case
    by (elim in_rangeE) (auto simp: big_Div_def signed_divide_int_def sgn_if)
qed

interpretation modi: stack_binop "\<lambda>_. True" opMod
    "\<lambda>a b. if b = 0 then 0 else toU256 (big_Mod a b)" "\<lambda>a b. a" "\<lambda>x y. if y = 0 then 0 else x mod y"
  by unfold_locales
    (auto elim!: in_rangeE simp: opMod_def binop_simps big_Mod_def uint_0_iff word_mod_def)

interpretation smod: stack_binop "\<lambda>_. True" opSMod
    "\<lambda>a b. if to256 b = 0 then 0 else
       toU256 (if to256 a < 0 then - big_Mod \<bar>to256 a\<bar> \<bar>to256 b\<bar> else big_Mod \<bar>to256 a\<bar> \<bar>to256 b\<bar>)"
    "\<lambda>a b. if to256 b = 0 then to256 a else \<bar>to256 a\<bar>"
    "\<lambda>x y. if y = 0 then 0 else wd (sint x smod sint y)"
proof (unfold_locales, goal_cases)
  case 1
  then show ?case by (simp add: opSMod_def binop_simps)
next
  case 2
  then show ?case by simp
next
  case (3 a b)
  then show ?case
    by (elim in_rangeE) (auto simp: big_Mod_def signed_modulo_int_def sgn_if sint_eq_0_iff)
qed

interpretation andi: stack_binop "\<lambda>_. True" opAnd "(AND)" "\<lambda>a b. a" "(AND)"
  by unfold_locales
    (auto elim!: in_rangeE simp: opAnd_def binop_simps simp flip: unsigned_and_eq)

interpretation ori: stack_binop "\<lambda>_. True" opOr "(OR)" "\<lambda>a b. a" "(OR)"
  by unfold_locales
    (auto elim!: in_rangeE simp: opOr_def binop_simps simp flip: unsigned_or_eq)

interpretation xori: stack_binop "\<lambda>_. True" opXor "(XOR)" "\<lambda>a b. a" "(XOR)"
  by unfold_locales
    (auto elim!: in_rangeE simp: opXor_def binop_simps simp flip: unsigned_xor_eq)

interpretation eqi: stack_binop "\<lambda>_. True" opEq
    "\<lambda>a b. if a = b then 1 else 0" "\<lambda>a b. a" "\<lambda>x y. if x = y then 1 else 0"
  by unfold_locales (auto elim!: in_rangeE simp: opEq_def binop_simps)

interpretation lt: stack_binop "\<lambda>_. True" opLt
    "\<lambda>a b. if a < b then 1 else 0" "\<lambda>a b. a" "\<lambda>x y. if x < y then 1 else 0"
  by unfold_locales (auto elim!: in_rangeE simp: opLt_def binop_simps word_less_def)

interpretation gt: stack_binop "\<lambda>_. True" opGt
    "\<lambda>a b. if b < a then 1 else 0" "\<lambda>a b. a" "\<lambda>x y. if y < x then 1 else 0"
  by unfold_locales (auto elim!: in_rangeE simp: opGt_def binop_simps word_less_def)

interpretation slt: stack_binop "\<lambda>_. True" opSlt
    "\<lambda>a b. if to256 a < to256 b then 1 else 0" "\<lambda>a b. to256 a"
    "\<lambda>x y. if sint x < sint y then 1 else 0"
  by unfold_locales (auto elim!: in_rangeE simp: opSlt_def binop_simps)

interpretation sgt: stack_binop "\<lambda>_. True" opSgt
    "\<lambda>a b. if to256 b < to256 a then 1 else 0" "\<lambda>a b. to256 a"
    "\<lambda>x y. if sint y < sint x then 1 else 0"
  by unfold_locales (auto elim!: in_rangeE simp: opSgt_def binop_simps)


text \<open>Sign extension and shifts.\<close>

lemma sign_extend_bits:
  "signed_take_bit n (x :: int) =
     (if bit x n then x OR NOT (push_bit n 1 - 1) else x AND (push_bit n 1 - 1))"
proof -
  have "push_bit n 1 - 1 = (mask n :: int)" by (simp add: mask_eq_exp_minus_1 push_bit_eq_mult)
  then show ?thesis
    by (auto simp: signed_take_bit_def take_bit_eq_mask bit_simps intro!: bit_eqI)
qed

lemma signext_index:
  assumes "in_range a" and "a \<le> 32"
  shows "unat (Uint64 a * 8 + 7) = 8 * nat a + 7"
proof -
  have "unat (Uint64 a) = nat a" using assms by (intro unat_Uint64) (simp add: IsUint64_def in_range_def)
  moreover have "nat a \<le> 32" using assms by simp
  ultimately show ?thesis by (simp add: unat_word_ariths)
qed

lemma W_signed_take_bit_high:
  assumes "255 \<le> n"
  shows "wd (signed_take_bit n (uint (x :: 256 word))) = x"
proof (rule bit_word_eqI)
  fix i assume "i < LENGTH(256)"
  with assms have "min i n = i" by simp
  then show "bit (wd (signed_take_bit n (uint x))) i = bit x i"
    using \<open>i < LENGTH(256)\<close> by (simp add: bit_simps)
qed

interpretation signext: stack_binop "\<lambda>_. True" opSignExtension
    "\<lambda>a b. if 32 < a then b
       else if bit b (unat (Uint64 a * 8 + 7))
       then toU256 (b OR NOT (push_bit (unat (Uint64 a * 8 + 7)) 1 - 1))
       else toU256 (b AND (push_bit (unat (Uint64 a * 8 + 7)) 1 - 1))"
    "\<lambda>a b. a"
    "\<lambda>k x. if unat k < 31 then wd (signed_take_bit (8 * unat k + 7) (uint x)) else x"
proof (unfold_locales, goal_cases)
  case 1
  then show ?case by (simp add: opSignExtension_def binop_simps)
next
  case 2
  then show ?case by simp
next
  case (3 a b)
  then obtain k x :: "256 word" where k: "a = uint k" and x: "b = uint x" by (elim in_rangeE)
  show ?case
  proof (cases "32 < a")
    case True
    then have "\<not> unat k < 31" unfolding k using int_unat [of k] by linarith
    with True show ?thesis by (simp add: x k)
  next
    case False
    have i: "unat (Uint64 (uint k) * 8 + 7) = 8 * unat k + 7"
      using signext_index [OF 3(1)] False by (simp add: k)
    have "wd (signed_take_bit (8 * unat k + 7) (uint x)) = x" if "\<not> unat k < 31"
      using that by (intro W_signed_take_bit_high) simp
    with False show ?thesis
      unfolding k x i by (cases "unat k < 31") (auto simp: sign_extend_bits split: if_splits)
  qed
qed

lemma overflow_iff: "in_range a \<Longrightarrow> equalOrOverflowsUint256 a \<longleftrightarrow> 256 \<le> a"
  by (simp add: equalOrOverflowsUint256_def BitLen_gt_iff in_range_def)

lemma shift_index:
  assumes "\<not> equalOrOverflowsUint256 (uint (n :: 256 word))"
  shows "unat (Uint64 (uint n)) = unat n"
  using assms by (simp add: unat_Uint64 overflow_iff IsUint64_def)

lemma shift_large:
  assumes "equalOrOverflowsUint256 (uint (n :: 256 word))"
  shows "256 \<le> unat n"
proof -
  have "256 \<le> uint n" using assms by (simp add: overflow_iff)
  then show ?thesis using int_unat [of n] by linarith
qed

lemma drop_bit_all:
  assumes "- (2 ^ n) \<le> v" and "v < (2 :: int) ^ n"
  shows "drop_bit n v = (if 0 \<le> v then 0 else - 1)"
  using assms by (auto simp: drop_bit_eq_div intro: div_pos_pos_trivial int_div_pos_eq [where r = "v + 2 ^ n"])

lemma signed_shift_all:
  assumes "256 \<le> k"
  shows "signed_drop_bit k (x :: 256 word) = (if 0 \<le> sint x then 0 else - 1)"
proof -
  have "(2 :: int) ^ 255 \<le> 2 ^ k" using assms by (intro power_increasing) simp_all
  then have "- (2 ^ k) \<le> sint x" and "sint x < 2 ^ k"
    using sint_ge [of x] sint_lt [of x] by simp_all
  then have "sint (signed_drop_bit k x) = (if 0 \<le> sint x then 0 else - 1)"
    unfolding sint_signed_drop_bit_eq by (rule drop_bit_all)
  then show ?thesis by (auto dest: arg_cong [where f = wd] split: if_splits)
qed

interpretation shl: stack_binop "\<lambda>c. Constantinople (config c)" opShl
    "\<lambda>a b. if equalOrOverflowsUint256 a then 0 else toU256 (push_bit (unat (Uint64 a)) b)"
    "\<lambda>a b. a" "\<lambda>n x. push_bit (unat n) x"
proof (unfold_locales, goal_cases)
  case 1
  then show ?case by (simp add: opShl_def binop_simps)
next
  case 2
  then show ?case by simp
next
  case (3 a b)
  then show ?case
    by (elim in_rangeE)
      (auto simp: shift_index bit_simps dest!: shift_large intro!: bit_word_eqI)
qed

interpretation shr: stack_binop "\<lambda>c. Constantinople (config c)" opShr
    "\<lambda>a b. if equalOrOverflowsUint256 a then 0 else toU256 (drop_bit (unat (Uint64 a)) b)"
    "\<lambda>a b. a" "\<lambda>n x. drop_bit (unat n) x"
proof (unfold_locales, goal_cases)
  case 1
  then show ?case by (simp add: opShr_def binop_simps)
next
  case 2
  then show ?case by simp
next
  case (3 a b)
  then show ?case
    by (elim in_rangeE)
      (auto simp: shift_index bit_simps dest!: shift_large intro!: bit_word_eqI)
qed

interpretation sar: stack_binop "\<lambda>c. Constantinople (config c)" opSar
    "\<lambda>a b. if equalOrOverflowsUint256 a then (if 0 \<le> to256 b then 0 else tt256m1)
       else toU256 (drop_bit (unat (Uint64 a)) (to256 b))"
    "\<lambda>a b. a" "\<lambda>n x. signed_drop_bit (unat n) x"
proof (unfold_locales, goal_cases)
  case 1
  then show ?case by (simp add: opSar_def binop_simps)
next
  case 2
  then show ?case using in_range_toU256 by (auto simp: in_range_def tt256m1_def tt256_def)
next
  case (3 a b)
  then obtain n x :: "256 word" where "a = uint n" and "b = uint x" by (elim in_rangeE)
  moreover have "wd (drop_bit k (sint x)) = signed_drop_bit k x" for k
    by (simp flip: sint_signed_drop_bit_eq)
  moreover have "wd tt256m1 = - 1" by (simp add: tt256m1_def tt256_def)
  ultimately show ?case
    by (auto simp: shift_index signed_shift_all dest!: shift_large)
qed

section \<open>One and three operands\<close>

locale stack_unop =
  fixes instr :: "'h instruction" and val :: "int \<Rightarrow> int" and wop :: "256 word \<Rightarrow> 256 word"
  assumes effect1: "stack c = rev s @ a # hi \<Longrightarrow> sp c = Suc (length s) \<Longrightarrow>
      instr c = Some (c\<lparr>stack := rev s @ val a # hi, sp := Suc (length s)\<rparr>)"
    and range1: "in_range a \<Longrightarrow> in_range (val a)"
    and word1: "in_range a \<Longrightarrow> wd (val a) = wop (wd a)"
begin

lemma run_cells1:
  assumes "stk_ok c" and "Suc 0 \<le> sp c"
  obtains c' s a where "instr c = Some c'" and "stk_ok c'" and "same_but_stack c c'"
    and "astack c = wd a # map wd s" and "astack c' = wop (wd a) # map wd s"
proof -
  obtain s a hi where *: "stack c = rev s @ a # hi" "sp c = Suc (length s)"
      "in_range a" "\<forall>x \<in> set s. in_range x" "astack c = wd a # map wd s"
    using assms by (rule stk_ok1E)
  show thesis
    by (rule that [OF effect1 [OF *(1,2)], of a])
      (use * range1 [OF *(3)] word1 [OF *(3)] in \<open>simp_all add: stk_update1\<close>)
qed

lemma keeps1:
  assumes "stk_ok c" and "Suc 0 \<le> sp c"
  shows "\<exists>c'. instr c = Some c' \<and> stk_ok c' \<and> same_but_stack c c'"
  using assms run_cells1 by metis

lemma refines1: "refines_op1 (\<lambda>_. True) instr wop"
  unfolding refines_op1_def
proof (intro allI impI)
  fix c :: "'h vm" and x ws
  assume ok: "stk_ok c" and st: "astack c = x # ws"
  have "Suc 0 \<le> sp c" using length_astack [OF ok] st by simp
  with ok st show "\<exists>c'. instr c = Some c' \<and> astack c' = wop x # ws \<and> stk_ok c' \<and> same_but_stack c c'"
    by (metis run_cells1 list.inject)
qed

end

interpretation noti: stack_unop opNot "\<lambda>a. toU256 (NOT a)" "\<lambda>x. NOT x"
  by unfold_locales (auto elim!: in_rangeE simp: opNot_def binop_simps simp flip: word_wi_log_defs)

interpretation isZero: stack_unop opIsZero "\<lambda>a. if a = 0 then 1 else 0" "\<lambda>x. if x = 0 then 1 else 0"
  by unfold_locales (auto elim!: in_rangeE simp: opIsZero_def binop_simps uint_0_iff)

locale stack_ternop =
  fixes instr :: "'h instruction" and val :: "int \<Rightarrow> int \<Rightarrow> int \<Rightarrow> int" and dead :: "int \<Rightarrow> int \<Rightarrow> int \<Rightarrow> int"
    and wop :: "256 word \<Rightarrow> 256 word \<Rightarrow> 256 word \<Rightarrow> 256 word"
  assumes effect3: "stack c = rev s @ z # b # a # hi \<Longrightarrow> sp c = Suc (Suc (Suc (length s))) \<Longrightarrow>
      instr c = Some (c\<lparr>stack := rev s @ val a b z # b # dead a b z # hi, sp := Suc (length s)\<rparr>)"
    and range3: "in_range a \<Longrightarrow> in_range b \<Longrightarrow> in_range z \<Longrightarrow> in_range (val a b z)"
    and word3: "in_range a \<Longrightarrow> in_range b \<Longrightarrow> in_range z \<Longrightarrow> wd (val a b z) = wop (wd a) (wd b) (wd z)"
begin

lemma run_cells3:
  assumes "stk_ok c" and "3 \<le> sp c"
  obtains c' s a b z where "instr c = Some c'" and "stk_ok c'" and "same_but_stack c c'"
    and "astack c = wd a # wd b # wd z # map wd s" and "astack c' = wop (wd a) (wd b) (wd z) # map wd s"
proof -
  obtain s a b z hi where *: "stack c = rev s @ z # b # a # hi" "sp c = Suc (Suc (Suc (length s)))"
      "in_range a" "in_range b" "in_range z" "\<forall>x \<in> set s. in_range x"
      "astack c = wd a # wd b # wd z # map wd s"
    using assms by (rule stk_ok3E)
  show thesis
    by (rule that [OF effect3 [OF *(1,2)], of a b z])
      (use * range3 [OF *(3-5)] word3 [OF *(3-5)] in \<open>simp_all add: stk_update1\<close>)
qed

lemma keeps3:
  assumes "stk_ok c" and "3 \<le> sp c"
  shows "\<exists>c'. instr c = Some c' \<and> stk_ok c' \<and> same_but_stack c c'"
  using assms run_cells3 by metis

lemma refines3: "refines_op3 (\<lambda>_. True) instr wop"
  unfolding refines_op3_def
proof (intro allI impI)
  fix c :: "'h vm" and x y z ws
  assume ok: "stk_ok c" and st: "astack c = x # y # z # ws"
  have "3 \<le> sp c" using length_astack [OF ok] st by simp
  with ok st show "\<exists>c'. instr c = Some c' \<and> astack c' = wop x y z # ws \<and> stk_ok c' \<and> same_but_stack c c'"
    by (metis run_cells3 list.inject)
qed

end

interpretation addmod: stack_ternop opAddMod
  "\<lambda>a b z. if z = 0 then 0 else toU256 (big_Mod (a + b) z)" "\<lambda>a b z. if z = 0 then a else a + b"
  "\<lambda>x y z. if z = 0 then 0 else wd ((uint x + uint y) mod uint z)"
  by unfold_locales
    (auto elim!: in_rangeE simp: opAddMod_def binop_simps uint_0_iff uint_pos_iff big_Mod_def)

interpretation mulmod: stack_ternop opMulMod
  "\<lambda>a b z. if z = 0 then 0 else toU256 (big_Mod (a * b) z)" "\<lambda>a b z. if z = 0 then a else a * b"
  "\<lambda>x y z. if z = 0 then 0 else wd ((uint x * uint y) mod uint z)"
  by unfold_locales
    (auto elim!: in_rangeE simp: opMulMod_def binop_simps uint_0_iff uint_pos_iff big_Mod_def)

section \<open>BYTE\<close>

definition byte_val :: "int \<Rightarrow> int \<Rightarrow> int" where
  "byte_val a b = (if 31 < Int64 a then 0
     else (drop_bit (unat (word_of_int ((31 - Int64 a) * 8) :: uint64)) b) AND 255)"

lemma in_range_and_255: "in_range (x AND 255)"
proof -
  have "x AND 255 = take_bit 8 x" by (simp add: take_bit_eq_mask mask_eq_exp_minus_1)
  also have "in_range (take_bit 8 x)" by (simp add: in_range_def take_bit_eq_mod)
  finally show ?thesis .
qed

interpretation byte: stack_op2 "\<lambda>_. True" opByte byte_val "\<lambda>a b. a"
  by unfold_locales (auto simp: opByte_def binop_simps byte_val_def in_range_and_255)

text \<open>The byte the yellow paper selects: index 0 is the most significant one.\<close>

definition word_byte :: "256 word \<Rightarrow> 256 word \<Rightarrow> 256 word" where
  "word_byte i x = (if i < 32 then drop_bit (8 * (31 - unat i)) x AND 255 else 0)"

lemma W_drop_bit: "wd (drop_bit k (uint y)) = drop_bit k y"
proof -
  have "uint (drop_bit k y) = drop_bit k (uint y)" 
    using uint_bounded [of y] by (simp add: unsigned_drop_bit_eq take_bit_int_eq_self)
  then show ?thesis by (metis word_of_int_uint)
qed

lemma byte_val_word:
  assumes "in_range a" and "in_range b" and "a < 2 ^ 63"
  shows "wd (byte_val a b) = word_byte (wd a) (wd b)"
proof -
  obtain x y :: "256 word" where xy: "a = uint x" "b = uint y"
    using assms(1,2) by (metis in_rangeE)
  have i: "Int64 a = uint x" using assms(3) xy Int64_id [of a] by (simp add: IsInt64_def)
  show ?thesis
  proof (cases "31 < uint x")
    case True
    then show ?thesis using i by (simp add: byte_val_def word_byte_def xy word_less_def)
  next
    case False
    then have "int (unat x) \<le> 31" unfolding int_unat by simp
    then have u: "unat x \<le> 31" by linarith
    have lt: "x < 32" using False by (simp add: word_less_def)
    have "(31 - uint x) * 8 = int (8 * (31 - unat x))"
      using u int_unat [of x] by (simp add: of_nat_diff)
    then have "unat (word_of_int ((31 - uint x) * 8) :: uint64) = 8 * (31 - unat x)"
      using u unat_of_nat64 [of "8 * (31 - unat x)"] by (simp only: of_int_of_nat_eq) simp
    then show ?thesis using False i lt
      by (simp add: byte_val_def word_byte_def xy W_drop_bit flip: word_wi_log_defs(2))
  qed
qed


section \<open>EXP\<close>

lemma and_1_odd: "(d :: uint64) AND 1 = 1 \<longleftrightarrow> odd (unat d)"
proof -
  have "bit (unat d) 0 = bit d 0" by (simp add: bit_unsigned_iff)
  then have "odd (unat d) \<longleftrightarrow> odd d" by (simp add: bit_0)
  then show ?thesis by (simp add: and_one_eq odd_iff_mod_2_eq_one)
qed

lemma unat_mod_Suc:
  "unat (d :: uint64) mod 2 ^ Suc n = 2 * (unat (drop_bit 1 d) mod 2 ^ n) + of_bool (odd (unat d))"
  by (simp add: unsigned_drop_bit_eq drop_bit_eq_div mod_mult2_eq mod_2_eq_odd unat_div)

lemma exp_bits_spec:
  "exp_bits n d (z, x) = (z', x') \<Longrightarrow>
     wd z' = wd z * wd x ^ (unat d mod 2 ^ n) \<and> wd x' = wd x ^ (2 ^ n) \<and> (in_range z \<longrightarrow> in_range z')"
proof (induction n arbitrary: d z x)
  case 0
  then show ?case by simp
next
  case (Suc n)
  let ?z = "if d AND 1 = 1 then toU256 (z * x) else z"
  have sq: "wd (toU256 (x * x)) = wd x ^ 2" by (simp add: power2_eq_square wi_hom_mult [symmetric])
  have z: "wd ?z = wd z * wd x ^ of_bool (odd (unat d))" by (simp add: and_1_odd wi_hom_mult [symmetric])
  have "exp_bits n (drop_bit 1 d) (?z, toU256 (x * x)) = (z', x')"
    using Suc.prems by (simp only: exp_bits.simps)
  note IH = Suc.IH [OF this, unfolded sq z]
  have "wd z' = wd z * wd x ^ (unat d mod 2 ^ Suc n)"
    unfolding unat_mod_Suc using IH by (simp add: power_add power_mult ac_simps)
  moreover have "wd x' = wd x ^ (2 ^ Suc n)" using IH by (simp add: power_mult [symmetric])
  moreover have "in_range z \<longrightarrow> in_range z'" using IH by auto
  ultimately show ?case by blast
qed

fun words_val :: "uint64 list \<Rightarrow> nat" where
  "words_val [] = 0"
| "words_val (d # ds) = unat d + 2 ^ 64 * words_val ds"

lemma words_val_Bits: "words_val (nat_Bits n) = n"
proof (induction n rule: nat_Bits.induct)
  case (1 n)
  then show ?case
    by (subst nat_Bits.simps) (auto simp: unat_of_nat64 simp del: power.simps)
qed

lemma exp_words_spec:
  "exp_words ds (z, x) = (z', x') \<Longrightarrow>
     wd z' = wd z * wd x ^ words_val ds \<and> (in_range z \<longrightarrow> in_range z')"
proof (induction ds arbitrary: z x)
  case Nil
  then show ?case by simp
next
  case (Cons d ds)
  obtain z1 x1 where e: "exp_bits 64 d (z, x) = (z1, x1)" by fastforce
  have m: "unat d mod 2 ^ 64 = unat d" using unat_less_2p64 [of d] by simp
  note s = exp_bits_spec [OF e, unfolded m]
  have "exp_words ds (z1, x1) = (z', x')" using Cons.prems by (simp only: exp_words.simps e)
  from Cons.IH [OF this] s show ?case
    by (simp add: power_add power_mult mult.assoc)
qed

definition exp_cost :: "ForksInTime \<Rightarrow> 256 word \<Rightarrow> uint64" where
  "exp_cost f y = of_nat ((BitLen (uint y) + 7) div 8) * (if EIP158 f then 50 else 10)"

lemma opExp_effect:
  assumes "stk_ok c" and "astack c = x # y # ws"
  obtains (out) c' where "gas c < exp_cost (config c) y" and "opExp c = Some c'"
      and "c' = vm_exit (Some ErrOutOfGas) (c\<lparr>sp := sp c', currentConsumedGas := currentConsumedGas c'\<rparr>)"
  | (ok) c' where "exp_cost (config c) y \<le> gas c" and "opExp c = Some c'" and "stk_ok c'"
      and "astack c' = x ^ unat y # ws"
      and "same_but_stack (c\<lparr>currentConsumedGas := currentConsumedGas c',
        gas := gas c - exp_cost (config c) y\<rparr>) c'"
proof -
  have "2 \<le> sp c" using length_astack [OF assms(1)] assms(2) by simp
  with assms(1) obtain s a b hi where *: "stack c = rev s @ b # a # hi" "sp c = Suc (Suc (length s))"
      "in_range a" "in_range b" "\<forall>x \<in> set s. in_range x" "astack c = wd a # wd b # map wd s"
    by (rule stk_ok2E)
  have xy: "x = wd a" "y = wd b" "ws = map wd s" using * assms(2) by simp_all
  have b: "uint y = b" "0 \<le> b" using * xy by (simp_all add: in_range_W in_range_def)
  let ?g = "exp_cost (config c) y"
  let ?c = "c\<lparr>sp := Suc (length s)\<rparr>"
  have c: "of_nat ((BitLen b + 7) div 8) * (if EIP158 (config c) then 50 else 10) = ?g"
    using b by (simp add: exp_cost_def)
  show thesis
  proof (cases rule: consumeGas_cases [of ?c ?g])
    case g: out
    show thesis
      by (rule out) (use g * c in \<open>auto simp: opExp_def stack_simps Let_def vm_exit_def\<close>)
  next
    case g: ok
    obtain z x' where e: "exp_words (Bits b) (1, a) = (z, x')" by fastforce
    note s = exp_words_spec [OF e]
    have "unat y = nat b" using b by (metis nat_uint_eq)
    then have z: "wd z = x ^ unat y" using s b(2) xy by (simp add: Bits_def words_val_Bits)
    show thesis
      by (rule ok) (use g * c e z s xy in \<open>auto simp: opExp_def stack_simps Let_def stk_update1
            same_but_stack_def stk_ok_def astack_def\<close>)
  qed
qed
end
