(* ===== verification/EVM_Bytes.thy ===== *)
theory EVM_Bytes
  imports EVM_Run EVM_Arith_Spec
begin

text \<open>
  What the byte loops of the memory instructions compute: MSTORE writes the
  big-endian bytes of its operand, and the copy instructions write the requested
  part of their input padded with zeros.
\<close>

section \<open>The byte loops of the memory instructions\<close>

lemma uint_drop_8: "uint (drop_bit 8 (d :: uint64)) = uint d div 256"
  using uint_bounded [of d]
  by (simp add: unsigned_drop_bit_eq drop_bit_eq_div take_bit_int_eq_self uint_div)

lemma put_bytes_eq:
  assumes "j \<le> i" and "i \<le> length buf"
  shows "put_bytes j d (buf, i) = Some (take (i - j) buf @ be_bytes j (uint d) @ drop i buf, i - j)"
  using assms
proof (induction j arbitrary: d buf i)
  case 0
  then show ?case by simp
next
  case (Suc j)
  let ?buf = "buf[i - 1 := ucast d]"
  have "put_bytes j (drop_bit 8 d) (?buf, i - 1) =
      Some (take (i - 1 - j) ?buf @ be_bytes j (uint d div 256) @ drop (i - 1) ?buf, i - 1 - j)"
    using Suc.prems by (subst Suc.IH) (simp_all add: uint_drop_8 del: One_nat_def)
  moreover have "drop (i - 1) ?buf = word_of_int (uint d) # drop i buf"
    using Suc.prems by (simp add: drop_update_swap Cons_nth_drop_Suc [symmetric] upd_conv_take_nth_drop)
  ultimately show ?case using Suc.prems by simp
qed

definition words_bytes :: "uint64 list \<Rightarrow> byte list" where
  "words_bytes ds = concat (rev (map (\<lambda>d. be_bytes 8 (uint d)) ds))"

lemma words_bytes_simps [simp]:
  "words_bytes [] = []" "words_bytes (d # ds) = words_bytes ds @ be_bytes 8 (uint d)"
  by (simp_all add: words_bytes_def)

lemma length_words_bytes [simp]: "length (words_bytes ds) = 8 * length ds"
  by (induction ds) (simp_all add: length_be_bytes del: be_bytes.simps)

lemma put_words_eq:
  assumes "8 * length ds \<le> i" and "i \<le> length buf"
  shows "put_words ds (buf, i) =
    Some (take (i - 8 * length ds) buf @ words_bytes ds @ drop i buf, i - 8 * length ds)"
  using assms
proof (induction ds arbitrary: buf i)
  case Nil
  then show ?case by simp
next
  case (Cons d ds)
  let ?buf = "take (i - 8) buf @ be_bytes 8 (uint d) @ drop i buf"
  have "put_bytes 8 d (buf, i) = Some (?buf, i - 8)" using Cons.prems by (simp add: put_bytes_eq)
  moreover have "put_words ds (?buf, i - 8) =
      Some (take (i - 8 - 8 * length ds) ?buf @ words_bytes ds @ drop (i - 8) ?buf, i - 8 - 8 * length ds)"
    using Cons.prems by (intro Cons.IH) (simp_all add: length_be_bytes del: be_bytes.simps)
  moreover have "drop (i - 8) ?buf = be_bytes 8 (uint d) @ drop i buf"
    using Cons.prems by (simp del: be_bytes.simps)
  moreover have "take (i - 8 - 8 * length ds) ?buf = take (i - 8 - 8 * length ds) buf"
    using Cons.prems by (simp add: min_def del: be_bytes.simps)
  ultimately show ?case by (simp add: diff_diff_add del: be_bytes.simps put_bytes.simps)
qed

lemma zero_down_eq: "i \<le> length buf \<Longrightarrow> zero_down i buf = replicate i 0 @ drop i buf"
proof (induction i arbitrary: buf)
  case 0
  then show ?case by simp
next
  case (Suc i)
  have "zero_down (Suc i) buf = replicate i 0 @ drop i (buf[i := 0])" using Suc by simp
  also have "drop i (buf[i := 0]) = 0 # drop (Suc i) buf"
    using Suc.prems by (simp add: upd_conv_take_nth_drop)
  finally show ?case by (simp add: replicate_app_Cons_same)
qed

lemma length_nat_Bits: "n < (2 ^ 64) ^ k \<Longrightarrow> length (nat_Bits n) \<le> k"
proof (induction k arbitrary: n)
  case 0
  then show ?case by (simp add: nat_Bits.simps)
next
  case (Suc k)
  have "n div 2 ^ 64 < (2 ^ 64) ^ k" using Suc.prems by (simp add: less_mult_imp_div_less mult.commute)
  then show ?case using Suc.IH by (subst nat_Bits.simps) simp
qed

lemma SetBytes_words_bytes: "SetBytes (words_bytes ds) = int (words_val ds)"
proof (induction ds)
  case Nil
  then show ?case by simp
next
  case (Cons d ds)
  have "SetBytes (be_bytes 8 (uint d)) = uint d"
    using uint_bounded [of d] by (simp add: SetBytes_be_bytes del: be_bytes.simps)
  then show ?case using Cons
    by (simp add: SetBytes_append length_be_bytes del: be_bytes.simps)
qed

lemma put_words_value:
  assumes "in_range v" and "length buf = 32"
  obtains buf' i where "put_words (Bits v) (buf, 32) = Some (buf', i)"
    and "length (zero_down i buf') = 32" and "SetBytes (zero_down i buf') = v"
proof -
  have "nat \<bar>v\<bar> < (2 ^ 64) ^ 4" using assms(1) by (simp add: in_range_def nat_less_iff)
  then have len: "length (Bits v) \<le> 4" unfolding Bits_def by (rule length_nat_Bits)
  let ?i = "32 - 8 * length (Bits v)"
  let ?b = "take ?i buf @ words_bytes (Bits v)"
  have "put_words (Bits v) (buf, 32) = Some (?b, ?i)"
    using len assms(2) by (subst put_words_eq) simp_all
  moreover have z: "zero_down ?i ?b = replicate ?i 0 @ words_bytes (Bits v)"
    using len assms(2) by (subst zero_down_eq) simp_all
  moreover have "SetBytes (zero_down ?i ?b) = v"
    unfolding z using assms(1)
    by (simp add: SetBytes_append SetBytes_replicate_0 SetBytes_words_bytes Bits_def words_val_Bits in_range_def)
  ultimately show thesis using that len by simp
qed


text \<open>The bytes of \<open>input\<close> from \<open>offset\<close> on, padded to \<open>n\<close> bytes with zeros.\<close>

definition padded :: "byte list \<Rightarrow> int \<Rightarrow> nat \<Rightarrow> byte list" where
  "padded input offset n =
     (let bs = (if IsUint64 offset then take n (drop (nat offset) input) else [])
      in bs @ replicate (n - length bs) 0)"

lemma length_padded [simp]: "length (padded input offset n) = n"
  by (simp add: padded_def Let_def)

lemma setBytes_eq:
  assumes "unat sz \<le> length dst" and "length input < 2 ^ 62"
  shows "setBytes dst input sz offset = Some (padded input offset (unat sz) @ drop (unat sz) dst)"
proof (cases "IsUint64 offset")
  case False
  then show ?thesis using assms by (simp add: setBytes_def zero_range_def padded_def)
next
  case True
  define n b k where "n = (of_nat (length input) :: uint64)" and "b = min (Uint64 offset) n"
    and "k = min sz (n - b)"
  have un: "unat n = length input" using assms(2) by (simp add: n_def unat_of_nat64)
  have ub: "unat b = min (nat offset) (length input)"
    using True by (auto simp: b_def un [symmetric] min_def word_le_nat_alt unat_Uint64)
  have uk: "unat k = min (unat sz) (length input - nat offset)"
  proof -
    have "unat (n - b) = unat n - unat b" by (intro unat_sub_le) (simp add: b_def)
    then show ?thesis by (auto simp: k_def min_def word_le_nat_alt un ub)
  qed
  have ks: "k \<le> sz" by (simp add: k_def)
  then have us: "unat (sz - k) = unat sz - unat k" by (intro unat_sub_le)
  have bk: "unat (b + k) = unat b + unat k"
    using assms(2) by (intro unat_add_no_wrap) (simp add: ub uk)
  let ?src = "take (unat k) (drop (nat offset) input)"
  have src: "take (unat (b + k) - unat b) (drop (unat b) input) = ?src"
    by (auto simp: bk ub min_def)
  have k0: "(0 < k) = (0 < unat k)" and s0: "(0 < sz - k) = (unat k < unat sz)"
    using us by (auto simp: word_less_nat_alt)
  have len: "length ?src = unat k" by (simp add: uk)
  have pad: "padded input offset (unat sz) = ?src @ replicate (unat sz - unat k) 0"
    using True by (auto simp: padded_def Let_def uk min_def)
  have kl: "unat k \<le> length input - nat offset" by (simp add: uk)
  have copied: "copy_at dst 0 ?src = ?src @ drop (unat k) dst"
    using assms(1) ks by (simp add: copy_at_def Let_def word_le_nat_alt min_absorb2 [OF kl])
  have "setBytes dst input sz offset =
     (if 0 < k then do { s \<leftarrow> go_slice input (unat b) (unat (b + k)); Some (copy_at dst 0 s) } else Some dst)
     \<bind> (\<lambda>d. if 0 < sz - k then zero_range d (unat k) (unat (sz - k)) else Some d)"
    using True by (simp add: setBytes_def Let_def n_def b_def k_def)
  also have "(if 0 < k then do { s \<leftarrow> go_slice input (unat b) (unat (b + k)); Some (copy_at dst 0 s) }
      else Some dst) = Some (?src @ drop (unat k) dst)"
    using copied by (auto simp: k0 go_slice_def src bk ub uk)
  finally show ?thesis
    using assms(1) ks by (auto simp: pad s0 us zero_range_def word_le_nat_alt
        min_absorb2 [OF kl])
qed

end
