(* ===== verification/EVM_Safety.thy ===== *)
theory EVM_Safety
  imports EVM_Bytes
begin

text \<open>
  The interpreter's invariant and the proof that no instruction panics.  \<open>safe\<close> says
  that a computation returns and that its result satisfies a postcondition; there is
  one rule for each primitive of the machine, and every instruction is verified by
  unfolding it and applying the rules.
\<close>

section \<open>Computations that do not panic\<close>

definition safe :: "'a go \<Rightarrow> ('a \<Rightarrow> bool) \<Rightarrow> bool" where
  "safe m Q \<longleftrightarrow> (case m of None \<Rightarrow> False | Some x \<Rightarrow> Q x)"

lemma safe_Some [simp]: "safe (Some x) Q \<longleftrightarrow> Q x"
  by (simp add: safe_def)

lemma safe_None [simp]: "\<not> safe None Q"
  by (simp add: safe_def)

lemma safe_bind: "safe (m \<bind> f) Q \<longleftrightarrow> safe m (\<lambda>x. safe (f x) Q)"
  by (cases m) (simp_all add: safe_def)

lemma safe_mono: "safe m P \<Longrightarrow> (\<And>x. P x \<Longrightarrow> Q x) \<Longrightarrow> safe m Q"
  by (cases m) simp_all

lemma safe_iff: "safe m Q \<longleftrightarrow> (\<exists>x. m = Some x \<and> Q x)"
  by (cases m) simp_all

section \<open>The interpreter's invariant\<close>

definition contract_ok :: "Contract \<Rightarrow> bool" where
  "contract_ok ct \<longleftrightarrow> length (Code ct) < 2 ^ 62 \<and> length (Input ct) < 2 ^ 62 \<and>
     (\<forall>v. Value ct = Some v \<longrightarrow> in_range v)"

text \<open>What stays the same during a run.\<close>

definition same_run :: "'h vm \<Rightarrow> 'h vm \<Rightarrow> bool" where
  "same_run c c' \<longleftrightarrow> code c' = code c \<and> bitmap c' = bitmap c \<and> msg c' = msg c \<and> config c' = config c"

definition code_inv :: "'h vm \<Rightarrow> bool" where
  "code_inv c \<longleftrightarrow> length (code c) < 2 ^ 62 \<and>
     (\<forall>i < length (code c). bm_isSet (bitmap c) i = Some (jumpdest (code c) i))"

text \<open>The part of the invariant that does not concern the stack.\<close>

definition vm_inv :: "('h \<Rightarrow> bool) \<Rightarrow> 'h vm \<Rightarrow> bool" where
  "vm_inv I c \<longleftrightarrow> I (host c) \<and> mem_inv c \<and> code_inv c \<and> contract_ok (msg c) \<and>
     length (returnData c) < 2 ^ 62 \<and> length (ret c) < 2 ^ 62"

text \<open>
  What an instruction guarantees when it starts in \<open>c\<close> and ends in \<open>c'\<close>: gas does
  not grow, and it drops by at least \<open>k\<close> if the machine goes on.  A machine that
  goes on past the end of the code may hold an operand wider than a word.
\<close>

definition post :: "('h \<Rightarrow> bool) \<Rightarrow> nat \<Rightarrow> 'h vm \<Rightarrow> 'h vm \<Rightarrow> bool" where
  "post I k c c' \<longleftrightarrow> I (host c') \<and> length (ret c') < 2 ^ 62 \<and> same_run c c' \<and>
     unat (gas c') \<le> unat (gas c) \<and>
     (\<not> stop c' \<longrightarrow> vm_inv I c' \<and> unat (gas c') + k \<le> unat (gas c) \<and> - 1 \<le> ip c' \<and>
        (ip c' + 1 < int (length (code c')) \<longrightarrow> stk_ok c'))"

definition instr_safe :: "('h \<Rightarrow> bool) \<Rightarrow> nat \<Rightarrow> nat \<Rightarrow> 'h instruction \<Rightarrow> bool" where
  "instr_safe I n k f \<longleftrightarrow>
     (\<forall>c. vm_inv I c \<longrightarrow> stk_ok c \<longrightarrow> n \<le> sp c \<longrightarrow> 0 \<le> ip c \<longrightarrow> ip c < int (length (code c)) \<longrightarrow>
        \<not> stop c \<longrightarrow> safe (f c) (post I k c))"

lemma instr_safeI:
  assumes "\<And>c. vm_inv I c \<Longrightarrow> stk_ok c \<Longrightarrow> n \<le> sp c \<Longrightarrow> 0 \<le> ip c \<Longrightarrow> ip c < int (length (code c)) \<Longrightarrow>
    \<not> stop c \<Longrightarrow> safe (f c) (post I k c)"
  shows "instr_safe I n k f"
  using assms by (simp add: instr_safe_def)

section \<open>Rules for the primitives\<close>

lemma stk_ok_frame [frame_simps]:
  "stk_ok (c\<lparr>gas := g\<rparr>) = stk_ok c" "stk_ok (c\<lparr>currentConsumedGas := g\<rparr>) = stk_ok c"
  "stk_ok (c\<lparr>tmp := t\<rparr>) = stk_ok c" "stk_ok (c\<lparr>ip := i\<rparr>) = stk_ok c"
  "stk_ok (c\<lparr>host := h\<rparr>) = stk_ok c" "stk_ok (c\<lparr>memory := m\<rparr>) = stk_ok c"
  "stk_ok (c\<lparr>lastGasCost := l\<rparr>) = stk_ok c" "stk_ok (c\<lparr>returnData := r\<rparr>) = stk_ok c"
  by (simp_all add: stk_ok_def)

lemma stack_push_eq:
  assumes "sp c \<le> length (stack c)"
  shows "stack_push c v =
    Some (c\<lparr>stack := take (sp c) (stack c) @ v # drop (Suc (sp c)) (stack c), sp := Suc (sp c)\<rparr>)"
  using assms by (auto simp: stack_push_def push1_def assign_def upd_conv_take_nth_drop)

lemma safe_consumeGas:
  assumes "\<And>g. safe (f False (vm_exit (Some ErrOutOfGas) (c\<lparr>currentConsumedGas := g\<rparr>))) Q"
    and "\<And>g u. unat u + unat cost = unat (gas c) \<Longrightarrow>
      safe (f True (c\<lparr>currentConsumedGas := g, gas := u\<rparr>)) Q"
  shows "safe (case consumeGas c cost of (ok, c') \<Rightarrow> f ok c') Q"
proof (cases rule: consumeGas_cases [of c cost])
  case out
  then show ?thesis using assms(1) by simp
next
  case ok
  then have "unat (gas c - cost) + unat cost = unat (gas c)"
    by (simp add: unat_sub_le word_le_nat_alt)
  with ok show ?thesis using assms(2) by simp
qed

text \<open>The memory invariant in terms of the memory's length.\<close>

definition mem_ok :: "nat \<Rightarrow> uint64 \<Rightarrow> bool" where
  "mem_ok n l \<longleftrightarrow> 32 dvd n \<and> n \<le> mem_limit \<and> (n \<le> exact_limit \<longrightarrow> unat l = Cmem (n div 32))"

lemma mem_inv_ok: "mem_inv c \<longleftrightarrow> mem_ok (length (memory c)) (lastGasCost c)"
  by (simp add: mem_inv_def mem_ok_def mod_eq_0_iff_dvd)

lemma mem_ok_fits: "mem_ok n l \<Longrightarrow> a + b \<le> n \<Longrightarrow> b \<le> mem_limit"
  by (simp add: mem_ok_def)

lemma mem_ok_limit: "mem_ok n l \<Longrightarrow> n < 2 ^ 62"
  by (simp add: mem_ok_def mem_limit_def)

lemma safe_allocateMemory:
  assumes "mem_ok (length (memory c)) (lastGasCost c)"
    and "\<And>e g l. safe (f False (vm_exit (Some e) (c\<lparr>lastGasCost := l, currentConsumedGas := g\<rparr>))) Q"
    and "\<And>g l u m. mem_ok (length m) l \<Longrightarrow> unat u \<le> unat (gas c) \<Longrightarrow>
      IsUint64 offset \<Longrightarrow> IsUint64 sz \<Longrightarrow> (sz \<noteq> 0 \<longrightarrow> nat offset + nat sz \<le> length m) \<Longrightarrow>
      safe (f True (c\<lparr>lastGasCost := l, currentConsumedGas := g, gas := u, memory := m\<rparr>)) Q"
  shows "safe (case allocateMemory c offset sz of (ok, c') \<Rightarrow> f ok c') Q"
proof -
  have inv: "mem_inv c" using assms(1) by (simp add: mem_inv_ok)
  show ?thesis
  proof (cases rule: allocateMemory_cases [OF inv, of offset sz])
    case (1 e g l)
    then show ?thesis using assms(2) by simp
  next
    case (2 g l u z)
    let ?m = "memory c @ replicate z 0"
    have "mem_ok (length ?m) l" using 2(4-7) by (simp add: mem_ok_def)
    moreover have "unat u \<le> unat (gas c)" using 2(8) by (simp add: word_le_nat_alt)
    moreover have "sz \<noteq> 0 \<longrightarrow> nat offset + nat sz \<le> length ?m"
      using alloc_size_ge(2) [of sz offset "memory c"] 2(4) by simp
    ultimately show ?thesis using assms(3) 2(1-3) by simp
  qed
qed

lemma IsUint64_unat: "IsUint64 x \<Longrightarrow> unat (Uint64 x) = nat x"
  by (simp add: unat_Uint64)

lemma safe_get2:
  assumes "mem_ok (length (memory c)) (lastGasCost c)"
    and "\<And>e g l. Q ([], False, vm_exit (Some e) (c\<lparr>lastGasCost := l, currentConsumedGas := g\<rparr>))"
    and "\<And>bs g l u m. mem_ok (length m) l \<Longrightarrow> unat u \<le> unat (gas c) \<Longrightarrow>
      length bs = nat sz \<Longrightarrow> nat sz \<le> mem_limit \<Longrightarrow>
      Q (bs, True, c\<lparr>lastGasCost := l, currentConsumedGas := g, gas := u, memory := m\<rparr>)"
  shows "safe (get2 c [] offset sz) Q"
proof (cases "sz = 0")
  case True
  have "Q ([], True, c)"
    using assms(3) [of "memory c" "lastGasCost c" "gas c" "[]" "currentConsumedGas c"] assms(1) True
    by simp
  with True show ?thesis by (simp add: get2_def)
next
  case False
  show ?thesis
    using False assms(1) unfolding get2_def Let_def
    by (auto simp: IsUint64_unat go_slice_def safe_bind intro: mem_ok_fits
        intro!: safe_allocateMemory assms(2,3))
qed

lemma same_run_refl [simp]: "same_run c c"
  by (simp add: same_run_def)

lemma post_exit [simp]:
  "post I k c (vm_exit (Some e) c') \<longleftrightarrow>
     I (host c') \<and> length (ret c') < 2 ^ 62 \<and> same_run c c' \<and> unat (gas c') \<le> unat (gas c)"
  by (auto simp: post_def same_run_def)

lemma post_Halt [simp]:
  "post I k c (Halt c') \<longleftrightarrow>
     I (host c') \<and> length (ret c') < 2 ^ 62 \<and> same_run c c' \<and> unat (gas c') \<le> unat (gas c)"
  by (auto simp: post_def same_run_def)

lemma vm_inv_ok:
  "vm_inv I c \<longleftrightarrow> I (host c) \<and> mem_ok (length (memory c)) (lastGasCost c) \<and> code_inv c \<and>
     contract_ok (msg c) \<and> length (returnData c) < 2 ^ 62 \<and> length (ret c) < 2 ^ 62"
  by (simp add: vm_inv_def mem_inv_ok)

lemma code_inv_same: "same_run c c' \<Longrightarrow> code_inv c' = code_inv c"
  by (simp add: same_run_def code_inv_def)

lemma stk_oknE:
  assumes "stk_ok c" and "n \<le> sp c"
  obtains s xs hi where "stack c = rev s @ rev xs @ hi" and "sp c = length s + n" and "length xs = n"
    and "\<forall>x \<in> set s. in_range x" and "\<forall>x \<in> set xs. in_range x"
proof -
  obtain s0 hi where *: "stk c s0 hi" "\<forall>x \<in> set s0. in_range x" "sp c = length s0"
    using assms(1) by (rule stk_okE)
  have "rev s0 = rev (drop n s0) @ rev (take n s0)"
    by (metis append_take_drop_id rev_append)
  then have "stack c = rev (drop n s0) @ rev (take n s0) @ hi"
    using * by (simp add: stk_def)
  moreover have "sp c = length (drop n s0) + n" "length (take n s0) = n" using * assms(2) by simp_all
  ultimately show thesis using that * by (metis in_set_dropD in_set_takeD)
qed

lemmas post_simps = post_def same_run_def vm_inv_ok code_inv_def stk_ok_def

lemmas step_simps = Let_def safe_bind stack_push_eq stack_pop_def stack_top_def deref_def assign_def

lemmas step_rules = safe_consumeGas safe_allocateMemory safe_get2

lemma SetBytes_in_range: "length bs \<le> 32 \<Longrightarrow> in_range (SetBytes bs)"
  using SetBytes_less [of bs] SetBytes_nonneg [of bs] power_increasing [of "length bs" 32 "256 :: int"]
  by (simp add: in_range_def)

section \<open>Instructions without the host\<close>

lemma instr_safe0I:
  assumes "\<And>c. vm_inv I c \<Longrightarrow> sp c \<le> length (stack c) \<Longrightarrow>
      \<forall>x \<in> set (take (sp c) (stack c)). in_range x \<Longrightarrow> 0 \<le> ip c \<Longrightarrow> ip c < int (length (code c)) \<Longrightarrow>
      \<not> stop c \<Longrightarrow> safe (f c) (post I k c)"
  shows "instr_safe I 0 k f"
  using assms by (auto simp: instr_safe_def stk_ok_def)

lemma instr_safe1I:
  assumes "\<And>c s a hi. vm_inv I c \<Longrightarrow> stack c = rev s @ a # hi \<Longrightarrow> sp c = Suc (length s) \<Longrightarrow>
      in_range a \<Longrightarrow> \<forall>x \<in> set s. in_range x \<Longrightarrow> 0 \<le> ip c \<Longrightarrow> ip c < int (length (code c)) \<Longrightarrow>
      \<not> stop c \<Longrightarrow> safe (f c) (post I k c)"
  shows "instr_safe I 1 k f"
  using assms by (intro instr_safeI) (metis One_nat_def stk_ok1E)

lemma instr_safe2I:
  assumes "\<And>c s a b hi. vm_inv I c \<Longrightarrow> stack c = rev s @ b # a # hi \<Longrightarrow> sp c = Suc (Suc (length s)) \<Longrightarrow>
      in_range a \<Longrightarrow> in_range b \<Longrightarrow> \<forall>x \<in> set s. in_range x \<Longrightarrow> 0 \<le> ip c \<Longrightarrow>
      ip c < int (length (code c)) \<Longrightarrow> \<not> stop c \<Longrightarrow> safe (f c) (post I k c)"
  shows "instr_safe I 2 k f"
  using assms by (intro instr_safeI) (metis stk_ok2E)

lemma instr_safe3I:
  assumes "\<And>c s a b z hi. vm_inv I c \<Longrightarrow> stack c = rev s @ z # b # a # hi \<Longrightarrow>
      sp c = Suc (Suc (Suc (length s))) \<Longrightarrow>
      in_range a \<Longrightarrow> in_range b \<Longrightarrow> in_range z \<Longrightarrow> \<forall>x \<in> set s. in_range x \<Longrightarrow> 0 \<le> ip c \<Longrightarrow>
      ip c < int (length (code c)) \<Longrightarrow> \<not> stop c \<Longrightarrow> safe (f c) (post I k c)"
  shows "instr_safe I 3 k f"
  using assms by (intro instr_safeI) (metis stk_ok3E)

lemma opMload_safe: "instr_safe I 1 0 opMload"
  by (rule instr_safe1I)
    (auto simp: opMload_def step_simps post_simps SetBytes_in_range intro!: step_rules)

lemma opMStore8_safe: "instr_safe I 2 0 opMStore8"
  by (rule instr_safe2I)
    (auto simp: opMStore8_def step_simps post_simps IsUint64_unat intro!: step_rules)

lemma opPop_safe: "instr_safe I 1 0 opPop"
  by (rule instr_safe1I) (auto simp: opPop_def step_simps post_simps)

lemma SetBytes_Address_range [simp]: "in_range (SetBytes (Address_Bytes a))"
  by (rule SetBytes_in_range) simp

lemma SetBytes_Hash_range [simp]: "in_range (SetBytes (Hash_Bytes a))"
  by (rule SetBytes_in_range) simp

lemma in_range_uint64 [simp]: "in_range (uint (w :: uint64))"
  using uint_bounded [of w] by (simp add: in_range_def)

lemma in_range_address [simp]: "in_range (uint (w :: address))"
  using uint_bounded [of w] by (simp add: in_range_def)

lemma stack_push_safe:
  assumes "\<And>c. vm_inv I c \<Longrightarrow> in_range (v c)"
  shows "instr_safe I 0 0 (\<lambda>c. stack_push c (v c))"
  using assms by (intro instr_safe0I) (auto simp: step_simps post_simps)

lemma push_ops_safe:
  "instr_safe I 0 0 opAddress" "instr_safe I 0 0 opCaller" "instr_safe I 0 0 opCallValue"
  "instr_safe I 0 0 opCallDataSize" "instr_safe I 0 0 opCodeSize" "instr_safe I 0 0 opPC"
  "instr_safe I 0 0 opMSize" "instr_safe I 0 0 opGas" "instr_safe I 0 0 opReturnDataSize"
  by (rule instr_safe0I;
      auto simp: opAddress_def opCaller_def opCallValue_def opCallDataSize_def opCodeSize_def opPC_def
        opMSize_def opGas_def opReturnDataSize_def step_simps post_simps contract_ok_def split: option.splits)+

end
