(* ===== verification/EVM_Instr_Safety.thy ===== *)
theory EVM_Instr_Safety
  imports EVM_Safety
begin

text \<open>
  Every instruction that does not use the host is safe: it returns, keeps the
  interpreter's invariant and never increases the gas.
\<close>

section \<open>Arithmetic\<close>

lemma same_but_stack_post:
  assumes "same_but_stack c c'" and "stk_ok c'" and "vm_inv I c" and "0 \<le> ip c" and "\<not> stop c"
  shows "post I 0 c c'"
proof -
  have "c' = c\<lparr>stack := stack c', sp := sp c'\<rparr>" using assms(1) by (simp add: same_but_stack_def)
  then obtain st n where c': "c' = c\<lparr>stack := st, sp := n\<rparr>" by blast
  show ?thesis using assms unfolding c' by (auto simp: post_simps)
qed

lemma keeps_safe:
  assumes "\<And>c. stk_ok c \<Longrightarrow> n \<le> sp c \<Longrightarrow> \<exists>c'. f c = Some c' \<and> stk_ok c' \<and> same_but_stack c c'"
  shows "instr_safe I n 0 f"
  by (rule instr_safeI) (use assms in \<open>fastforce simp: safe_iff intro: same_but_stack_post\<close>)

lemmas keeps2_rules =
  add.keeps [OF TrueI] sub.keeps [OF TrueI] mul.keeps [OF TrueI] div.keeps [OF TrueI] sdiv.keeps [OF TrueI] modi.keeps [OF TrueI] smod.keeps [OF TrueI] andi.keeps [OF TrueI] ori.keeps [OF TrueI] xori.keeps [OF TrueI] byte.keeps [OF TrueI] eqi.keeps [OF TrueI] lt.keeps [OF TrueI] gt.keeps [OF TrueI] slt.keeps [OF TrueI] sgt.keeps [OF TrueI]

lemma op2_safe:
  "instr_safe I 2 0 opAdd" "instr_safe I 2 0 opSub" "instr_safe I 2 0 opMul" "instr_safe I 2 0 opDiv"
  "instr_safe I 2 0 opSDiv" "instr_safe I 2 0 opMod" "instr_safe I 2 0 opSMod" "instr_safe I 2 0 opAnd"
  "instr_safe I 2 0 opOr" "instr_safe I 2 0 opXor" "instr_safe I 2 0 opByte" "instr_safe I 2 0 opEq"
  "instr_safe I 2 0 opLt" "instr_safe I 2 0 opGt" "instr_safe I 2 0 opSlt" "instr_safe I 2 0 opSgt"
  by (rule keeps_safe, erule (1) keeps2_rules)+

lemma op1_op3_safe:
  "instr_safe I 1 0 opNot" "instr_safe I 1 0 opIsZero" "instr_safe I 3 0 opAddMod" "instr_safe I 3 0 opMulMod"
  by (rule keeps_safe, erule noti.keeps1 isZero.keeps1 addmod.keeps3 mulmod.keeps3, simp)+

lemma guarded_safe:
  assumes "\<And>c. en (config c) \<Longrightarrow> stk_ok c \<Longrightarrow> n \<le> sp c \<Longrightarrow>
      \<exists>c'. f c = Some c' \<and> stk_ok c' \<and> same_but_stack c c'"
    and "\<And>c. \<not> en (config c) \<Longrightarrow> f c = Some (vm_exit (Some e) c)"
  shows "instr_safe I n 0 f"
proof (rule instr_safeI)
  fix c assume a: "vm_inv I c" "stk_ok c" "n \<le> sp c" "0 \<le> ip c" "ip c < int (length (code c))" "\<not> stop c"
  show "safe (f c) (post I 0 c)"
  proof (cases "en (config c)")
    case True
    then show ?thesis using assms(1) a by (fastforce simp: safe_iff intro: same_but_stack_post)
  next
    case False
    then show ?thesis using assms(2) a(1) by (simp add: vm_inv_ok)
  qed
qed

lemma shift_safe: "instr_safe I 2 0 opShl" "instr_safe I 2 0 opShr" "instr_safe I 2 0 opSar"
  by (rule guarded_safe [where en = Constantinople and e = errOpCodeNotFound],
      erule (2) shl.keeps shr.keeps sar.keeps, simp add: opShl_def opShr_def opSar_def)+

lemma opSignExtension_safe: "instr_safe I 1 0 opSignExtension"
proof (rule keeps_safe)
  fix c :: "'a vm" assume ok: "stk_ok c" and n: "1 \<le> sp c"
  show "\<exists>c'. opSignExtension c = Some c' \<and> stk_ok c' \<and> same_but_stack c c'"
  proof (cases "sp c = 1")
    case False
    then show ?thesis using ok n by (intro signext.keeps) simp_all
  next
    case True
    with ok obtain a hi where "stack c = a # hi" "in_range a"
      by (auto simp: stk_ok_def Suc_le_length_iff)
    then show ?thesis using True
      by (auto simp: opSignExtension_def stack_simps Let_def stk_ok_def same_but_stack_def)
  qed
qed

lemma opExp_safe: "instr_safe I 2 0 opExp"
proof (rule instr_safeI)
  fix c :: "'a vm"
  assume a: "vm_inv I c" "stk_ok c" "2 \<le> sp c" "0 \<le> ip c" "ip c < int (length (code c))" "\<not> stop c"
  then obtain x y ws where st: "astack c = x # y # ws"
    using length_astack [of c] by (metis Suc_le_length_iff numeral_2_eq_2)
  show "safe (opExp c) (post I 0 c)"
  proof (cases rule: opExp_effect [OF a(2) st])
    case (1 c')
    then obtain n g where "c' = vm_exit (Some ErrOutOfGas) (c\<lparr>sp := n, currentConsumedGas := g\<rparr>)" by blast
    with 1(2) show ?thesis using a(1) by (simp add: vm_inv_ok same_run_def)
  next
    case (2 c')
    then obtain g u s n where "c' = c\<lparr>currentConsumedGas := g, gas := u, stack := s, sp := n\<rparr>"
        and "unat u \<le> unat (gas c)"
      unfolding same_but_stack_def by (metis word_le_nat_alt word_sub_le)
    with 2(2,3) show ?thesis using a by (auto simp: post_simps)
  qed
qed

section \<open>Memory and halting\<close>

lemma opMStore_safe: "instr_safe I 2 0 opMStore"
proof (rule instr_safe2I)
  fix c :: "'a vm" and s a b hi
  assume a: "vm_inv I c" "stack c = rev s @ b # a # hi" "sp c = Suc (Suc (length s))" "in_range a"
    "in_range b" "\<forall>x \<in> set s. in_range x" "0 \<le> ip c" "ip c < int (length (code c))" "\<not> stop c"
  have put: "safe (put_words (Bits b) (buf, 32)) (\<lambda>(buf', i). length (zero_down i buf') = 32)"
    if "length buf = 32" for buf
    using put_words_value [OF a(5) that] by (metis (mono_tags, lifting) case_prodI safe_Some)
  show "safe (opMStore c) (post I 0 c)"
    using a(1-4,6-9)
    by (auto simp: opMStore_def step_simps post_simps IsUint64_unat go_slice_def
        intro!: step_rules safe_mono [OF put])
qed

lemma halting_safe: "instr_safe I 0 0 opStop" "instr_safe I 0 0 opJumpDest"
  by (rule instr_safe0I; auto simp: opStop_def opJumpDest_def post_simps)+

lemma opHalt_safe: "instr_safe I 2 k (opHalt op)"
  by (rule instr_safe2I)
    (auto simp: opHalt_def step_simps post_simps mem_limit_def intro!: step_rules)


section \<open>Copies\<close>

lemma set_memory_safe:
  assumes "unat o' + unat sz \<le> length (memory c)" and "length input < 2 ^ 62"
    and "\<And>m. length m = length (memory c) \<Longrightarrow> Q (c\<lparr>memory := m\<rparr>)"
  shows "safe (set_memory c o' input sz offset) Q"
proof -
  have "setBytes (drop (unat o') (memory c)) input sz offset =
      Some (padded input offset (unat sz) @ drop (unat sz) (drop (unat o') (memory c)))"
    using assms(1,2) by (intro setBytes_eq) simp_all
  then show ?thesis using assms(1)
    by (auto simp: set_memory_def go_slice_def safe_bind intro!: assms(3))
qed

lemma Uint64_zero: "IsUint64 x \<Longrightarrow> Uint64 x = 0 \<longleftrightarrow> x = 0"
  using uint_Uint64 [of x] by (auto simp: Uint64_def)

lemma opCallDataLoad_safe: "instr_safe I 1 0 opCallDataLoad"
  by (rule instr_safe1I)
    (auto simp: opCallDataLoad_def step_simps post_simps setBytes_eq contract_ok_def SetBytes_in_range)

lemmas copy_rules = step_rules set_memory_safe

lemma copy_safe: "instr_safe I 3 0 opCallDataCopy" "instr_safe I 3 0 opCodeCopy"
  by (rule instr_safe3I;
      auto simp: opCallDataCopy_def opCodeCopy_def step_simps post_simps contract_ok_def IsUint64_unat
        Uint64_zero intro!: copy_rules)+

lemma Uint64_end:
  assumes "IsUint64 a" and "IsUint64 z" and "nat a + nat z \<le> n" and "mem_ok n l"
  shows "unat (Uint64 a + Uint64 z) = nat a + nat z"
  using assms mem_ok_limit [OF assms(4)] by (subst unat_add_no_wrap) (simp_all add: IsUint64_unat)

lemma Uint64_le_length:
  assumes "IsUint64 e" and "length r < 2 ^ 62" and "\<not> of_nat (length r) < Uint64 e"
  shows "nat e \<le> length r"
  using assms by (simp add: not_less word_le_nat_alt unat_of_nat64 IsUint64_unat)

lemma return_copy_safe:
  assumes "IsUint64 a" "IsUint64 z" "nat a + nat z \<le> length m" "mem_ok (length m) l"
    "IsUint64 b" "IsUint64 (b + z)" "length r < 2 ^ 62" "\<not> of_nat (length r) < Uint64 (b + z)"
  shows "safe (go_slice r (nat b) (nat (b + z)))
     (\<lambda>x. safe (go_slice m (nat a) (unat (Uint64 a + Uint64 z)))
        (\<lambda>x. mem_ok (nat a + (length x + (length m - unat (Uint64 a + Uint64 z)))) l))"
proof -
  have "nat b \<le> nat (b + z)" using assms(2) by (simp add: IsUint64_def nat_mono)
  moreover have "nat (b + z) \<le> length r" by (rule Uint64_le_length [OF assms(6-8)])
  moreover have "min (length m - nat a) (nat z) = nat z" using assms(3) by simp
  ultimately show ?thesis
    using assms(3,4) Uint64_end [OF assms(1-4)] by (simp add: go_slice_def)
qed

lemma opReturnDataCopy_safe: "instr_safe I 3 0 opReturnDataCopy"
  by (rule instr_safe3I)
    (auto simp: opReturnDataCopy_def step_simps post_simps IsUint64_unat
      intro!: step_rules return_copy_safe)

section \<open>Jumps\<close>

lemma sint_Uint64_pred:
  assumes "0 \<le> d" and "d < 2 ^ 63"
  shows "sint (Uint64 d - 1) = d - 1"
proof -
  have "Uint64 d - 1 = (word_of_int (d - 1) :: uint64)" using assms by (simp add: Uint64_def wi_hom_sub)
  then have "sint (Uint64 d - 1) = signed_take_bit 63 (d - 1)" by (simp only: sint_sbintrunc') simp
  also have "\<dots> = d - 1" using assms by (intro signed_take_bit_int_eq_self) simp_all
  finally show ?thesis .
qed

lemma validJumpdest_eq:
  assumes "code_inv c" and "0 \<le> d"
  shows "validJumpdest c d = Some (jumpdest (code c) (nat d))"
proof (cases "d < int (length (code c))")
  case True
  then have small: "d < 2 ^ 62" and i: "nat d < length (code c)"
    using assms by (simp_all add: code_inv_def nat_less_iff)
  then have u: "IsUint64 d" and b: "\<not> 63 \<le> BitLen d"
    using assms(2) BitLen_le_iff [of d 62] by (auto simp: IsUint64_def)
  have "\<not> of_nat (length (code c)) \<le> Uint64 d"
    using assms(1) i u by (simp add: code_inv_def word_le_nat_alt unat_of_nat64 IsUint64_unat)
  then show ?thesis
    using b i u assms(1) by (simp add: validJumpdest_def Let_def IsUint64_unat code_inv_def)
next
  case False
  then have "\<not> jumpdest (code c) (nat d)" by (auto simp: jumpdest_def)
  moreover have "63 \<le> BitLen d \<or> of_nat (length (code c)) \<le> Uint64 d"
  proof (rule disjCI)
    assume "\<not> of_nat (length (code c)) \<le> Uint64 d"
    show "63 \<le> BitLen d"
    proof (rule ccontr)
      assume "\<not> 63 \<le> BitLen d"
      then have "d < 2 ^ 62" using assms(2) BitLen_le_iff [of d 62] by simp
      then have "IsUint64 d" using assms(2) by (simp add: IsUint64_def)
      then have "of_nat (length (code c)) \<le> Uint64 d"
        using False assms by (simp add: code_inv_def word_le_nat_alt unat_of_nat64 IsUint64_unat nat_le_iff)
      with \<open>\<not> of_nat (length (code c)) \<le> Uint64 d\<close> show False ..
    qed
  qed
  ultimately show ?thesis by (simp add: validJumpdest_def Let_def)
qed

lemma jump_to_eq:
  assumes "code_inv c" and "0 \<le> d"
  shows "jump_to c d = Some (if jumpdest (code c) (nat d) then c\<lparr>ip := d - 1\<rparr>
    else vm_exit (Some errInvalidJump) c)"
proof -
  have "d < 2 ^ 63" if "jumpdest (code c) (nat d)"
  proof -
    have "nat d < 2 ^ 62" using that assms(1) by (auto simp: jumpdest_def code_inv_def)
    then show ?thesis by (simp add: nat_less_iff assms(2))
  qed
  then show ?thesis using assms
    by (simp add: jump_to_def validJumpdest_eq sint_Uint64_pred)
qed

lemma code_inv_sp [simp]: "code_inv (c\<lparr>sp := n\<rparr>) = code_inv c"
  by (simp add: code_inv_def)

lemma code_inv_ip [simp]: "code_inv (c\<lparr>ip := n\<rparr>) = code_inv c"
  by (simp add: code_inv_def)

lemma in_range_nonneg: "in_range x \<Longrightarrow> 0 \<le> x" "in_range x \<Longrightarrow> - 1 < x"
  by (simp_all add: in_range_def)

lemma jump_safe: "instr_safe I 1 0 opJump" "instr_safe I 2 0 opJumpi"
proof -
  show "instr_safe I 1 0 opJump"
    by (rule instr_safe1I)
      (simp add: opJump_def step_simps vm_inv_ok post_def same_run_def stk_ok_def jump_to_eq
        in_range_nonneg)
  show "instr_safe I 2 0 opJumpi"
    by (rule instr_safe2I)
      (simp add: opJumpi_def step_simps vm_inv_ok post_def same_run_def stk_ok_def jump_to_eq
        in_range_nonneg)
qed


section \<open>The PUSH, DUP and SWAP families\<close>

lemma opPush_eq:
  assumes "0 \<le> ip c" and "ip c < int (length (code c))" and "sp c \<le> length (stack c)"
  obtains v where "opPush n c = Some (c\<lparr>stack := take (sp c) (stack c) @ v # drop (Suc (sp c)) (stack c),
      sp := Suc (sp c), ip := ip c + int n\<rparr>)"
    and "ip c + int n < int (length (code c)) \<Longrightarrow>
      v = SetBytes (take n (drop (nat (ip c) + 1) (code c)))"
proof -
  define v where "v = SetBytes (if length (code c) < nat (ip c) + 1 + n
    then drop (nat (ip c) + 1) (code c) @ replicate n 0 else take n (drop (nat (ip c) + 1) (code c)))"
  have i: "nat (ip c) < length (code c)" using assms by (simp add: nat_less_iff)
  have a: "assign (snd (push1 c)) (fst (push1 c)) v = stack_push c v"
    by (simp add: stack_push_def split: prod.split)
  have "opPush n c = do { c \<leftarrow> stack_push c v; Some (c\<lparr>ip := ip c + int n\<rparr>) }"
    using i unfolding a [symmetric]
    by (auto simp: opPush_def Let_def go_slice_def v_def split: prod.split)
  also have "\<dots> = Some (c\<lparr>stack := take (sp c) (stack c) @ v # drop (Suc (sp c)) (stack c),
      sp := Suc (sp c), ip := ip c + int n\<rparr>)"
    using assms(3) by (simp add: stack_push_eq)
  finally show thesis
    by (rule that) (use assms in \<open>auto simp: v_def\<close>)
qed

lemma opPush_safe:
  assumes "n \<le> 32"
  shows "instr_safe I 0 0 (opPush n)"
proof (rule instr_safe0I)
  fix c :: "'a vm"
  assume a: "vm_inv I c" "sp c \<le> length (stack c)" "\<forall>x \<in> set (take (sp c) (stack c)). in_range x"
    "0 \<le> ip c" "ip c < int (length (code c))" "\<not> stop c"
  obtain v where v: "opPush n c = Some (c\<lparr>stack := take (sp c) (stack c) @ v # drop (Suc (sp c)) (stack c),
      sp := Suc (sp c), ip := ip c + int n\<rparr>)"
    "ip c + int n < int (length (code c)) \<Longrightarrow> v = SetBytes (take n (drop (nat (ip c) + 1) (code c)))"
    using opPush_eq [OF a(4,5,2)] by blast
  have "in_range v" if "ip c + int n + 1 < int (length (code c))"
    using that assms v(2) by (simp add: SetBytes_in_range)
  then show "safe (opPush n c) (post I 0 c)"
    unfolding v(1) using a by (auto simp: post_simps)
qed

lemma live_nth:
  assumes "\<forall>x \<in> set (take n xs). P x" and "i < n" and "n \<le> length xs"
  shows "P (xs ! i)"
  using assms nth_mem [of i "take n xs"] by simp

lemma all_nth: "\<forall>x \<in> set xs. P x \<Longrightarrow> i < length xs \<Longrightarrow> P (xs ! i)"
  by simp

lemma opDup_safe:
  assumes "0 < n"
  shows "instr_safe I 0 0 (opDup n)"
  by (rule instr_safe0I)
    (use assms in \<open>auto simp: opDup_def stackAtLeast_def peekAt_def push1_def step_simps post_simps nth_append
      upd_conv_take_nth_drop intro: live_nth all_nth\<close>)

lemma opSwap_safe:
  assumes "0 < n"
  shows "instr_safe I 0 0 (opSwap n)"
  by (rule instr_safe0I)
    (use assms in \<open>auto simp: opSwap_def stackAtLeast_def stack_swap_def step_simps post_simps
      take_update_swap dest!: set_update_subset_insert [THEN subsetD] intro: live_nth\<close>)
end
