(* ===== verification/EVM_Host_Safety.thy ===== *)
theory EVM_Host_Safety
  imports EVM_Instr_Safety
begin

text \<open>
  The interface between the interpreter and its host as a locale, and the
  instructions that use the host: under the laws of the locale each of them
  returns, keeps the invariant of the host and never increases the gas.
\<close>

section \<open>What the interpreter needs of its host\<close>

text \<open>
  The laws of the host: \<open>I\<close> is an invariant of the host's state and \<open>D\<close> the depth of
  the running contract.  A call to a contract one level deeper returns, keeps the
  invariant, and hands back at most the gas it was given.  The gas of a call is
  taken to be below \<open>gas_cap\<close>: with more, the length of a modular exponent could
  pass the range of an \<open>int\<close>.
\<close>

abbreviation gas_cap :: nat where
  "gas_cap \<equiv> 2 ^ 61"

definition context_ok :: "TxContext \<Rightarrow> bool" where
  "context_ok t \<longleftrightarrow> 0 \<le> Timestamp t \<and> Timestamp t < 2 ^ 63 \<and> 0 \<le> Number t \<and> Number t < 2 ^ 63 \<and>
     0 \<le> GasLimit t \<and> GasLimit t < 2 ^ 63 \<and> (\<exists>b. BaseFee t = Some b \<and> in_range b)"

lemma instr_safe4I:
  assumes "\<And>c s a b z w hi. vm_inv J c \<Longrightarrow> stack c = rev s @ w # z # b # a # hi \<Longrightarrow>
      sp c = Suc (Suc (Suc (Suc (length s)))) \<Longrightarrow>
      in_range a \<Longrightarrow> in_range b \<Longrightarrow> in_range z \<Longrightarrow> in_range w \<Longrightarrow> \<forall>x \<in> set s. in_range x \<Longrightarrow> 0 \<le> ip c \<Longrightarrow>
      ip c < int (length (code c)) \<Longrightarrow> \<not> stop c \<Longrightarrow> safe (f c) (post J k c)"
  shows "instr_safe J 4 k f"
proof (rule instr_safeI)
  fix c :: "'a vm"
  assume a: "vm_inv J c" "stk_ok c" "4 \<le> sp c" "0 \<le> ip c" "ip c < int (length (code c))" "\<not> stop c"
  obtain s xs hi where *: "stack c = rev s @ rev xs @ hi" "sp c = length s + 4" "length xs = 4"
      "\<forall>x \<in> set s. in_range x" "\<forall>x \<in> set xs. in_range x"
    using a(2,3) by (rule stk_oknE)
  then obtain p q r t where "xs = [p, q, r, t]"
    by (auto simp: numeral_eq_Suc length_Suc_conv)
  with * a show "safe (f c) (post J k c)" by (intro assms [of c s t r q p hi]) auto
qed

lemma sstore_cost_pos:
  assumes "unat u + unat (sstore_cost f st) = n"
  shows "Suc (unat u) \<le> n"
proof -
  have "1 \<le> unat (sstore_cost f st)"
    by (auto simp: sstore_cost_def Let_def split: StorageStatus.split)
  with assms show ?thesis by simp
qed

lemma pop_topics_eq:
  "n \<le> sp c \<Longrightarrow> sp c \<le> length (stack c) \<Longrightarrow>
     \<exists>ts. pop_topics n c = Some (ts, c\<lparr>sp := sp c - n\<rparr>) \<and> length ts = n"
proof (induction n arbitrary: c)
  case 0
  then show ?case by simp
next
  case (Suc n)
  have "n \<le> sp (c\<lparr>sp := sp c - 1\<rparr>)" "sp (c\<lparr>sp := sp c - 1\<rparr>) \<le> length (stack (c\<lparr>sp := sp c - 1\<rparr>))"
    using Suc.prems by simp_all
  from Suc.IH [OF this] obtain ts
    where "pop_topics n (c\<lparr>sp := sp c - 1\<rparr>) = Some (ts, c\<lparr>sp := sp c - 1 - n\<rparr>)" "length ts = n"
    by auto
  with Suc.prems show ?case by (simp add: stack_pop_def deref_def)
qed

lemma live_take:
  assumes "\<forall>x \<in> set (take n xs). P x" and "m \<le> n"
  shows "\<forall>x \<in> set (take m xs). P x"
  using assms set_take_subset_set_take [of m n xs] by blast

locale evm_host =
  fixes E :: "'h Env" and I :: "'h \<Rightarrow> bool" and D :: int
  assumes balance: "I h \<Longrightarrow> in_range (GetBalance E h a)"
    and set_storage: "I h \<Longrightarrow> I (snd (SetStorage E h a k v f))"
    and code_size: "I h \<Longrightarrow> I (snd (GetCodeSize E h a))"
    and get_code: "I h \<Longrightarrow> I (snd (GetCode E h a))"
    and code_length: "I h \<Longrightarrow> length (fst (GetCode E h a)) < 2 ^ 62"
    and selfdestruct: "I h \<Longrightarrow> I (Selfdestruct E h a b)"
    and emit_log: "I h \<Longrightarrow> I (EmitLog E h a ts d)"
    and tx_context: "I h \<Longrightarrow> context_ok (GetTxContext E h)"
    and callx: "I h \<Longrightarrow> contract_ok ct \<Longrightarrow> Depth ct = D + 1 \<Longrightarrow> unat (Gas ct) < gas_cap \<Longrightarrow>
      \<exists>r h'. Callx E h ct = Some (r, h') \<and> I h' \<and> GasLeft r \<le> Gas ct \<and> length (ReturnValue r) < 2 ^ 62"
    and keccak: "length (Keccak256 E bs) = 32"
begin

lemma safe_GetCodeSize:
  assumes "I h" and "\<And>n h'. I h' \<Longrightarrow> safe (f n h') Q"
  shows "safe (case GetCodeSize E h a of (n, h') \<Rightarrow> f n h') Q"
  using assms code_size [OF assms(1), of a] by (simp add: case_prod_beta)

lemma safe_GetCode:
  assumes "I h" and "\<And>bs h'. I h' \<Longrightarrow> length bs < 2 ^ 62 \<Longrightarrow> safe (f bs h') Q"
  shows "safe (case GetCode E h a of (bs, h') \<Rightarrow> f bs h') Q"
  using assms get_code [OF assms(1), of a] code_length [OF assms(1), of a]
  by (simp add: case_prod_beta)

lemma safe_SetStorage:
  assumes "I h" and "\<And>st h'. I h' \<Longrightarrow> safe (f st h') Q"
  shows "safe (case SetStorage E h a k v cfg of (st, h') \<Rightarrow> f st h') Q"
  using assms set_storage [OF assms(1)] by (simp add: case_prod_beta)

lemmas host_rules = step_rules safe_GetCodeSize safe_GetCode safe_SetStorage

lemma in_range_context:
  assumes "I h"
  shows "in_range (Timestamp (GetTxContext E h))" and "in_range (Number (GetTxContext E h))"
    and "in_range (GasLimit (GetTxContext E h))"
    and "\<exists>b. BaseFee (GetTxContext E h) = Some b \<and> in_range b"
  using tx_context [OF assms] by (auto simp: context_ok_def in_range_def)

lemma context_push_safe:
  "instr_safe I 0 0 (opSelfBalance E)" "instr_safe I 0 0 (opChainID E)" "instr_safe I 0 0 (opOrigin E)"
  "instr_safe I 0 0 (opGasPrice E)" "instr_safe I 0 0 (opCoinbase E)" "instr_safe I 0 0 (opTimestamp E)"
  "instr_safe I 0 0 (opNumber E)" "instr_safe I 0 0 (opDifficulty E)" "instr_safe I 0 0 (opGasLimit E)"
  by (rule instr_safe0I;
      auto simp: opSelfBalance_def opChainID_def opOrigin_def opGasPrice_def opCoinbase_def opTimestamp_def
        opNumber_def opDifficulty_def opGasLimit_def step_simps post_simps balance in_range_context)+

lemma opBaseFee_safe: "instr_safe I 0 0 (opBaseFee E)"
proof (rule instr_safe0I)
  fix c :: "'h vm"
  assume a: "vm_inv I c" "sp c \<le> length (stack c)" "\<forall>x \<in> set (take (sp c) (stack c)). in_range x"
    "0 \<le> ip c" "ip c < int (length (code c))" "\<not> stop c"
  then obtain b where "BaseFee (GetTxContext E (host c)) = Some b" "in_range b"
    using in_range_context(4) by (auto simp: vm_inv_ok)
  with a show "safe (opBaseFee E c) (post I 0 c)"
    by (auto simp: opBaseFee_def step_simps post_simps)
qed

lemma opBlockHash_safe: "instr_safe I 1 0 (opBlockHash E)"
  by (rule instr_safe1I) (auto simp: opBlockHash_def step_simps post_simps)

lemma opSload_safe: "instr_safe I 1 1 (opSload E)"
  by (rule instr_safe1I) (auto simp: opSload_def step_simps post_simps intro!: step_rules)

lemma host_query_safe:
  "instr_safe I 1 1 (opBalance E)" "instr_safe I 1 1 (opExtCodeSize E)" "instr_safe I 1 1 (opExtCodeHash E)"
  by (rule instr_safe1I;
      auto simp: opBalance_def opExtCodeSize_def opExtCodeHash_def popAddr_def step_simps post_simps balance
        intro!: host_rules)+

lemma opSha3_safe: "instr_safe I 2 0 (opSha3 E)"
  by (rule instr_safe2I)
    (auto simp: opSha3_def step_simps post_simps keccak SetBytes_in_range intro!: step_rules)

lemma opSelfDestruct_safe: "instr_safe I 1 1 (opSelfDestruct E)"
  by (rule instr_safe1I)
    (auto simp: opSelfDestruct_def popAddr_def step_simps post_simps selfdestruct intro!: step_rules)
lemma opSStore_safe: "instr_safe I 2 1 (opSStore E)"
  by (rule instr_safe2I)
    (auto simp: opSStore_def popHash_def step_simps post_simps dest: sstore_cost_pos intro!: host_rules)

lemma opExtCodeCopy_safe: "instr_safe I 4 1 (opExtCodeCopy E)"
  by (rule instr_safe4I)
    (auto simp: opExtCodeCopy_def popAddr_def step_simps post_simps contract_ok_def IsUint64_unat
        Uint64_zero intro!: host_rules set_memory_safe)
lemma opLog_safe: "instr_safe I 0 0 (opLog E n)"
proof (rule instr_safe0I)
  fix c :: "'h vm"
  assume a: "vm_inv I c" "sp c \<le> length (stack c)" "\<forall>x \<in> set (take (sp c) (stack c)). in_range x"
    "0 \<le> ip c" "ip c < int (length (code c))" "\<not> stop c"
  show "safe (opLog E n c) (post I 0 c)"
  proof (cases "inStaticCall c \<or> \<not> stackAtLeast c (2 + (n - 1))")
    case True
    then show ?thesis using a(1) by (auto simp: opLog_def vm_inv_ok Let_def)
  next
    case False
    then have sp: "2 + (n - 1) \<le> sp c" by (simp add: stackAtLeast_def)
    let ?c = "c\<lparr>sp := sp c - Suc (Suc 0)\<rparr>"
    obtain m where m: "m = sp c - 2 - (n - 1)" by simp
    have "n - 1 \<le> sp ?c" "sp ?c \<le> length (stack ?c)" using sp a(2) by simp_all
    from pop_topics_eq [OF this] obtain ts where "pop_topics (n - 1) ?c = Some (ts, c\<lparr>sp := m\<rparr>)"
      by (auto simp: m)
    moreover have "m \<le> length (stack c)" using m a(2) by simp
    moreover have "\<forall>x \<in> set (take m (stack c)). in_range x"
      by (rule live_take [OF a(3)]) (simp add: m)
    moreover have "1 < sp c" "\<not> inStaticCall c" "stackAtLeast c (2 + (n - 1))" using False sp by simp_all
    ultimately show ?thesis using a(1,2,4-6)
      by (auto simp: opLog_def step_simps post_simps emit_log intro!: host_rules)
  qed
qed
end
end
