(* ===== verification/EVM_Call_Safety.thy ===== *)
theory EVM_Call_Safety
  imports EVM_Host_Safety
begin

text \<open>
  The safety of contract creation and of the message calls: the gas a call
  forwards, with the stipend, is always covered by what the caller paid, so the gas
  that comes back never exceeds what the caller had.
\<close>

text \<open>
  The state in which a call instruction hands over to the host: nothing but the
  stack, the memory, the host and the gas has changed.
\<close>

definition ready :: "('h \<Rightarrow> bool) \<Rightarrow> 'h vm \<Rightarrow> 'h vm \<Rightarrow> bool" where
  "ready I c c' \<longleftrightarrow> vm_inv I c' \<and> stk_ok c' \<and> same_run c c' \<and> ip c' = ip c \<and> stop c' = stop c"

lemma stk_ok4E:
  assumes "stk_ok c" and "4 \<le> sp c"
  obtains s a b z w hi where "stack c = rev s @ w # z # b # a # hi" and "sp c = Suc (Suc (Suc (Suc (length s))))"
    and "in_range a" and "in_range b" and "in_range z" and "in_range w" and "\<forall>x \<in> set s. in_range x"
proof -
  obtain s xs hi where *: "stack c = rev s @ rev xs @ hi" "sp c = length s + 4" "length xs = 4"
      "\<forall>x \<in> set s. in_range x" "\<forall>x \<in> set xs. in_range x"
    using assms by (rule stk_oknE)
  then obtain p q r t where "xs = [p, q, r, t]"
    by (auto simp: numeral_eq_Suc length_Suc_conv)
  with * show thesis using that [of s t r q p hi] by auto
qed

text \<open>Safety of an instruction for machines at call depth \<open>D\<close> with less than \<open>gas_cap\<close> gas.\<close>

definition safe_at :: "int \<Rightarrow> ('h \<Rightarrow> bool) \<Rightarrow> nat \<Rightarrow> nat \<Rightarrow> 'h instruction \<Rightarrow> bool" where
  "safe_at D I n k f \<longleftrightarrow>
     (\<forall>c. Depth (msg c) = D \<longrightarrow> unat (gas c) < gas_cap \<longrightarrow> vm_inv I c \<longrightarrow> stk_ok c \<longrightarrow> n \<le> sp c \<longrightarrow> 0 \<le> ip c \<longrightarrow>
        ip c < int (length (code c)) \<longrightarrow> \<not> stop c \<longrightarrow> safe (f c) (post I k c))"

lemma safe_atI:
  assumes "\<And>c. Depth (msg c) = D \<Longrightarrow> unat (gas c) < gas_cap \<Longrightarrow> vm_inv I c \<Longrightarrow> stk_ok c \<Longrightarrow> n \<le> sp c \<Longrightarrow> 0 \<le> ip c \<Longrightarrow>
    ip c < int (length (code c)) \<Longrightarrow> \<not> stop c \<Longrightarrow> safe (f c) (post I k c)"
  shows "safe_at D I n k f"
  using assms by (simp add: safe_at_def)

lemma instr_safe_at: "instr_safe I n k f \<Longrightarrow> safe_at D I n k f"
  by (simp add: instr_safe_def safe_at_def)

text \<open>What both call instructions do after the host returns.\<close>

lemma ready_return:
  assumes "ready I c c'" and "in_range v" and "\<not> stop c" and "0 \<le> ip c" and "I h"
    and "unat g + k \<le> unat (gas c)" and "length r < 2 ^ 62"
  shows "safe (stack_push (c'\<lparr>host := h\<rparr>) v)
    (\<lambda>x. post I k c (x\<lparr>gas := g, returnData := r\<rparr>) \<and> post I k c (x\<lparr>gas := g\<rparr>) \<and>
       memory x = memory c' \<and> lastGasCost x = lastGasCost c' \<and> gas x = gas c')"
  using assms by (auto simp: ready_def step_simps post_simps)

text \<open>The outcome of building the contract of a creation.\<close>

fun create_built :: "int \<Rightarrow> ('h \<Rightarrow> bool) \<Rightarrow> 'h vm \<Rightarrow> Contract build \<Rightarrow> 'h vm \<Rightarrow> bool" where
  "create_built D I c Build_stop c' \<longleftrightarrow> stop c' \<and> post I 0 c c'"
| "create_built D I c (Build_error ct e) c' \<longleftrightarrow>
     ct = None \<and> ready I c c' \<and> unat (gas c') \<le> unat (gas c)"
| "create_built D I c (Built ct) c' \<longleftrightarrow>
     ready I c c' \<and> contract_ok ct \<and> Depth ct = D + 1 \<and> unat (gas c') + unat (Gas ct) \<le> unat (gas c)"

lemma post_reset: "post I k (resetReturnData c) = post I k c"
  by (simp add: fun_eq_iff post_def same_run_def resetReturnData_def)

text \<open>The outcome of building the contract of a message call.\<close>

fun call_built ::
  "int \<Rightarrow> ('h \<Rightarrow> bool) \<Rightarrow> 'h vm \<Rightarrow> (Contract \<times> uint64 \<times> uint64) build \<Rightarrow> 'h vm \<Rightarrow> bool" where
  "call_built D I c Build_stop c' \<longleftrightarrow> stop c' \<and> post I 1 c c'"
| "call_built D I c (Build_error ct e) c' \<longleftrightarrow>
     (\<exists>k. ct = Some k \<and> ready I c c' \<and> unat (gas c') + unat (Gas k) + 1 \<le> unat (gas c))"
| "call_built D I c (Built (ct, offset, sz)) c' \<longleftrightarrow>
     ready I c c' \<and> contract_ok ct \<and> Depth ct = D + 1 \<and>
     unat (gas c') + unat (Gas ct) + 1 \<le> unat (gas c) \<and>
     (0 < sz \<longrightarrow> unat offset + unat sz \<le> length (memory c'))"

lemma call_base_cost_ge:
  "40 \<le> unat (call_base_cost E op c addr tv)" "tv \<Longrightarrow> 9040 \<le> unat (call_base_cost E op c addr tv)"
  by (simp_all add: call_base_cost_def)

lemma call_gas_accounting:
  assumes "SafeAddUint64 (call_base_cost E op c addr tv) g = (t, False)" and "unat u + unat t \<le> n"
  shows "unat u + unat (if tv then g + 2300 else g) + 1 \<le> n"
proof -
  have t: "unat t = unat (call_base_cost E op c addr tv) + unat g"
    using assms(1) SafeAddUint64_spec [of "call_base_cost E op c addr tv" g]
    by (auto split: if_splits intro: unat_add_no_wrap)
  have "unat (g + 2300) \<le> unat g + 2300" using unat_plus_simple by (simp add: unat_word_ariths)
  then show ?thesis
    using assms(2) t call_base_cost_ge(1) [of E op c addr tv]
      call_base_cost_ge(2) [of tv E op c addr] by auto
qed

lemma call_contract_simps [simp]:
  "Depth (call_contract op m addr v g cd args) = Depth m + 1"
  "Gas (call_contract op m addr v g cd args) = g"
  "Code (call_contract op m addr v g cd args) = cd"
  "Input (call_contract op m addr v g cd args) = args"
  "Value (call_contract op m addr v g cd args) = (if op = OP_DELEGATECALL then Value m else v)"
  by (simp_all add: call_contract_def Let_def NewContractCall_def NewContract_def)

section \<open>Creation\<close>

context evm_host
begin

lemma build_create_safe:
  assumes inv: "vm_inv I c" and ok: "stk_ok c" and sp: "(if op = OP_CREATE2 then 4 else 3) \<le> sp c"
    and run: "\<not> stop c" and D: "Depth (msg c) = D" and op: "op = OP_CREATE \<or> op = OP_CREATE2"
  shows "safe (buildCreateContract E op c) (\<lambda>(b, c'). create_built D I c b c')"
proof (cases "op = OP_CREATE2")
  case False
  with sp have "3 \<le> sp c" by simp
  with ok obtain s a b z hi where *: "stack c = rev s @ z # b # a # hi" "sp c = Suc (Suc (Suc (length s)))"
    "in_range a" "in_range b" "in_range z" "\<forall>x \<in> set s. in_range x"
    by (rule stk_ok3E)
  show ?thesis
    using inv run D * False op
    by (auto simp: buildCreateContract_def step_simps post_simps ready_def contract_ok_def
        NewContractCreation_def NewContract_def mem_limit_def intro!: host_rules)
next
  case True
  with sp have "4 \<le> sp c" by simp
  with ok obtain s a b z w hi where *: "stack c = rev s @ w # z # b # a # hi"
    "sp c = Suc (Suc (Suc (Suc (length s))))"
    "in_range a" "in_range b" "in_range z" "in_range w" "\<forall>x \<in> set s. in_range x"
    by (rule stk_ok4E)
  show ?thesis
    using inv run D * True
    by (auto simp: buildCreateContract_def step_simps post_simps ready_def contract_ok_def
        NewContractCreation_def NewContract_def mem_limit_def intro!: host_rules)
qed

lemma finish_create_safe:
  assumes r: "ready I c c'" and c: "\<not> stop c" "0 \<le> ip c" "unat (gas c) < gas_cap"
    and ct: "contract_ok ct" "Depth ct = D + 1" "unat (gas c') + unat (Gas ct) \<le> unat (gas c)"
  shows "safe (finish_create E op (Built ct) c') (post I 0 c)"
proof -
  let ?ct = "ct\<lparr>Type := Create\<rparr>"
  have I: "I (host c')" using r by (simp add: ready_def vm_inv_ok)
  obtain res h where call: "Callx E (host c') ?ct = Some (res, h)" "I h" "GasLeft res \<le> Gas ?ct"
      "length (ReturnValue res) < 2 ^ 62"
    using callx [OF I, of ?ct] ct c(3) by (auto simp: contract_ok_def)
  have le: "unat (gas c') + unat (GasLeft res) \<le> unat (gas c)"
    using ct(3) call(3) by (simp add: word_le_nat_alt)
  then have g: "unat (gas c' + GasLeft res) = unat (gas c') + unat (GasLeft res)"
    using unat_less_2p64 [of "gas c"] by (intro unat_add_no_wrap) linarith
  show ?thesis
    using call r c le unfolding finish_create_def
    by (auto simp: Let_def safe_bind stack_push_eq ready_def post_simps g)
qed

lemma create_built_safe:
  assumes "create_built D I c b c'" and "\<not> stop c" "0 \<le> ip c" "unat (gas c) < gas_cap"
  shows "safe (finish_create E op b c') (post I 0 c)"
proof (cases b)
  case (Built ct)
  then show ?thesis using assms finish_create_safe by simp
next
  case Build_stop
  then show ?thesis using assms by (simp add: finish_create_def)
next
  case (Build_error ct e)
  then show ?thesis using assms
    by (auto simp: finish_create_def safe_bind stack_push_eq ready_def post_simps)
qed

lemma opCreate_safe:
  assumes op: "op = OP_CREATE \<or> op = OP_CREATE2"
  shows "safe_at D I (if op = OP_CREATE2 then 4 else 3) 0 (opCreate E op)"
proof (rule safe_atI)
  fix c :: "'h vm"
  assume g: "unat (gas c) < gas_cap" and a: "Depth (msg c) = D" "vm_inv I c" "stk_ok c" "(if op = OP_CREATE2 then 4 else 3) \<le> sp c"
    "0 \<le> ip c" "ip c < int (length (code c))" "\<not> stop c"
  let ?c = "resetReturnData c"
  have pre: "vm_inv I ?c" "stk_ok ?c" "(if op = OP_CREATE2 then 4 else 3) \<le> sp ?c" "\<not> stop ?c"
      "Depth (msg ?c) = D" and ip: "0 \<le> ip ?c" "unat (gas ?c) < gas_cap"
    using a g by (auto simp: resetReturnData_def vm_inv_ok code_inv_def stk_ok_def)
  have "safe (buildCreateContract E op ?c \<bind> (\<lambda>(b, c'). finish_create E op b c')) (post I 0 ?c)"
    unfolding safe_bind
    by (rule safe_mono [OF build_create_safe [OF pre op]])
      (use create_built_safe pre(4) ip in auto)
  then show "safe (opCreate E op c) (post I 0 c)"
    using a(2) by (auto simp: opCreate_def vm_inv_ok post_reset)
qed



lemma charge_call_safe:
  assumes r: "ready I c c'" and g: "unat (gas c') \<le> unat (gas c)" and D: "Depth (msg c) = D"
    and v: "\<forall>x. val = Some x \<longrightarrow> in_range x" and args: "length args < 2 ^ 62"
    and m: "0 < sz \<longrightarrow> unat offset + unat sz \<le> length (memory c')"
  shows "call_built D I c (fst (charge_call E op addr val ig args offset sz c'))
    (snd (charge_call E op addr val ig args offset sz c'))"
proof -
  let ?tv = "transfers_value op val"
  let ?cost = "call_base_cost E op c' addr ?tv"
  have I: "I (host c')" and cok: "contract_ok (msg c)" and msg: "msg c' = msg c"
    using r by (auto simp: ready_def vm_inv_ok same_run_def)
  obtain cd h where code: "GetCode E (host c') addr = (cd, h)" by fastforce
  have h: "I h" and cd: "length cd < 2 ^ 62"
    using get_code [OF I, of addr] code_length [OF I, of addr] code by simp_all
  show ?thesis
  proof (cases "call_gas (config c') (gas c') ?cost ig")
    case None
    then show ?thesis using r g
      by (simp add: charge_call_def Let_def ready_def vm_inv_ok same_run_def)
  next
    case (Some gg)
    obtain t o' where add: "SafeAddUint64 ?cost gg = (t, o')" by fastforce
    show ?thesis
    proof (cases o')
      case True
      then show ?thesis using r g Some add
        by (simp add: charge_call_def Let_def ready_def vm_inv_ok same_run_def)
    next
      case False
      show ?thesis
      proof (cases rule: consumeGas_cases [of c' t])
        case out
        then show ?thesis using r g Some add False
          by (simp add: charge_call_def Let_def ready_def vm_inv_ok same_run_def)
      next
        case ok
        have "unat (gas c' - t) + unat t \<le> unat (gas c)"
          using ok(1) g by (simp add: unat_sub_le word_le_nat_alt)
        moreover have "SafeAddUint64 ?cost gg = (t, False)" using add False by simp
        ultimately have acc: "unat (gas c' - t) + unat (if ?tv then gg + 2300 else gg) + 1 \<le> unat (gas c)"
          by (rule call_gas_accounting [rotated])
        show ?thesis using r Some add False ok(2) code h cd acc m v args cok D msg
          by (auto simp: charge_call_def Let_def ready_def vm_inv_ok same_run_def contract_ok_def
              code_inv_def stk_ok_def)
      qed
    qed
  qed
qed

lemma build_call_safe:
  assumes inv: "vm_inv I c" and ok: "stk_ok c" and run: "\<not> stop c" and D: "Depth (msg c) = D"
    and sp: "(if op = OP_CALL \<or> op = OP_CALLCODE then 7 else 6) \<le> sp c"
  shows "safe (buildCallContract E op c) (\<lambda>p. call_built D I c (fst p) (snd p))"
proof (cases "op = OP_CALL \<or> op = OP_CALLCODE")
  case True
  with sp have "7 \<le> sp c" by simp
  with ok obtain s xs hi where *: "stack c = rev s @ rev xs @ hi" "sp c = length s + 7" "length xs = 7"
      "\<forall>x \<in> set s. in_range x" "\<forall>x \<in> set xs. in_range x"
    by (rule stk_oknE)
  then obtain a1 a2 a3 a4 a5 a6 a7 where xs: "xs = [a1, a2, a3, a4, a5, a6, a7]"
    by (auto simp: numeral_eq_Suc length_Suc_conv)
  have st: "stack c = rev s @ a7 # a6 # a5 # a4 # a3 # a2 # a1 # hi"
      "sp c = Suc (Suc (Suc (Suc (Suc (Suc (Suc (length s)))))))" "in_range a3"
    using * by (simp_all add: xs)
  show ?thesis
    using inv run st *(4) True
    by (auto simp: buildCallContract_def popAddr_def step_simps post_simps ready_def mem_limit_def
        IsUint64_unat word_neq_0_conv [symmetric] Uint64_zero nth_append intro!: host_rules charge_call_safe D)
next
  case False
  with sp have "6 \<le> sp c" by simp
  with ok obtain s xs hi where *: "stack c = rev s @ rev xs @ hi" "sp c = length s + 6" "length xs = 6"
      "\<forall>x \<in> set s. in_range x" "\<forall>x \<in> set xs. in_range x"
    by (rule stk_oknE)
  then obtain a1 a2 a3 a4 a5 a6 where xs: "xs = [a1, a2, a3, a4, a5, a6]"
    by (auto simp: numeral_eq_Suc length_Suc_conv)
  have st: "stack c = rev s @ a6 # a5 # a4 # a3 # a2 # a1 # hi"
      "sp c = Suc (Suc (Suc (Suc (Suc (Suc (length s))))))"
    using * by (simp_all add: xs)
  show ?thesis
    using inv run st *(4) False
    by (auto simp: buildCallContract_def popAddr_def step_simps post_simps ready_def mem_limit_def
        IsUint64_unat word_neq_0_conv [symmetric] Uint64_zero nth_append intro!: host_rules charge_call_safe D)
qed

lemma finish_call_safe:
  assumes r: "ready I c c'" and c: "\<not> stop c" "0 \<le> ip c" "unat (gas c) < gas_cap"
    and ct: "contract_ok ct" "Depth ct = D + 1" "unat (gas c') + unat (Gas ct) + 1 \<le> unat (gas c)"
    and m: "0 < sz \<longrightarrow> unat offset + unat sz \<le> length (memory c')"
  shows "safe (finish_call E ty (Built (ct, offset, sz)) c') (post I 1 c)"
proof -
  let ?ct = "ct\<lparr>Type := ty\<rparr>"
  have I: "I (host c')" and mem: "mem_ok (length (memory c')) (lastGasCost c')"
    using r by (simp_all add: ready_def vm_inv_ok)
  obtain res h where call: "Callx E (host c') ?ct = Some (res, h)" "I h" "GasLeft res \<le> Gas ?ct"
      "length (ReturnValue res) < 2 ^ 62"
    using callx [OF I, of ?ct] ct c(3) by (auto simp: contract_ok_def)
  have le: "unat (gas c') + unat (GasLeft res) + 1 \<le> unat (gas c)"
    using ct(3) call(3) by (simp add: word_le_nat_alt)
  then have g: "unat (gas c' + GasLeft res) = unat (gas c') + unat (GasLeft res)"
    using unat_less_2p64 [of "gas c"] by (intro unat_add_no_wrap) linarith
  have os: "unat (offset + sz) = unat offset + unat sz" if "0 < sz"
    using that m mem_ok_limit [OF mem] by (intro unat_add_no_wrap) simp
  have copied: "safe (copy_memory x offset sz bs) Q"
    if "0 < sz" and "memory x = memory c'" and "\<And>m. length m = length (memory c') \<Longrightarrow> Q (x\<lparr>memory := m\<rparr>)"
    for x :: "'h vm" and bs Q
    using that m os by (auto simp: copy_memory_def go_slice_def safe_bind)
  show ?thesis
    using call r c le unfolding finish_call_def
    by (auto simp: Let_def safe_bind stack_push_eq ready_def post_simps g intro!: copied)
qed

lemma call_built_safe:
  assumes "call_built D I c b c'" and "\<not> stop c" "0 \<le> ip c" "unat (gas c) < gas_cap"
  shows "safe (finish_call E ty b c') (post I 1 c)"
proof (cases b)
  case (Built x)
  then show ?thesis using assms finish_call_safe by (cases x) simp
next
  case Build_stop
  then show ?thesis using assms by (simp add: finish_call_def)
next
  case (Build_error ct e)
  then obtain k where k: "ct = Some k" "ready I c c'" "unat (gas c') + unat (Gas k) + 1 \<le> unat (gas c)"
    using assms by auto
  then have "unat (gas c' + Gas k) = unat (gas c') + unat (Gas k)"
    using unat_less_2p64 [of "gas c"] by (intro unat_add_no_wrap) linarith
  then show ?thesis using assms k Build_error
    by (auto simp: finish_call_def safe_bind stack_push_eq ready_def post_simps)
qed

lemma opCall_safe:
  assumes op: "call_type op = Some ty" and n: "n = (if op = OP_CALL \<or> op = OP_CALLCODE then 7 else 6)"
  shows "safe_at D I n 1 (opCall E op)"
proof (rule safe_atI)
  fix c :: "'h vm"
  assume g: "unat (gas c) < gas_cap" and a: "Depth (msg c) = D" "vm_inv I c" "stk_ok c" "n \<le> sp c"
    "0 \<le> ip c" "ip c < int (length (code c))" "\<not> stop c"
  let ?c = "resetReturnData c"
  have pre: "vm_inv I ?c" "stk_ok ?c" "\<not> stop ?c" "Depth (msg ?c) = D"
      "(if op = OP_CALL \<or> op = OP_CALLCODE then 7 else 6) \<le> sp ?c" and ip: "0 \<le> ip ?c" "unat (gas ?c) < gas_cap"
    using a g n by (auto simp: resetReturnData_def vm_inv_ok code_inv_def stk_ok_def)
  have "safe (buildCallContract E op ?c \<bind> (\<lambda>(b, c'). finish_call E ty b c')) (post I 1 ?c)"
    unfolding safe_bind
    by (rule safe_mono [OF build_call_safe [OF pre]])
      (use call_built_safe pre(3) ip in auto)
  moreover have "3 \<le> sp ?c" "sp ?c \<le> length (stack ?c)" using pre(2,5) by (auto simp: stk_ok_def split: if_splits)
  ultimately have "safe (opCall E op c) (post I 1 ?c)"
    using pre(1) op by (auto simp: opCall_def Let_def safe_bind vm_inv_ok peekAt_def deref_def)
  then show "safe (opCall E op c) (post I 1 c)" by (simp add: post_reset)
qed

end

end
