(* ===== verification/EVM_Run_Safety.thy ===== *)
theory EVM_Run_Safety
  imports EVM_Call_Safety
begin

text \<open>
  The interpreter as a whole: every entry of the dispatch table is safe, an
  iteration of the loop keeps the invariant and either stops or consumes gas, and
  so the loop ends within \<open>gas + 1\<close> iterations without a panic.
\<close>

section \<open>Every registered instruction is safe\<close>

text \<open>
  A handler is safe when its instruction is, for the stack size the loop checks,
  and when the iteration costs at least one unit of gas unless it halts.
\<close>

definition handler_safe :: "int \<Rightarrow> ('h \<Rightarrow> bool) \<Rightarrow> 'h handler \<Rightarrow> bool" where
  "handler_safe D I h \<longleftrightarrow> (\<exists>k. safe_at D I (stack_req h) k (inst h) \<and> 1 \<le> k + unat (gas_req h))"

lemma handler_safeI:
  "safe_at D I n k f \<Longrightarrow> 1 \<le> k + unat g \<Longrightarrow> handler_safe D I \<lparr>inst = f, stack_req = n, gas_req = g\<rparr>"
  by (auto simp: handler_safe_def)

lemma range_entries_mem:
  "(op, h) \<in> set (range_entries n i f g c) \<Longrightarrow>
     \<exists>m. c \<le> m \<and> m < c + n \<and> h = \<lparr>inst = f m, stack_req = 0, gas_req = g\<rparr>"
proof (induction n arbitrary: i c)
  case 0
  then show ?case by simp
next
  case (Suc n)
  show ?case
  proof (cases "(op, h) \<in> set (range_entries n (i + 1) f g (Suc c))")
    case True
    from Suc.IH [OF this] show ?thesis by (metis Suc_leD add_Suc_right add_Suc)
  next
    case False
    then have "h = \<lparr>inst = f c, stack_req = 0, gas_req = g\<rparr>" using Suc.prems by simp
    then show ?thesis by (intro exI [of _ c]) simp
  qed
qed

lemma range_safe:
  assumes "(op, h) \<in> set (registerRange a b f g)" and "1 \<le> unat g"
    and "\<And>m. 1 \<le> m \<Longrightarrow> m \<le> unat b + 1 - unat a \<Longrightarrow> instr_safe I 0 0 (f m)"
  shows "handler_safe D I h"
proof -
  obtain m where "1 \<le> m" "m < 1 + (unat b + 1 - unat a)" "h = \<lparr>inst = f m, stack_req = 0, gas_req = g\<rparr>"
    using range_entries_mem assms(1) unfolding registerRange_def by metis
  with assms(2) assms(3) [of m] show ?thesis
    by (auto intro!: handler_safeI instr_safe_at)
qed

section \<open>Fuel\<close>

text \<open>More fuel does not change the result.\<close>

lemma run_loop_more:
  "run_loop E n c = Some c' \<Longrightarrow> n \<le> m \<Longrightarrow> run_loop E m c = Some c'"
proof (induction n arbitrary: c m)
  case 0
  then show ?case by (cases m) (auto split: if_splits)
next
  case (Suc n)
  then obtain m' where m: "m = Suc m'" "n \<le> m'" by (cases m) auto
  show ?case
  proof (cases "stop c")
    case True
    then show ?thesis using Suc.prems m by simp
  next
    case False
    then obtain d b where d: "run_step E c = Some (d, b)" using Suc.prems by (cases "run_step E c") auto
    show ?thesis using False d Suc.prems Suc.IH [of d m'] m by (auto split: if_splits)
  qed
qed

section \<open>The invariant of the loop\<close>

definition loop_inv :: "int \<Rightarrow> ('h \<Rightarrow> bool) \<Rightarrow> 'h vm \<Rightarrow> bool" where
  "loop_inv D I c \<longleftrightarrow> Depth (msg c) = D \<and> unat (gas c) < gas_cap \<and> I (host c) \<and> length (ret c) < 2 ^ 62 \<and>
     (\<not> stop c \<longrightarrow> vm_inv I c \<and> 0 \<le> ip c \<and> (ip c < int (length (code c)) \<longrightarrow> stk_ok c))"

text \<open>One iteration: the machine keeps the invariant, and it stops or pays for going on.\<close>

definition step_ok :: "int \<Rightarrow> ('h \<Rightarrow> bool) \<Rightarrow> 'h vm \<Rightarrow> 'h vm \<times> bool \<Rightarrow> bool" where
  "step_ok D I c p \<longleftrightarrow> (case p of (c', continue) \<Rightarrow>
     loop_inv D I c' \<and> same_run c c' \<and> unat (gas c') \<le> unat (gas c) \<and>
     (continue \<longrightarrow> sp c' \<le> stackSize) \<and>
     (if continue then stop c' \<or> unat (gas c') < unat (gas c) else stop c'))"

lemma step_ok_halt:
  assumes "loop_inv D I c" and "\<not> stop c"
  shows "step_ok D I c (vm_exit (Some e) c, False)" and "step_ok D I c (Halt c, False)"
  using assms by (simp_all add: step_ok_def loop_inv_def same_run_def)

context evm_host
begin

lemmas plain_safe = op2_safe op1_op3_safe shift_safe opSignExtension_safe opExp_safe opMStore_safe
  opMload_safe opMStore8_safe opPop_safe push_ops_safe opCallDataLoad_safe copy_safe
  opReturnDataCopy_safe jump_safe halting_safe(2)

lemmas hosted_safe = context_push_safe opBaseFee_safe opBlockHash_safe opSha3_safe

lemmas charging_safe = opSload_safe host_query_safe opSStore_safe opSelfDestruct_safe opExtCodeCopy_safe

lemma stop_safe: "instr_safe I 0 1 opStop"
  by (rule instr_safe0I) (auto simp: opStop_def vm_inv_ok)

lemma create_call_safe:
  "safe_at D I 3 0 (opCreate E OP_CREATE)" "safe_at D I 4 0 (opCreate E OP_CREATE2)"
  "safe_at D I 7 1 (opCall E OP_CALL)" "safe_at D I 7 1 (opCall E OP_CALLCODE)"
  "safe_at D I 6 1 (opCall E OP_DELEGATECALL)" "safe_at D I 6 1 (opCall E OP_STATICCALL)"
  using opCreate_safe [of OP_CREATE] opCreate_safe [of OP_CREATE2]
  by (simp_all add: opCall_safe [simplified] call_type_def)

lemmas entry_rules =
  plain_safe [THEN instr_safe_at] hosted_safe [THEN instr_safe_at] charging_safe [THEN instr_safe_at]
  stop_safe [THEN instr_safe_at] opHalt_safe [where k = 1, THEN instr_safe_at] create_call_safe

lemma entry_safe: "(op, h) \<in> set (dispatch_init E) \<Longrightarrow> handler_safe D I h"
proof -
  assume "(op, h) \<in> set (dispatch_init E)"
  moreover have "list_all (\<lambda>(op, h). handler_safe D I h) (dispatch_init E)"
    unfolding dispatch_init_def list_all_append list.pred_inject prod.case
    apply (intro conjI TrueI)
    apply ((rule handler_safeI, rule entry_rules, simp; fail) |
      (auto simp: list_all_iff intro!: range_safe opPush_safe opDup_safe opSwap_safe opLog_safe; fail))+
    done
  ultimately show ?thesis by (auto simp: list_all_iff)
qed

lemma handler_step:
  assumes inv: "loop_inv D I c" "\<not> stop c" "ip c < int (length (code c))"
    and h: "handler_safe D I h" and sp: "stack_req h \<le> sp c"
    and u: "unat u + unat (gas_req h) = unat (gas c)"
  shows "safe (inst h (c\<lparr>currentConsumedGas := g, gas := u\<rparr>)) (\<lambda>c'.
    (stackSize < sp c' \<longrightarrow> (\<forall>e. step_ok D I c (vm_exit (Some e) c', False))) \<and>
    (sp c' \<le> stackSize \<longrightarrow> step_ok D I c (c'\<lparr>ip := ip c' + 1\<rparr>, True)))"
proof -
  let ?c = "c\<lparr>currentConsumedGas := g, gas := u\<rparr>"
  obtain k where k: "safe_at D I (stack_req h) k (inst h)" "1 \<le> k + unat (gas_req h)"
    using h by (auto simp: handler_safe_def)
  have "safe (inst h ?c) (post I k ?c)"
    using k(1) inv sp u unfolding safe_at_def
    by (elim allE [of _ ?c]) (auto simp: loop_inv_def frame_simps vm_inv_ok code_inv_def)
  then show ?thesis
  proof (rule safe_mono)
    fix c' assume p: "post I k ?c c'"
    then show "(stackSize < sp c' \<longrightarrow> (\<forall>e. step_ok D I c (vm_exit (Some e) c', False))) \<and>
        (sp c' \<le> stackSize \<longrightarrow> step_ok D I c (c'\<lparr>ip := ip c' + 1\<rparr>, True))"
      using inv u k(2)
      by (auto simp: step_ok_def post_def loop_inv_def same_run_def vm_inv_ok code_inv_def frame_simps)
  qed
qed

lemma run_step_safe:
  assumes inv: "loop_inv D I c" "\<not> stop c"
  shows "safe (run_step E c) (step_ok D I c)"
proof (cases "ip c < int (length (code c))")
  case False
  then show ?thesis using step_ok_halt [OF inv] by (simp add: run_step_def CurrentOpCode_def)
next
  case True
  have ip: "0 \<le> ip c" using inv by (simp add: loop_inv_def)
  let ?op = "code c ! nat (ip c)"
  show ?thesis
  proof (cases "dispatchTable E ?op")
    case None
    then show ?thesis using True ip step_ok_halt [OF inv] by (simp add: run_step_def CurrentOpCode_def)
  next
    case (Some h)
    then have h: "handler_safe D I h"
      unfolding dispatchTable_def by (blast intro: entry_safe dest: map_of_SomeD)
    have out: "step_ok D I c (vm_exit (Some ErrOutOfGas)
        (vm_exit (Some ErrOutOfGas) (c\<lparr>currentConsumedGas := g\<rparr>)), False)" for g
      using inv by (simp add: step_ok_def loop_inv_def same_run_def)
    show ?thesis
      using Some True ip step_ok_halt(1) [OF inv] out
      by (auto simp: run_step_def CurrentOpCode_def Let_def safe_bind not_less
          intro!: step_rules safe_mono [OF handler_step [OF inv True h]])
  qed
qed

text \<open>The loop ends within \<open>gas + 1\<close> iterations and does not panic.\<close>

lemma run_loop_safe:
  assumes "loop_inv D I c" and "unat (gas c) < n"
  shows "safe (run_loop E n c) (\<lambda>c'. stop c' \<and> loop_inv D I c' \<and> same_run c c' \<and>
    unat (gas c') \<le> unat (gas c))"
  using assms
proof (induction n arbitrary: c)
  case 0
  then show ?case by simp
next
  case (Suc n)
  show ?case
  proof (cases "stop c")
    case True
    then show ?thesis using Suc.prems by simp
  next
    case False
    have "safe (if continue then run_loop E n c' else Some c') (\<lambda>c'. stop c' \<and> loop_inv D I c' \<and>
        same_run c c' \<and> unat (gas c') \<le> unat (gas c))"
      if "step_ok D I c (c', continue)" for c' continue
    proof (cases "continue \<and> \<not> stop c'")
      case True
      then have "unat (gas c') < n" "loop_inv D I c'" "same_run c c'" "unat (gas c') \<le> unat (gas c)"
        using that Suc.prems by (auto simp: step_ok_def)
      then show ?thesis using Suc.IH [of c'] True
        by (auto elim!: safe_mono simp: same_run_def)
    next
      case False
      then show ?thesis using that by (cases n) (auto simp: step_ok_def)
    qed
    then show ?thesis
      using False safe_mono [OF run_step_safe [OF Suc.prems(1) False]]
      by (simp add: safe_bind case_prod_beta')
  qed
qed

lemma EVM_Run_safe:
  assumes ct: "contract_ok ct" "Depth ct = D" "unat (Gas ct) < gas_cap" and I: "I h"
  shows "\<exists>r h'. EVM_Run E (vm_reset st) ct h f = Some (r, h') \<and> I h' \<and>
    GasLeft r \<le> Gas ct \<and> GasUsed r = Gas ct - GasLeft r \<and> length (ReturnValue r) < 2 ^ 62 \<and>
    (Err r \<noteq> None \<longrightarrow> Err r \<noteq> Some ErrExecutionReverted \<longrightarrow> GasLeft r = 0)"
proof -
  obtain buf where buf: "bm_setCode [] (Code ct) = Some buf"
      "\<And>i. i < length (Code ct) \<Longrightarrow> bm_isSet buf i = Some (jumpdest (Code ct) i)"
    using bm_setCode_correct [of "Code ct"] by metis
  let ?c = "(resetReturnData (vm_reset st))\<lparr>msg := ct, code := Code ct, gas := Gas ct, host := h,
    config := f, bitmap := buf\<rparr>"
  have "loop_inv D I ?c"
    using ct I buf(2)
    by (auto simp: loop_inv_def vm_reset_def resetReturnData_def vm_inv_ok mem_ok_def code_inv_def
        stk_ok_def contract_ok_def Cmem_def)
  then have "safe (run_loop E (unat (Gas ct) + 1) ?c) (\<lambda>c'. stop c' \<and> loop_inv D I c' \<and>
      same_run ?c c' \<and> unat (gas c') \<le> unat (gas ?c))"
    by (rule run_loop_safe) simp
  then obtain c' where run: "run_loop E (unat (Gas ct) + 1) ?c = Some c'" "loop_inv D I c'"
      "unat (gas c') \<le> unat (Gas ct)"
    by (auto simp: safe_iff)
  moreover have "bitmap (vm_reset st) = []" by (simp add: vm_reset_def bm_reset_def)
  ultimately show ?thesis
    using buf(1)
    by (auto simp: EVM_Run_def state_Run_def resetReturnData_def no_result_def loop_inv_def Let_def
        word_le_nat_alt)
qed
end

end
