(* ===== verification/EVM_Dispatch.thy ===== *)
theory EVM_Dispatch
  imports EVM_Run
begin

text \<open>
  The dispatch table: no opcode is registered twice, so initialisation does not
  panic and a lookup finds the handler of the registration.
\<close>

lemma fst_range_entries:
  "map fst (range_entries n i f g c) = map (\<lambda>k. i + of_nat k) [0..<n]"
proof (induction n arbitrary: i c)
  case 0
  then show ?case by simp
next
  case (Suc n)
  have "map (\<lambda>k. i + of_nat k) [0..<Suc n] = i # map (\<lambda>k. i + 1 + of_nat k) [0..<n]"
    by (simp only: upt_conv_Cons map_Suc_upt [symmetric] zero_less_Suc) (simp add: o_def add.assoc)
  with Suc show ?case by simp
qed

definition op_range :: "byte \<Rightarrow> byte \<Rightarrow> byte list" where
  "op_range a b = map (\<lambda>k. a + of_nat k) [0..<unat b + 1 - unat a]"

lemma fst_registerRange: "map fst (registerRange a b f g) = op_range a b"
  by (simp add: registerRange_def fst_range_entries op_range_def)

lemma distinct_dispatch: "distinct (map fst (dispatch_init E))"
  unfolding dispatch_init_def map_append fst_registerRange list.map fst_conv
  by code_simp

lemma registerAll_map_of:
  "distinct (map fst es) \<Longrightarrow> dom t \<inter> fst ` set es = {} \<Longrightarrow> registerAll es t = Some (t ++ map_of es)"
proof (induction es arbitrary: t)
  case Nil
  then show ?case by simp
next
  case (Cons e es)
  obtain op h where e: "e = (op, h)" by fastforce
  have "t op = None" using Cons.prems e by auto
  moreover have "dom (t(op \<mapsto> h)) = insert op (dom t)" by auto
  then have "dom (t(op \<mapsto> h)) \<inter> fst ` set es = {}" using Cons.prems e by auto
  then have "registerAll es (t(op \<mapsto> h)) = Some (t(op \<mapsto> h) ++ map_of es)"
    by (rule Cons.IH [rotated]) (use Cons.prems in simp)
  moreover have "t(op \<mapsto> h) ++ map_of es = t ++ map_of (e # es)"
    using Cons.prems e by (auto simp: map_add_def fun_eq_iff split: option.splits dest: map_of_SomeD
        intro: rev_image_eqI)
  ultimately show ?case unfolding e registerAll.simps register_def by (simp only: Option.bind.simps simp_thms if_False)
qed

lemma dispatchTable_mem: "(op, h) \<in> set (dispatch_init E) \<Longrightarrow> dispatchTable E op = Some h"
  unfolding dispatchTable_def by (rule map_of_is_SomeI [OF distinct_dispatch])

end
