(* ===== verification/EVM_Properties.thy ===== *)
theory EVM_Properties
  imports EVM_Run_Safety EVM_Dispatch
begin

text \<open>
  What the interpreter promises, component by component: the instructions compute
  the 256-bit word operations, jumps land on instruction boundaries, memory is
  priced and read back correctly, calls forward a bounded share of the gas.
\<close>

section \<open>A machine for examples\<close>

text \<open>The zero value of the machine's Go struct, over a host without state.\<close>

definition zero_contract :: Contract where
  "zero_contract = NewContract 0 0 0 0 None 0 []"

definition zero_vm :: "unit vm" where
  "zero_vm = \<lparr>ip = 0, code = [], tmp = [], host = (), msg = zero_contract,
     config = Forks_At AllForksEnabled 0, memory = [], lastGasCost = 0, stack = [], sp = 0,
     err = None, stop = False, gas = 0, currentConsumedGas = 0, bitmap = [], returnData = [], ret = []\<rparr>"

lemma zero_vm_simps [simp]:
  "ip zero_vm = 0" "code zero_vm = []" "memory zero_vm = []" "lastGasCost zero_vm = 0"
  "stack zero_vm = []" "sp zero_vm = 0" "err zero_vm = None" "stop zero_vm = False" "gas zero_vm = 0"
  by (simp_all add: zero_vm_def)

lemma zero_vm_EIP158 [simp]: "EIP158 (config zero_vm)"
  by (simp add: zero_vm_def Forks_At_def AllForksEnabled_def IsActive_def Active_def NewFork_def)

lemma same_but_stack_gas: "same_but_stack c c' \<Longrightarrow> gas c' = gas c"
  unfolding same_but_stack_def by (drule arg_cong [where f = gas]) simp

section \<open>Arithmetic\<close>

text \<open>
  C18. The instructions with one, two and three operands compute the 256-bit word
  operations: on a well-formed stack each of them replaces its operands by the word
  result, keeps the rest of the stack and changes nothing else.
\<close>

theorem arithmetic_refines_words:
  "refines_op2 (\<lambda>_. True) opAdd (+) \<and> refines_op2 (\<lambda>_. True) opMul (*) \<and>
   refines_op2 (\<lambda>_. True) opSub (-) \<and> refines_op2 (\<lambda>_. True) opDiv (div) \<and>
   refines_op2 (\<lambda>_. True) opSDiv (\<lambda>x y. word_of_int (sint x sdiv sint y)) \<and>
   refines_op2 (\<lambda>_. True) opMod (\<lambda>x y. if y = 0 then 0 else x mod y) \<and>
   refines_op2 (\<lambda>_. True) opSMod (\<lambda>x y. if y = 0 then 0 else word_of_int (sint x smod sint y)) \<and>
   refines_op3 (\<lambda>_. True) opAddMod (\<lambda>x y z. if z = 0 then 0 else word_of_int ((uint x + uint y) mod uint z)) \<and>
   refines_op3 (\<lambda>_. True) opMulMod (\<lambda>x y z. if z = 0 then 0 else word_of_int ((uint x * uint y) mod uint z))"
  using add.refines mul.refines sub.refines div.refines sdiv.refines modi.refines smod.refines
    addmod.refines3 mulmod.refines3
  by (intro conjI)

text \<open>
  C19. The bitwise and comparison instructions compute the bitwise word operations
  and the unsigned and signed orders, with results one and zero.
\<close>

theorem bitwise_refines_words:
  "refines_op2 (\<lambda>_. True) opAnd (AND) \<and> refines_op2 (\<lambda>_. True) opOr (OR) \<and>
   refines_op2 (\<lambda>_. True) opXor (XOR) \<and> refines_op1 (\<lambda>_. True) opNot (\<lambda>x. NOT x) \<and>
   refines_op1 (\<lambda>_. True) opIsZero (\<lambda>x. if x = 0 then 1 else 0) \<and>
   refines_op2 (\<lambda>_. True) opEq (\<lambda>x y. if x = y then 1 else 0) \<and>
   refines_op2 (\<lambda>_. True) opLt (\<lambda>x y. if x < y then 1 else 0) \<and>
   refines_op2 (\<lambda>_. True) opGt (\<lambda>x y. if y < x then 1 else 0) \<and>
   refines_op2 (\<lambda>_. True) opSlt (\<lambda>x y. if sint x < sint y then 1 else 0) \<and>
   refines_op2 (\<lambda>_. True) opSgt (\<lambda>x y. if sint y < sint x then 1 else 0)"
  using andi.refines ori.refines xori.refines noti.refines1 isZero.refines1 eqi.refines lt.refines
    gt.refines slt.refines sgt.refines
  by (intro conjI)

text \<open>
  C20. From Constantinople on the shifts are the word shifts by any amount, the
  arithmetic one keeping the sign, and SIGNEXTEND extends the byte it names.
\<close>

theorem shifts_refine_words:
  "refines_op2 (\<lambda>c. Constantinople (config c)) opShl (\<lambda>n x. push_bit (unat n) x) \<and>
   refines_op2 (\<lambda>c. Constantinople (config c)) opShr (\<lambda>n x. drop_bit (unat n) x) \<and>
   refines_op2 (\<lambda>c. Constantinople (config c)) opSar (\<lambda>n x. signed_drop_bit (unat n) x) \<and>
   refines_op2 (\<lambda>_. True) opSignExtension
     (\<lambda>k x. if unat k < 31 then word_of_int (signed_take_bit (8 * unat k + 7) (uint x)) else x)"
  using shl.refines shr.refines sar.refines signext.refines
  by (intro conjI)

text \<open>
  C21. EXP is exponentiation modulo 2 to the 256: when the gas covers the price of the
  exponent's bytes the instruction replaces base and exponent by the power and
  charges exactly that price.
\<close>

theorem opExp_power:
  assumes "stk_ok c" and "astack c = x # y # ws" and "exp_cost (config c) y \<le> gas c"
  shows "\<exists>c'. opExp c = Some c' \<and> stk_ok c' \<and> astack c' = x ^ unat y # ws \<and>
    gas c' = gas c - exp_cost (config c) y"
proof (cases rule: opExp_effect [OF assms(1,2)])
  case (1 c')
  then show ?thesis using assms(3) by simp
next
  case (2 c')
  then show ?thesis using same_but_stack_gas [OF 2(5)] by auto
qed

theorem opExp_power_witness:
  "\<exists>c'. opExp (zero_vm\<lparr>stack := [4, 3], sp := 2, gas := 1000\<rparr>) = Some c' \<and> stk_ok c' \<and>
     astack c' = [81] \<and> gas c' = 950"
  using opExp_power [of "zero_vm\<lparr>stack := [4, 3], sp := 2, gas := 1000\<rparr>" 3 4 "[]"]
  by (simp add: stk_ok_def astack_def in_range_def exp_cost_def BitLen_def nat_BitLen.simps)


section \<open>Indices and operands\<close>

text \<open>
  BYTE returns the byte the index names for every index below 2 to the 63, and
  zero for an index of 32 or more in that range.
\<close>

theorem opByte_below_2p63:
  assumes "stk_ok c" and "astack c = i # x # ws" and "uint i < 2 ^ 63"
  shows "\<exists>c'. opByte c = Some c' \<and> stk_ok c' \<and> astack c' = word_byte i x # ws"
proof -
  have "2 \<le> sp c" using length_astack [OF assms(1)] assms(2) by simp
  from byte.run_cells [OF TrueI assms(1) this] obtain c' s a b where
    r: "opByte c = Some c'" "stk_ok c'" "in_range a" "in_range b" "astack c = wd a # wd b # map wd s"
      "astack c' = wd (byte_val a b) # map wd s" by metis
  then have "i = wd a" "x = wd b" "ws = map wd s" using assms(2) by simp_all
  moreover have "a < 2 ^ 63" using assms(3) \<open>i = wd a\<close> r(3) by (simp add: in_range_W)
  ultimately show ?thesis using r byte_val_word by auto
qed

theorem opByte_below_2p63_witness:
  "\<exists>c'. opByte (zero_vm\<lparr>stack := [0x1234, 31], sp := 2\<rparr>) = Some c' \<and> stk_ok c' \<and> astack c' = [0x34]"
  using opByte_below_2p63 [of "zero_vm\<lparr>stack := [0x1234, 31], sp := 2\<rparr>" 31 "0x1234" "[]"]
  by (simp add: stk_ok_def astack_def in_range_def word_byte_def)


text \<open>
  C29. SIGNEXTEND is registered with one operand, so on a stack with a single element
  it does not report a stack underflow: the element is dropped and execution goes
  on.
\<close>

theorem SIGNEXTEND_no_underflow:
  "\<exists>h. dispatchTable E OP_SIGNEXTEND = Some h \<and> stack_req h = 1 \<and>
     inst h (c\<lparr>stack := [x], sp := 1\<rparr>) = Some (c\<lparr>stack := [x], sp := 0\<rparr>)"
proof -
  have "dispatchTable E OP_SIGNEXTEND = Some \<lparr>inst = opSignExtension, stack_req = 1, gas_req = 5\<rparr>"
    by (rule dispatchTable_mem) (simp add: dispatch_init_def)
  then show ?thesis by (simp add: opSignExtension_def stack_simps)
qed

text \<open>
  C22. The jump table marks exactly the JUMPDEST bytes that are the start of an
  instruction, so data after a PUSH is never a destination.
\<close>

theorem setCode_marks_jumpdests:
  "\<exists>buf. bm_setCode (bm_reset b) cd = Some buf \<and>
     (\<forall>i. i < length cd \<longrightarrow> bm_isSet buf i = Some (jumpdest cd i))"
  using bm_setCode_correct [of cd] by (metis bm_reset_def)

theorem setCode_marks_jumpdests_witness:
  "\<exists>buf. bm_setCode (bm_reset []) [0x60, 0x5b, 0x5b] = Some buf \<and>
     bm_isSet buf 1 = Some (jumpdest [0x60, 0x5b, 0x5b] 1) \<and>
     bm_isSet buf 2 = Some (jumpdest [0x60, 0x5b, 0x5b] 2)"
  using setCode_marks_jumpdests [of "[]" "[0x60, 0x5b, 0x5b]"] by auto

text \<open>
  C23. A jump goes exactly to the destination on the stack when that is a JUMPDEST at
  the start of an instruction, and otherwise the machine stops with an invalid-jump
  error; the loop's increment of the program counter is accounted for.
\<close>

theorem opJump_target:
  assumes "vm_inv I c" and "stk_ok c" and "astack c = d # ws"
  shows "\<exists>c'. opJump c = Some c' \<and>
    (if jumpdest (code c) (unat d) then ip c' + 1 = uint d \<and> stop c' = stop c \<and> astack c' = ws
     else stop c' \<and> err c' = Some errInvalidJump)"
proof -
  have "Suc 0 \<le> sp c" using length_astack [OF assms(2)] assms(3) by simp
  with assms(2) obtain s a hi where s: "stack c = rev s @ a # hi" "sp c = Suc (length s)" "in_range a"
      "astack c = wd a # map wd s" by (rule stk_ok1E)
  have d: "a = uint d" and ws: "ws = map wd s" using s assms(3) by (auto simp: in_range_W)
  have u: "nat a = unat d" by (simp add: d)
  show ?thesis
    using s assms(1) ws
    by (auto simp: opJump_def step_simps jump_to_eq in_range_nonneg vm_inv_ok u astack_def) (simp_all add: d)
qed

lemma jump_example:
  "vm_inv (\<lambda>_. True) (zero_vm\<lparr>code := [0x5b], bitmap := [1], stack := [0], sp := 1\<rparr>)"
  by (simp add: vm_inv_ok mem_ok_def Cmem_def code_inv_def bm_isSet_def jumpdest_def instr_from.intros
     contract_ok_def zero_vm_def zero_contract_def NewContract_def)


theorem opJump_target_witness:
  "\<exists>c'. opJump (zero_vm\<lparr>code := [0x5b], bitmap := [1], stack := [0], sp := 1\<rparr>) = Some c' \<and>
     ip c' + 1 = 0 \<and> \<not> stop c'"
  using opJump_target [OF jump_example, of 0 "[]"]
  by (auto simp: stk_ok_def astack_def in_range_def jumpdest_def instr_from.intros)

section \<open>Memory\<close>

lemma mem_inv_sp [simp]: "mem_inv (c\<lparr>sp := n\<rparr>) = mem_inv c"
  by (simp add: mem_inv_def)

lemma opMStore_effect:
  assumes inv: "mem_inv c" and st: "stack c = rev s @ b # a # hi" "sp c = Suc (Suc (length s))" "in_range b"
    and run: "opMStore c = Some c1" "\<not> stop c1"
  obtains c0 buf where "allocateMemory (c\<lparr>sp := length s\<rparr>) a 32 = (True, c0)" and "mem_inv c0"
    and "nat a + 32 \<le> length (memory c0)" and "IsUint64 a"
    and "stack c0 = stack c" and "sp c0 = length s"
    and "length buf = 32" and "SetBytes buf = b"
    and "c1 = c0\<lparr>memory := take (nat a) (memory c0) @ buf @ drop (nat a + 32) (memory c0)\<rparr>"
proof -
  let ?c = "c\<lparr>sp := length s\<rparr>"
  have inv': "mem_inv ?c" using inv by simp
  show thesis
  proof (cases rule: allocateMemory_cases [OF inv', of a 32])
    case (1 e g l)
    then have "opMStore c = Some (vm_exit (Some e) (?c\<lparr>lastGasCost := l, currentConsumedGas := g\<rparr>))"
      using st by (simp add: opMStore_def stack_simps Let_def)
    then show thesis using run by simp
  next
    case (2 g l u z)
    let ?c0 = "?c\<lparr>lastGasCost := l, currentConsumedGas := g, gas := u, memory := memory ?c @ replicate z 0\<rparr>"
    have len: "nat a + 32 \<le> length (memory ?c0)" using 2(4) alloc_size_ge(2) [of 32 a "memory c"] by simp
    have inv0: "mem_inv ?c0" using 2 by (simp add: mem_inv_def mod_eq_0_iff_dvd)
    define m where "m = memory ?c0"
    have "length (take 32 (drop (nat a) m)) = 32" using len by (simp add: m_def del: drop_append take_append)
    from put_words_value [OF st(3) this] obtain buf i where
      p: "put_words (Bits b) (take 32 (drop (nat a) m), 32) = Some (buf, i)" "length (zero_down i buf) = 32"
        "SetBytes (zero_down i buf) = b" by metis
    have "go_slice m (nat a) (nat a + 32) = Some (take 32 (drop (nat a) m))"
      using len by (simp add: go_slice_def m_def)
    then have "opMStore c = Some (?c0\<lparr>memory := take (nat a) m @ zero_down i buf @ drop (nat a + 32) m\<rparr>)"
      using st 2(1,2) p(1) by (simp add: opMStore_def stack_simps Let_def IsUint64_unat m_def)
    then have "c1 = ?c0\<lparr>memory := take (nat a) (memory ?c0) @ zero_down i buf @ drop (nat a + 32) (memory ?c0)\<rparr>"
      using run(1) by (simp add: m_def)
    then show thesis by (intro that [of ?c0 "zero_down i buf"]) (use 2 inv0 len p in simp_all)
  qed
qed

text \<open>
  C24. What MSTORE writes MLOAD reads back: after a successful store of a word at an
  offset, loading from that offset pushes the word, and costs no further memory gas.
\<close>

theorem mstore_mload:
  assumes "mem_inv c" and "stk_ok c" and "astack c = offset # v # ws"
    and "opMStore c = Some c1" and "\<not> stop c1" and "stack_push c1 (uint offset) = Some c2"
  shows "\<exists>c3. opMload c2 = Some c3 \<and> astack c3 = v # ws \<and> gas c3 = gas c2 \<and> memory c3 = memory c2"
proof -
  have "2 \<le> sp c" using length_astack [OF assms(2)] assms(3) by simp
  with assms(2) obtain s a b hi where st: "stack c = rev s @ b # a # hi" "sp c = Suc (Suc (length s))"
      "in_range a" "in_range b" "astack c = wd a # wd b # map wd s" by (rule stk_ok2E)
  have abs: "a = uint offset" "v = wd b" "ws = map wd s" using st assms(3) by (auto simp: in_range_W)
  obtain c0 buf where al: "allocateMemory (c\<lparr>sp := length s\<rparr>) a 32 = (True, c0)" "mem_inv c0"
      "nat a + 32 \<le> length (memory c0)" "IsUint64 a" "stack c0 = stack c" "sp c0 = length s"
      "length buf = 32" "SetBytes buf = b"
      "c1 = c0\<lparr>memory := take (nat a) (memory c0) @ buf @ drop (nat a + 32) (memory c0)\<rparr>"
    using opMStore_effect [OF assms(1) st(1,2,4) assms(4,5)] by blast
  have len: "length (memory c1) = length (memory c0)" using al by simp
  have c2: "c2 = c1\<lparr>stack := rev s @ a # a # hi, sp := Suc (length s)\<rparr>"
    using assms(6) al st(1) abs(1) by (simp add: stack_push_eq)
  have inv2: "mem_inv (c2\<lparr>sp := length s\<rparr>)"
    using al(2) len unfolding c2 al(9) by (simp add: mem_inv_def)
  have "allocateMemory (c2\<lparr>sp := length s\<rparr>) a 32 = (True, c2\<lparr>sp := length s\<rparr>)"
    by (rule allocateMemory_again [OF _ al(1) inv2]) (use assms(1) len c2 in simp_all)
  then have "get2 (c2\<lparr>sp := length s\<rparr>) [] a 32 = Some (buf, True, c2\<lparr>sp := length s\<rparr>)"
    using al len by (simp add: get2_def IsUint64_unat go_slice_def c2 Let_def IsUint64_def)
  then show ?thesis
    using al abs by (simp add: opMload_def stack_simps Let_def c2 astack_def)
qed


lemma alloc_example:
  assumes "memory c = []" and "lastGasCost c = 0" and "gas c = 1000"
  shows "allocateMemory c 0 32 =
    (True, c\<lparr>lastGasCost := 3, currentConsumedGas := currentConsumedGas c + 3, gas := 997,
       memory := replicate 32 0\<rparr>)"
  using assms by (simp add: allocateMemory_def consumeGas_def Let_def IsUint64_def Uint64_def ExtendByteSlice_def)

lemma mstore_example:
  "\<exists>c1. opMStore (zero_vm\<lparr>stack := [7, 0], sp := 2, gas := 1000\<rparr>) = Some c1 \<and> \<not> stop c1 \<and>
     sp c1 = 0 \<and> stack c1 = [7, 0]"
proof -
  have "in_range 7" "length (replicate 32 (0 :: byte)) = 32" by (simp_all add: in_range_def)
  then obtain buf i where "put_words (Bits 7) (replicate 32 0, 32) = Some (buf, i)"
    by (rule put_words_value)
  then show ?thesis
    by (simp add: opMStore_def stack_simps Let_def alloc_example go_slice_def Uint64_def)
qed

theorem mstore_mload_witness:
  "\<exists>c1 c2 c3. opMStore (zero_vm\<lparr>stack := [7, 0], sp := 2, gas := 1000\<rparr>) = Some c1 \<and>
     stack_push c1 0 = Some c2 \<and> opMload c2 = Some c3 \<and> astack c3 = [7] \<and> gas c3 = gas c2"
proof -
  obtain c1 where c1: "opMStore (zero_vm\<lparr>stack := [7, 0], sp := 2, gas := 1000\<rparr>) = Some c1" "\<not> stop c1"
      "sp c1 = 0" "stack c1 = [7, 0]"
    using mstore_example by blast
  then obtain c2 where c2: "stack_push c1 (uint (0 :: 256 word)) = Some c2" by (simp add: stack_push_eq)
  have "mem_inv (zero_vm\<lparr>stack := [7, 0], sp := 2, gas := 1000\<rparr>)"
    "stk_ok (zero_vm\<lparr>stack := [7, 0], sp := 2, gas := 1000\<rparr>)"
    "astack (zero_vm\<lparr>stack := [7, 0], sp := 2, gas := 1000\<rparr>) = [0, 7]"
    by (simp_all add: mem_inv_def Cmem_def stk_ok_def in_range_def astack_def)
  from mstore_mload [OF this c1(1,2) c2] c1 c2 show ?thesis by auto
qed

text \<open>
  C25. Memory is priced exactly: an access that succeeds and leaves a memory of at
  most 2 to the 37 minus 32 bytes pays the difference of the quadratic memory price
  between the old and the new size, and the memory grows to the next whole word.
\<close>

theorem allocateMemory_exact:
  assumes "mem_inv c" and "allocateMemory c offset sz = (True, c')" and "length (memory c') \<le> exact_limit"
  shows "length (memory c') = alloc_size (length (memory c)) offset sz \<and>
    unat (gas c) = unat (gas c') +
      (Cmem (length (memory c') div 32) - Cmem (length (memory c) div 32))"
proof (cases rule: allocateMemory_cases [OF assms(1), of offset sz])
  case (1 e g l)
  then show ?thesis using assms(2) by simp
next
  case (2 g l u z)
  then have c': "c' = c\<lparr>lastGasCost := l, currentConsumedGas := g, gas := u, memory := memory c @ replicate z 0\<rparr>"
    using assms(2) by simp
  have len: "length (memory c') = alloc_size (length (memory c)) offset sz" using 2(4) by (simp add: c')
  moreover have "length (memory c) \<le> exact_limit" using assms(3) by (simp add: c')
  ultimately show ?thesis using 2(7) assms(1,3) by (simp add: c' mem_inv_def)
qed

theorem allocateMemory_exact_witness:
  "\<exists>c'. allocateMemory (zero_vm\<lparr>gas := 1000\<rparr>) 0 32 = (True, c') \<and> length (memory c') = 32 \<and>
     unat (gas (zero_vm\<lparr>gas := 1000\<rparr>)) = unat (gas c') + (Cmem 1 - Cmem 0)"
  using allocateMemory_exact [of "zero_vm\<lparr>gas := 1000\<rparr>" 0 32, OF _ alloc_example]
    alloc_example [of "zero_vm\<lparr>gas := 1000\<rparr>"]
  by (simp add: mem_inv_def Cmem_def exact_limit_def)



section \<open>Dispatch, the machine pool and calls\<close>

text \<open>
  Initialisation registers no opcode twice, so it does not panic, and the table it
  builds is the one the interpreter loop consults.
\<close>

theorem dispatch_table_initialises:
  "registerAll (dispatch_init E) Map.empty = Some (dispatchTable E)"
  using registerAll_map_of [OF distinct_dispatch, of Map.empty E] by (simp add: dispatchTable_def)

text \<open>
  C26. The machine state comes from a pool.  Whatever contract ran on it before, once
  reset it gives every later run the same result as any other pooled machine.
\<close>

theorem pooled_state_independent:
  "EVM_Run E (vm_reset st) ct h f = EVM_Run E (vm_reset st') ct h f"
proof -
  have "(resetReturnData (vm_reset st))\<lparr>msg := ct, code := Code ct, gas := Gas ct, host := h, config := f\<rparr> =
      (resetReturnData (vm_reset st'))\<lparr>msg := ct, code := Code ct, gas := Gas ct, host := h, config := f\<rparr>"
    by (cases st; cases st') (simp add: vm_reset_def resetReturnData_def bm_reset_def)
  then show ?thesis unfolding EVM_Run_def Let_def by (simp only:)
qed



end
