(* ===== verification/Containers.thy ===== *)
theory Containers
  imports Prelude "HOL-Library.AList"
begin

text \<open>
  The two third-party containers the state layer is built on, as interfaces: the
  immutable radix tree (package \<open>go-immutable-radix\<close>) and the least-recently-used
  cache (package \<open>golang-lru\<close>).  The model takes their operations as a parameter;
  the locales state what their documentation promises and what the state layer
  relies on.  Association lists show that the promises can be kept.
\<close>

section \<open>The immutable radix tree\<close>

text \<open>
  A transaction on a tree and the tree it commits to are the same value here: the
  operations return the new tree and never change an old one, so \<open>CommitOnly\<close> and
  \<open>Txn\<close> are the identity.
\<close>

record ('t, 'v) radix =
  radix_New :: 't
  radix_Get :: "'t \<Rightarrow> byte list \<Rightarrow> 'v option"
  radix_Insert :: "'t \<Rightarrow> byte list \<Rightarrow> 'v \<Rightarrow> 't"
  radix_Delete :: "'t \<Rightarrow> byte list \<Rightarrow> 't"
  radix_Walk :: "'t \<Rightarrow> (byte list \<times> 'v) list"

locale radix_laws =
  fixes R :: "('t, 'v) radix"
  assumes Get_New: "radix_Get R (radix_New R) k = None"
    and Get_Insert: "radix_Get R (radix_Insert R t k v) k' = (if k' = k then Some v else radix_Get R t k')"
    and Get_Delete: "radix_Get R (radix_Delete R t k) k' = (if k' = k then None else radix_Get R t k')"
    and Walk_Get: "map_of (radix_Walk R t) = radix_Get R t"
    and Walk_distinct: "distinct (map fst (radix_Walk R t))"
begin

lemma Walk_mem: "(k, v) \<in> set (radix_Walk R t) \<longleftrightarrow> radix_Get R t k = Some v"
  using Walk_distinct [of t] by (simp flip: Walk_Get)

text \<open>Inserting a list of entries one after the other.\<close>

lemma fold_Insert:
  assumes "\<And>k v. (k, v) \<in> set xs \<Longrightarrow> k \<notin> K"
  shows "k \<in> K \<Longrightarrow> radix_Get R (fold (\<lambda>(k, v) t. radix_Insert R t k (f v)) xs t) k = radix_Get R t k"
  using assms
proof (induction xs arbitrary: t)
  case (Cons x xs)
  obtain k' v where x: "x = (k', v)" by (cases x)
  have "k \<noteq> k'" using Cons.prems by (auto simp: x)
  moreover have "radix_Get R (fold (\<lambda>(k, v) t. radix_Insert R t k (f v)) xs t') k = radix_Get R t' k" for t'
    using Cons.prems by (intro Cons.IH) auto
  ultimately show ?case by (simp add: x Get_Insert)
qed simp

end

definition list_radix :: "((byte list \<times> 'v) list, 'v) radix" where
  "list_radix = \<lparr>radix_New = [], radix_Get = map_of, radix_Insert = (\<lambda>t k v. (k, v) # t),
     radix_Delete = (\<lambda>t k. AList.delete k t), radix_Walk = AList.clearjunk\<rparr>"

interpretation list_radix: radix_laws list_radix
  by unfold_locales
    (auto simp: list_radix_def map_of_clearjunk distinct_clearjunk AList.delete_conv')

section \<open>The least-recently-used cache\<close>

text \<open>A lookup may change the order of eviction, so it returns the cache too.\<close>

record ('c, 'k, 'v) lru =
  lru_New :: "nat \<Rightarrow> 'c"
  lru_Get :: "'c \<Rightarrow> 'k \<Rightarrow> 'v option \<times> 'c"
  lru_Add :: "'c \<Rightarrow> 'k \<Rightarrow> 'v \<Rightarrow> 'c"

text \<open>The values a cache can return.\<close>

definition cached :: "('c, 'k, 'v) lru \<Rightarrow> 'c \<Rightarrow> 'v set" where
  "cached C c = {v. \<exists>k. fst (lru_Get C c k) = Some v}"

locale lru_laws =
  fixes C :: "('c, 'k, 'v) lru"
  assumes lru_Get_New: "fst (lru_Get C (lru_New C n) k) = None"
    and lru_Get_Get: "fst (lru_Get C (snd (lru_Get C c k)) k') = fst (lru_Get C c k')"
    and lru_Get_Add: "fst (lru_Get C (lru_Add C c k v) k') = Some w \<Longrightarrow>
      (if k' = k then w = v else fst (lru_Get C c k') = Some w)"
begin

lemma cached_New [simp]: "cached C (lru_New C n) = {}"
  by (simp add: cached_def lru_Get_New)

lemma cached_Get [simp]: "cached C (snd (lru_Get C c k)) = cached C c"
  by (simp add: cached_def lru_Get_Get)

lemma cached_Add: "cached C (lru_Add C c k v) \<subseteq> insert v (cached C c)"
  by (auto simp: cached_def) (metis lru_Get_Add)

lemma cached_mem: "fst (lru_Get C c k) = Some v \<Longrightarrow> v \<in> cached C c"
  by (auto simp: cached_def)

end

text \<open>A cache of bounded size that keeps the most recent entries in front.\<close>

definition list_lru :: "(nat \<times> ('k \<times> 'v) list, 'k, 'v) lru" where
  "list_lru = \<lparr>lru_New = (\<lambda>n. (n, [])),
     lru_Get = (\<lambda>(n, xs) k. case map_of xs k of
        None \<Rightarrow> (None, (n, xs)) | Some v \<Rightarrow> (Some v, (n, (k, v) # AList.delete k xs))),
     lru_Add = (\<lambda>(n, xs) k v. (n, take n ((k, v) # AList.delete k xs)))\<rparr>"

lemma map_of_take: "map_of (take n xs) k = Some v \<Longrightarrow> map_of xs k = Some v"
  by (induction xs arbitrary: n) (auto simp: take_Cons split: nat.splits if_splits)

interpretation list_lru: lru_laws list_lru
  by unfold_locales
    (auto simp: list_lru_def AList.delete_conv' split: prod.splits option.splits if_splits dest: map_of_take)

end
