(* ===== verification/Receipt.thy ===== *)
theory Receipt
  imports Edge_Types
begin

text \<open>
  Logs and their Bloom filter (\<open>types/receipt.go\<close>).  Keccak-256 is a parameter: its
  result is a list of 32 bytes, of which the filter uses the first six.
\<close>

section \<open>Logs and receipts\<close>

record Log =
  LogAddress :: address
  Topics :: "hash list"
  LogData :: "byte list"

datatype ReceiptStatus = ReceiptFailed | ReceiptSuccess

type_synonym Bloom = "byte list"

record Receipt =
  CumulativeGasUsed :: uint64
  LogsBloom :: Bloom
  Logs :: "Log list"
  Status :: "ReceiptStatus option"
  ReceiptGasUsed :: uint64
  ContractAddress :: "address option"
  ReceiptTxHash :: hash
  TransactionType :: byte

definition SetStatus :: "Receipt \<Rightarrow> ReceiptStatus \<Rightarrow> Receipt" where
  "SetStatus r s = r\<lparr>Status := Some s\<rparr>"

definition SetContractAddress :: "Receipt \<Rightarrow> address \<Rightarrow> Receipt" where
  "SetContractAddress r a = r\<lparr>ContractAddress := Some a\<rparr>"

section \<open>The Bloom filter\<close>

definition BloomByteLength :: nat where "BloomByteLength = 256"

text \<open>The bit that the two bytes of the hash at \<open>i\<close> select, among 2048.\<close>

definition bloom_bit :: "byte list \<Rightarrow> nat \<Rightarrow> nat go" where
  "bloom_bit buf i =
     (if i + 1 < length buf then Some ((unat (buf ! (i + 1)) + unat (buf ! i) * 256) mod (BloomByteLength * 8))
      else None)"

text \<open>The array \<open>[256]byte\<close> is a list; an index outside it is a panic.\<close>

definition bloom_set :: "Bloom \<Rightarrow> nat \<Rightarrow> Bloom go" where
  "bloom_set b n =
     (let loc = BloomByteLength - 1 - n div 8 in
      if loc < length b then Some (b[loc := (b ! loc) OR push_bit (n mod 8) 1]) else None)"

definition bloom_test :: "Bloom \<Rightarrow> nat \<Rightarrow> bool go" where
  "bloom_test b n =
     (let loc = BloomByteLength - 1 - n div 8 in
      if loc < length b then Some ((b ! loc) AND push_bit (n mod 8) 1 \<noteq> 0) else None)"

definition setEncode :: "(byte list \<Rightarrow> byte list) \<Rightarrow> byte list \<Rightarrow> Bloom \<Rightarrow> Bloom go" where
  "setEncode keccak h b = do {
     let buf = keccak h;
     p \<leftarrow> bloom_bit buf 0; b \<leftarrow> bloom_set b p;
     q \<leftarrow> bloom_bit buf 2; b \<leftarrow> bloom_set b q;
     r \<leftarrow> bloom_bit buf 4; bloom_set b r }"

fun setEncodes :: "(byte list \<Rightarrow> byte list) \<Rightarrow> byte list list \<Rightarrow> Bloom \<Rightarrow> Bloom go" where
  "setEncodes keccak [] b = Some b"
| "setEncodes keccak (h # hs) b = do { b \<leftarrow> setEncode keccak h b; setEncodes keccak hs b }"

text \<open>The byte strings of a log, in the order in which the filter takes them.\<close>

definition log_keys :: "Log \<Rightarrow> byte list list" where
  "log_keys l = Address_Bytes (LogAddress l) # map Hash_Bytes (Topics l)"

definition CreateBloom :: "(byte list \<Rightarrow> byte list) \<Rightarrow> Receipt list \<Rightarrow> Bloom go" where
  "CreateBloom keccak receipts =
     setEncodes keccak (concat (map (\<lambda>r. concat (map log_keys (Logs r))) receipts))
       (replicate BloomByteLength 0)"

definition isByteArrPresent :: "(byte list \<Rightarrow> byte list) \<Rightarrow> Bloom \<Rightarrow> byte list \<Rightarrow> bool go" where
  "isByteArrPresent keccak b data = do {
     let buf = keccak data;
     p \<leftarrow> bloom_bit buf 0; x \<leftarrow> bloom_test b p;
     if \<not> x then Some False
     else do {
       q \<leftarrow> bloom_bit buf 2; y \<leftarrow> bloom_test b q;
       if \<not> y then Some False
       else do { r \<leftarrow> bloom_bit buf 4; bloom_test b r } } }"

fun all_present :: "(byte list \<Rightarrow> byte list) \<Rightarrow> Bloom \<Rightarrow> byte list list \<Rightarrow> bool go" where
  "all_present keccak b [] = Some True"
| "all_present keccak b (d # ds) = do {
     x \<leftarrow> isByteArrPresent keccak b d;
     if \<not> x then Some False else all_present keccak b ds }"

definition IsLogInBloom :: "(byte list \<Rightarrow> byte list) \<Rightarrow> Bloom \<Rightarrow> Log \<Rightarrow> bool go" where
  "IsLogInBloom keccak b l = all_present keccak b (log_keys l)"

section \<open>No false negatives\<close>

text \<open>A filter \<open>b'\<close> that has at least the bits of \<open>b\<close>.\<close>

definition bloom_le :: "Bloom \<Rightarrow> Bloom \<Rightarrow> bool" where
  "bloom_le b b' \<longleftrightarrow> length b = BloomByteLength \<and> length b' = BloomByteLength \<and>
     (\<forall>i < BloomByteLength. b ! i AND b' ! i = b ! i)"

lemma bloom_le_refl: "length b = BloomByteLength \<Longrightarrow> bloom_le b b"
  by (simp add: bloom_le_def)

lemma and_le_trans: "x AND y = x \<Longrightarrow> y AND z = y \<Longrightarrow> x AND z = (x :: byte)"
  by (metis and.assoc)

lemma bloom_le_trans: "bloom_le a b \<Longrightarrow> bloom_le b c \<Longrightarrow> bloom_le a c"
  using and_le_trans unfolding bloom_le_def by blast

lemma bloom_le_length: "bloom_le a b \<Longrightarrow> length b = BloomByteLength"
  by (simp add: bloom_le_def)

lemma bloom_loc: "BloomByteLength - 1 - n < BloomByteLength"
  by (simp add: BloomByteLength_def)

lemma bloom_set_ok:
  assumes "length b = BloomByteLength"
  shows "\<exists>b'. bloom_set b n = Some b' \<and> bloom_le b b' \<and> bloom_test b' n = Some True"
proof -
  let ?loc = "BloomByteLength - 1 - n div 8" and ?m = "push_bit (n mod 8) 1 :: byte"
  have "bit ?m (n mod 8)" by (simp add: bit_simps)
  then have nz: "?m \<noteq> 0" by auto
  have "b ! ?loc AND (b ! ?loc OR ?m) = b ! ?loc"
    by (rule bit_eqI) (auto simp: bit_and_iff bit_or_iff)
  moreover have "(b ! ?loc OR ?m) AND ?m = ?m"
    by (rule bit_eqI) (auto simp: bit_and_iff bit_or_iff)
  ultimately show ?thesis
    using assms bloom_loc [of "n div 8"] nz
    by (auto simp: bloom_set_def bloom_test_def bloom_le_def Let_def nth_list_update)
qed

lemma bloom_test_mono:
  assumes "bloom_le b b'" and "bloom_test b n = Some True"
  shows "bloom_test b' n = Some True"
proof -
  let ?loc = "BloomByteLength - 1 - n div 8" and ?m = "push_bit (n mod 8) 1 :: byte"
  have le: "b ! ?loc AND b' ! ?loc = b ! ?loc" and nz: "b ! ?loc AND ?m \<noteq> 0"
    using assms bloom_loc [of "n div 8"] by (auto simp: bloom_le_def bloom_test_def Let_def split: if_splits)
  have "b ! ?loc AND ?m = b ! ?loc AND (b' ! ?loc AND ?m)"
    by (subst le [symmetric]) (simp only: and.assoc)
  with nz have "b' ! ?loc AND ?m \<noteq> 0" by auto
  then show ?thesis
    using assms bloom_loc [of "n div 8"] by (simp add: bloom_le_def bloom_test_def Let_def)
qed

text \<open>What a filter contains: the three bits of the hash are set.\<close>

lemma isByteArrPresent_iff:
  "isByteArrPresent keccak b d = Some True \<longleftrightarrow>
     (\<exists>p q r. bloom_bit (keccak d) 0 = Some p \<and> bloom_bit (keccak d) 2 = Some q \<and>
        bloom_bit (keccak d) 4 = Some r \<and> bloom_test b p = Some True \<and> bloom_test b q = Some True \<and>
        bloom_test b r = Some True)"
  by (cases "bloom_bit (keccak d) 0"; cases "bloom_bit (keccak d) 2"; cases "bloom_bit (keccak d) 4")
    (auto simp: isByteArrPresent_def Let_def bind_eq_Some_conv)

lemma isByteArrPresent_mono:
  assumes "bloom_le b b'" and "isByteArrPresent keccak b d = Some True"
  shows "isByteArrPresent keccak b' d = Some True"
  using assms(2) bloom_test_mono [OF assms(1)] unfolding isByteArrPresent_iff by blast

lemma setEncode_ok:
  assumes "length b = BloomByteLength" and "\<And>bs. length (keccak bs) = 32"
  shows "\<exists>b'. setEncode keccak h b = Some b' \<and> bloom_le b b' \<and> isByteArrPresent keccak b' h = Some True"
proof -
  obtain p q r where bits: "bloom_bit (keccak h) 0 = Some p" "bloom_bit (keccak h) 2 = Some q"
      "bloom_bit (keccak h) 4 = Some r"
    by (simp add: bloom_bit_def assms)
  obtain b1 where b1: "bloom_set b p = Some b1" "bloom_le b b1" "bloom_test b1 p = Some True"
    using bloom_set_ok [OF assms(1)] by blast
  obtain b2 where b2: "bloom_set b1 q = Some b2" "bloom_le b1 b2" "bloom_test b2 q = Some True"
    using bloom_set_ok [OF bloom_le_length [OF b1(2)]] by blast
  obtain b3 where b3: "bloom_set b2 r = Some b3" "bloom_le b2 b3" "bloom_test b3 r = Some True"
    using bloom_set_ok [OF bloom_le_length [OF b2(2)]] by blast
  have "bloom_test b3 p = Some True" "bloom_test b3 q = Some True"
    by (rule bloom_test_mono [OF bloom_le_trans [OF b2(2) b3(2)] b1(3)])
      (rule bloom_test_mono [OF b3(2) b2(3)])
  then have "isByteArrPresent keccak b3 h = Some True"
    using bits b3 by (simp add: isByteArrPresent_def Let_def)
  moreover have "setEncode keccak h b = Some b3" using bits b1 b2 b3 by (simp add: setEncode_def Let_def)
  ultimately show ?thesis using bloom_le_trans [OF b1(2) bloom_le_trans [OF b2(2) b3(2)]] by blast
qed

lemma setEncodes_ok:
  assumes "length b = BloomByteLength" and "\<And>bs. length (keccak bs) = 32"
  shows "\<exists>b'. setEncodes keccak hs b = Some b' \<and> bloom_le b b' \<and>
    (\<forall>h \<in> set hs. isByteArrPresent keccak b' h = Some True)"
  using assms(1)
proof (induction hs arbitrary: b)
  case Nil
  then show ?case by (simp add: bloom_le_refl)
next
  case (Cons h hs)
  obtain b1 where b1: "setEncode keccak h b = Some b1" "bloom_le b b1" "isByteArrPresent keccak b1 h = Some True"
    using setEncode_ok [where keccak = keccak, OF Cons.prems assms(2)] by blast
  moreover obtain b2 where "setEncodes keccak hs b1 = Some b2" "bloom_le b1 b2"
      "\<forall>h \<in> set hs. isByteArrPresent keccak b2 h = Some True"
    using Cons.IH [OF bloom_le_length [OF b1(2)]] by blast
  ultimately show ?case using bloom_le_trans isByteArrPresent_mono by auto
qed

lemma all_present_iff:
  "(\<forall>h \<in> set hs. isByteArrPresent keccak b h = Some True) \<Longrightarrow> all_present keccak b hs = Some True"
  by (induction hs) auto

text \<open>
  C32. The Bloom filter of a list of receipts has no false negatives: it is built without a
  panic, and every log of every receipt is found in it.
\<close>

theorem bloom_complete:
  assumes "\<And>bs. length (keccak bs) = 32" and "r \<in> set receipts" and "l \<in> set (Logs r)"
  shows "\<exists>b. CreateBloom keccak receipts = Some b \<and> IsLogInBloom keccak b l = Some True"
proof -
  obtain b where b: "CreateBloom keccak receipts = Some b"
      "\<forall>h \<in> set (concat (map (\<lambda>r. concat (map log_keys (Logs r))) receipts)).
         isByteArrPresent keccak b h = Some True"
    using setEncodes_ok [where keccak = keccak, OF _ assms(1)] unfolding CreateBloom_def
    by (metis length_replicate)
  then have "all_present keccak b (log_keys l) = Some True"
    using assms(2,3) by (intro all_present_iff) auto
  with b show ?thesis by (simp add: IsLogInBloom_def)
qed

theorem bloom_complete_witness:
  "\<exists>b. CreateBloom (\<lambda>_. replicate 32 7)
       [\<lparr>CumulativeGasUsed = 0, LogsBloom = [], Logs = [\<lparr>LogAddress = 1, Topics = [2], LogData = []\<rparr>],
         Status = None, ReceiptGasUsed = 0, ContractAddress = None, ReceiptTxHash = 0, TransactionType = 0\<rparr>] = Some b \<and>
     IsLogInBloom (\<lambda>_. replicate 32 7) b \<lparr>LogAddress = 1, Topics = [2], LogData = []\<rparr> = Some True"
  (is "\<exists>b. CreateBloom ?k [?r] = _ \<and> IsLogInBloom _ _ ?l = _")
  using bloom_complete [of ?k ?r "[?r]" ?l] by simp

end
