(* ===== verification/State_Txn.thy ===== *)
theory State_Txn
  imports Containers Receipt Runtime_Defs
begin

text \<open>
  The state of the accounts while a block is executed (\<open>state/state.go\<close> and
  \<open>state/txn.go\<close>): a radix tree of changed accounts over a read-only snapshot of
  the trie, with a list of earlier trees to revert to.  The radix trees, the code
  cache and Keccak-256 are third-party code and a parameter \<open>L\<close>.
\<close>

section \<open>Accounts and state objects\<close>

record Account =
  AccNonce :: uint64
  AccBalance :: int
  AccRoot :: hash
  AccCodeHash :: "byte list"

text \<open>\<open>big.NewInt(1).SetBytes(a.Balance.Bytes())\<close> drops the sign of the balance.\<close>

definition Account_Copy :: "Account \<Rightarrow> Account" where
  "Account_Copy a =
     \<lparr>AccNonce = AccNonce a, AccBalance = SetBytes (Bytes (AccBalance a)), AccRoot = AccRoot a,
      AccCodeHash = AccCodeHash a\<rparr>"

record 's StateObject =
  ObjAccount :: Account
  ObjCode :: "byte list"
  Suicide :: bool
  Deleted :: bool
  DirtyCode :: bool
  ObjTxn :: "'s option"
  withFakeStorage :: bool

definition StateObject_Empty :: "'s StateObject \<Rightarrow> bool" where
  "StateObject_Empty s \<longleftrightarrow>
     AccNonce (ObjAccount s) = 0 \<and> AccBalance (ObjAccount s) = 0 \<and>
     AccCodeHash (ObjAccount s) = Hash_Bytes EmptyCodeHash"

definition StateObject_Copy :: "'s StateObject \<Rightarrow> 's StateObject" where
  "StateObject_Copy s =
     \<lparr>ObjAccount = Account_Copy (ObjAccount s), ObjCode = ObjCode s, Suicide = Suicide s,
      Deleted = Deleted s, DirtyCode = DirtyCode s, ObjTxn = ObjTxn s,
      withFakeStorage = withFakeStorage s\<rparr>"

record StorageObject =
  StoDeleted :: bool
  StoKey :: "byte list"
  StoVal :: "byte list"

record Object =
  OAddress :: address
  OCodeHash :: hash
  OBalance :: int
  ORoot :: hash
  ONonce :: uint64
  ODeleted :: bool
  ODirtyCode :: bool
  OCode :: "byte list"
  OStorage :: "StorageObject list"

section \<open>The transaction\<close>

definition emptyStateHash :: hash where
  "emptyStateHash = 0x56e81f171bcc55a6ff8345e692c0f86e5b48e01b996cadc001622fb5e363b421"

definition logIndex :: "byte list" where
  "logIndex = Hash_Bytes (BytesToHash [2])"

definition refundIndex :: "byte list" where
  "refundIndex = Hash_Bytes (BytesToHash [3])"

record readSnapshot =
  snap_GetStorage :: "address \<Rightarrow> hash \<Rightarrow> hash \<Rightarrow> hash"
  snap_GetAccount :: "address \<Rightarrow> error + Account option"
  snap_GetCode :: "hash \<Rightarrow> byte list \<times> bool"

text \<open>
  The tree maps the bytes of an address to its state object, and two longer keys to
  the logs and to the gas refund.  The type assertions of the code are the
  selectors; on another constructor they have no value, as the assertion panics.
\<close>

datatype 's entry =
    StateEntry (the_object: "'s StateObject")
  | LogsEntry (the_logs: "Log list")
  | RefundEntry (the_refund: uint64)

record ('t, 's, 'c) Lib =
  tree :: "('t, 's entry) radix"
  storage :: "('s, byte list option) radix"
  cache :: "('c, address, byte list) lru"
  keccak :: "byte list \<Rightarrow> byte list"

record ('t, 'c) Txn =
  snapshot :: readSnapshot
  snapshots :: "'t list"
  txn :: 't
  codeCache :: 'c

definition newTxn :: "('t, 's, 'c, 'x) Lib_scheme \<Rightarrow> readSnapshot \<Rightarrow> ('t, 'c) Txn" where
  "newTxn L snap =
     \<lparr>snapshot = snap, snapshots = [], txn = radix_New (tree L), codeCache = lru_New (cache L) 20\<rparr>"

definition Snapshot :: "('t, 'c) Txn \<Rightarrow> nat \<times> ('t, 'c) Txn" where
  "Snapshot t = (length (snapshots t), t\<lparr>snapshots := snapshots t @ [txn t]\<rparr>)"

definition RevertToSnapshot :: "('t, 'c) Txn \<Rightarrow> nat \<Rightarrow> error option \<times> ('t, 'c) Txn" where
  "RevertToSnapshot t i =
     (if int (length (snapshots t)) - 1 < int i then (Some (ErrSnapshotOutOfRange (int i)), t)
      else (None, t\<lparr>txn := snapshots t ! i\<rparr>))"

definition new_object :: "'s StateObject" where
  "new_object =
     \<lparr>ObjAccount = \<lparr>AccNonce = 0, AccBalance = 0, AccRoot = emptyStateHash,
        AccCodeHash = Hash_Bytes EmptyCodeHash\<rparr>,
      ObjCode = [], Suicide = False, Deleted = False, DirtyCode = False, ObjTxn = None,
      withFakeStorage = False\<rparr>"

definition getStateObject ::
  "('t, 's, 'c, 'x) Lib_scheme \<Rightarrow> ('t, 'c) Txn \<Rightarrow> address \<Rightarrow> 's StateObject option" where
  "getStateObject L t addr =
     (case radix_Get (tree L) (txn t) (Address_Bytes addr) of
        Some v \<Rightarrow>
          let obj = the_object v in if Deleted obj then None else Some (StateObject_Copy obj)
      | None \<Rightarrow>
          (case snap_GetAccount (snapshot t) addr of
             Inl e \<Rightarrow> None
           | Inr None \<Rightarrow> None
           | Inr (Some account) \<Rightarrow> Some (new_object\<lparr>ObjAccount := Account_Copy account\<rparr>)))"

definition GetAccount ::
  "('t, 's, 'c, 'x) Lib_scheme \<Rightarrow> ('t, 'c) Txn \<Rightarrow> address \<Rightarrow> Account option" where
  "GetAccount L t addr = map_option ObjAccount (getStateObject L t addr)"

definition upsertAccount ::
  "('t, 's, 'c, 'x) Lib_scheme \<Rightarrow> address \<Rightarrow> bool \<Rightarrow> ('s StateObject option \<Rightarrow> 's StateObject option) \<Rightarrow>
   ('t, 'c) Txn \<Rightarrow> ('t, 'c) Txn" where
  "upsertAccount L addr create f t =
     (let object = (case getStateObject L t addr of
                      Some o' \<Rightarrow> Some o'
                    | None \<Rightarrow> if create then Some new_object else None)
      in case f object of
           Some o' \<Rightarrow> t\<lparr>txn := radix_Insert (tree L) (txn t) (Address_Bytes addr) (StateEntry o')\<rparr>
         | None \<Rightarrow> t)"

section \<open>Balances\<close>

definition set_balance :: "(int \<Rightarrow> int) \<Rightarrow> 's StateObject \<Rightarrow> 's StateObject" where
  "set_balance f o' = o'\<lparr>ObjAccount := (ObjAccount o')\<lparr>AccBalance := f (AccBalance (ObjAccount o'))\<rparr>\<rparr>"

definition AddSealingReward :: "('t, 's, 'c, 'x) Lib_scheme \<Rightarrow> address \<Rightarrow> int \<Rightarrow> ('t, 'c) Txn \<Rightarrow> ('t, 'c) Txn" where
  "AddSealingReward L addr balance =
     upsertAccount L addr True (map_option (\<lambda>o'.
       if Suicide o' then set_balance (\<lambda>_. SetBytes (Bytes balance)) new_object
       else set_balance (\<lambda>b. b + balance) o'))"

definition AddBalance :: "('t, 's, 'c, 'x) Lib_scheme \<Rightarrow> address \<Rightarrow> int \<Rightarrow> ('t, 'c) Txn \<Rightarrow> ('t, 'c) Txn" where
  "AddBalance L addr balance = upsertAccount L addr True (map_option (set_balance (\<lambda>b. b + balance)))"

definition Txn_GetBalance :: "('t, 's, 'c, 'x) Lib_scheme \<Rightarrow> ('t, 'c) Txn \<Rightarrow> address \<Rightarrow> int" where
  "Txn_GetBalance L t addr =
     (case getStateObject L t addr of None \<Rightarrow> 0 | Some o' \<Rightarrow> AccBalance (ObjAccount o'))"

definition SubBalance ::
  "('t, 's, 'c, 'x) Lib_scheme \<Rightarrow> address \<Rightarrow> int \<Rightarrow> ('t, 'c) Txn \<Rightarrow> error option \<times> ('t, 'c) Txn" where
  "SubBalance L addr amount t =
     (if amount = 0 then (None, t)
      else if Txn_GetBalance L t addr < amount then (Some ErrNotEnoughFunds, t)
      else (None, upsertAccount L addr True (map_option (set_balance (\<lambda>b. b - amount))) t))"

definition SetBalance :: "('t, 's, 'c, 'x) Lib_scheme \<Rightarrow> address \<Rightarrow> int \<Rightarrow> ('t, 'c) Txn \<Rightarrow> ('t, 'c) Txn" where
  "SetBalance L addr balance =
     upsertAccount L addr True (map_option (set_balance (\<lambda>_. SetBytes (Bytes balance))))"

section \<open>Logs and refunds\<close>

definition Txn_EmitLog ::
  "('t, 's, 'c, 'x) Lib_scheme \<Rightarrow> address \<Rightarrow> hash list \<Rightarrow> byte list \<Rightarrow> ('t, 'c) Txn \<Rightarrow> ('t, 'c) Txn" where
  "Txn_EmitLog L addr topics data t =
     (let l = \<lparr>LogAddress = addr, Topics = topics, LogData = data\<rparr>;
          logs = (case radix_Get (tree L) (txn t) logIndex of None \<Rightarrow> [] | Some v \<Rightarrow> the_logs v)
      in t\<lparr>txn := radix_Insert (tree L) (txn t) logIndex (LogsEntry (logs @ [l]))\<rparr>)"

definition Txn_Logs :: "('t, 's, 'c, 'x) Lib_scheme \<Rightarrow> ('t, 'c) Txn \<Rightarrow> Log list \<times> ('t, 'c) Txn" where
  "Txn_Logs L t =
     (case radix_Get (tree L) (txn t) logIndex of
        None \<Rightarrow> ([], t)
      | Some v \<Rightarrow> (the_logs v, t\<lparr>txn := radix_Delete (tree L) (txn t) logIndex\<rparr>))"

definition Txn_GetRefund :: "('t, 's, 'c, 'x) Lib_scheme \<Rightarrow> ('t, 'c) Txn \<Rightarrow> uint64" where
  "Txn_GetRefund L t =
     (case radix_Get (tree L) (txn t) refundIndex of None \<Rightarrow> 0 | Some v \<Rightarrow> the_refund v)"

definition AddRefund :: "('t, 's, 'c, 'x) Lib_scheme \<Rightarrow> uint64 \<Rightarrow> ('t, 'c) Txn \<Rightarrow> ('t, 'c) Txn" where
  "AddRefund L g t =
     t\<lparr>txn := radix_Insert (tree L) (txn t) refundIndex (RefundEntry (Txn_GetRefund L t + g))\<rparr>"

definition SubRefund :: "('t, 's, 'c, 'x) Lib_scheme \<Rightarrow> uint64 \<Rightarrow> ('t, 'c) Txn \<Rightarrow> ('t, 'c) Txn" where
  "SubRefund L g t =
     t\<lparr>txn := radix_Insert (tree L) (txn t) refundIndex (RefundEntry (Txn_GetRefund L t - g))\<rparr>"

section \<open>Storage\<close>

definition Txn_SetState ::
  "('t, 's, 'c, 'x) Lib_scheme \<Rightarrow> address \<Rightarrow> hash \<Rightarrow> hash \<Rightarrow> ('t, 'c) Txn \<Rightarrow> ('t, 'c) Txn" where
  "Txn_SetState L addr key v =
     upsertAccount L addr True (map_option (\<lambda>o'.
       let st = (case ObjTxn o' of None \<Rightarrow> radix_New (storage L) | Some s \<Rightarrow> s)
       in o'\<lparr>ObjTxn := Some (radix_Insert (storage L) st (Hash_Bytes key)
                (if v = ZeroHash then None else Some (Hash_Bytes v)))\<rparr>))"

definition Txn_GetState ::
  "('t, 's, 'c, 'x) Lib_scheme \<Rightarrow> ('t, 'c) Txn \<Rightarrow> address \<Rightarrow> hash \<Rightarrow> hash" where
  "Txn_GetState L t addr key =
     (case getStateObject L t addr of
        None \<Rightarrow> ZeroHash
      | Some o' \<Rightarrow>
          (case Option.bind (ObjTxn o') (\<lambda>s. radix_Get (storage L) s (Hash_Bytes key)) of
             Some None \<Rightarrow> ZeroHash
           | Some (Some val) \<Rightarrow> BytesToHash val
           | None \<Rightarrow>
               if withFakeStorage o' then ZeroHash
               else snap_GetStorage (snapshot t) addr (AccRoot (ObjAccount o')) key))"

definition GetCommittedState ::
  "('t, 's, 'c, 'x) Lib_scheme \<Rightarrow> ('t, 'c) Txn \<Rightarrow> address \<Rightarrow> hash \<Rightarrow> hash" where
  "GetCommittedState L t addr key =
     (case getStateObject L t addr of
        None \<Rightarrow> ZeroHash
      | Some o' \<Rightarrow> snap_GetStorage (snapshot t) addr (AccRoot (ObjAccount o')) key)"

definition Txn_SetStorage ::
  "('t, 's, 'c, 'x) Lib_scheme \<Rightarrow> address \<Rightarrow> hash \<Rightarrow> hash \<Rightarrow> ForksInTime \<Rightarrow> ('t, 'c) Txn \<Rightarrow>
   StorageStatus \<times> ('t, 'c) Txn" where
  "Txn_SetStorage L addr key v f t =
     (let oldValue = Txn_GetState L t addr key in
      if oldValue = v then (StorageUnchanged, t)
      else
        let current = oldValue;
            original = GetCommittedState L t addr key;
            t = Txn_SetState L addr key v t;
            legacyGasMetering = (\<not> Istanbul f \<and> (Petersburg f \<or> \<not> Constantinople f))
        in if legacyGasMetering then
             (if oldValue = ZeroHash then (StorageAdded, t)
              else if v = ZeroHash then (StorageDeleted, AddRefund L 15000 t)
              else (StorageModified, t))
           else if original = current then
             (if original = ZeroHash then (StorageAdded, t)
              else if v = ZeroHash then (StorageDeleted, AddRefund L 15000 t)
              else (StorageModified, t))
           else
             let t = (if original \<noteq> ZeroHash
                      then (if current = ZeroHash then SubRefund L 15000 t
                            else if v = ZeroHash then AddRefund L 15000 t else t)
                      else t);
                 t = (if original = v
                      then (if original = ZeroHash
                            then AddRefund L (if Istanbul f then 19200 else 19800) t
                            else AddRefund L (if Istanbul f then 4200 else 4800) t)
                      else t)
             in (StorageModifiedAgain, t))"

text \<open>The Go map of overrides is a list of its entries.\<close>

definition SetFullStorage ::
  "('t, 's, 'c, 'x) Lib_scheme \<Rightarrow> address \<Rightarrow> (hash \<times> hash) list \<Rightarrow> ('t, 'c) Txn \<Rightarrow> ('t, 'c) Txn" where
  "SetFullStorage L addr st t =
     upsertAccount L addr True (map_option (\<lambda>o'. o'\<lparr>withFakeStorage := True\<rparr>))
       (fold (\<lambda>(k, v). Txn_SetState L addr k v) st t)"

section \<open>Nonces and code\<close>

definition set_nonce :: "uint64 \<Rightarrow> 's StateObject \<Rightarrow> 's StateObject" where
  "set_nonce n o' = o'\<lparr>ObjAccount := (ObjAccount o')\<lparr>AccNonce := n\<rparr>\<rparr>"

text \<open>
  The callback leaves the object as it is when the nonce would overflow, but the
  object is written back, which creates the account.
\<close>

definition IncrNonce ::
  "('t, 's, 'c, 'x) Lib_scheme \<Rightarrow> address \<Rightarrow> ('t, 'c) Txn \<Rightarrow> error option \<times> ('t, 'c) Txn" where
  "IncrNonce L addr t =
     (let n = (case getStateObject L t addr of None \<Rightarrow> 0 | Some o' \<Rightarrow> AccNonce (ObjAccount o'))
      in (if n + 1 < n then Some ErrNonceUintOverflow else None,
          upsertAccount L addr True (map_option (\<lambda>o'.
            if AccNonce (ObjAccount o') + 1 < AccNonce (ObjAccount o') then o'
            else set_nonce (AccNonce (ObjAccount o') + 1) o')) t))"

definition SetNonce :: "('t, 's, 'c, 'x) Lib_scheme \<Rightarrow> address \<Rightarrow> uint64 \<Rightarrow> ('t, 'c) Txn \<Rightarrow> ('t, 'c) Txn" where
  "SetNonce L addr n = upsertAccount L addr True (map_option (set_nonce n))"

definition Txn_GetNonce :: "('t, 's, 'c, 'x) Lib_scheme \<Rightarrow> ('t, 'c) Txn \<Rightarrow> address \<Rightarrow> uint64" where
  "Txn_GetNonce L t addr =
     (case getStateObject L t addr of None \<Rightarrow> 0 | Some o' \<Rightarrow> AccNonce (ObjAccount o'))"

definition SetCode :: "('t, 's, 'c, 'x) Lib_scheme \<Rightarrow> address \<Rightarrow> byte list \<Rightarrow> ('t, 'c) Txn \<Rightarrow> ('t, 'c) Txn" where
  "SetCode L addr cd =
     upsertAccount L addr True (map_option (\<lambda>o'.
       o'\<lparr>ObjAccount := (ObjAccount o')\<lparr>AccCodeHash := keccak L cd\<rparr>, DirtyCode := True, ObjCode := cd\<rparr>))"

definition Txn_GetCode ::
  "('t, 's, 'c, 'x) Lib_scheme \<Rightarrow> ('t, 'c) Txn \<Rightarrow> address \<Rightarrow> byte list \<times> ('t, 'c) Txn" where
  "Txn_GetCode L t addr =
     (case getStateObject L t addr of
        None \<Rightarrow> ([], t)
      | Some o' \<Rightarrow>
          if DirtyCode o' then (ObjCode o', t)
          else
            let (v, c) = lru_Get (cache L) (codeCache t) addr; t = t\<lparr>codeCache := c\<rparr>
            in case v of
                 Some cd \<Rightarrow> (cd, t)
               | None \<Rightarrow>
                   let cd = fst (snap_GetCode (snapshot t) (BytesToHash (AccCodeHash (ObjAccount o'))))
                   in (cd, t\<lparr>codeCache := lru_Add (cache L) (codeCache t) addr cd\<rparr>))"

definition Txn_GetCodeSize ::
  "('t, 's, 'c, 'x) Lib_scheme \<Rightarrow> ('t, 'c) Txn \<Rightarrow> address \<Rightarrow> nat \<times> ('t, 'c) Txn" where
  "Txn_GetCodeSize L t addr = (let (cd, t) = Txn_GetCode L t addr in (length cd, t))"

definition Txn_GetCodeHash :: "('t, 's, 'c, 'x) Lib_scheme \<Rightarrow> ('t, 'c) Txn \<Rightarrow> address \<Rightarrow> hash" where
  "Txn_GetCodeHash L t addr =
     (case getStateObject L t addr of
        None \<Rightarrow> ZeroHash | Some o' \<Rightarrow> BytesToHash (AccCodeHash (ObjAccount o')))"

section \<open>Creating and removing accounts\<close>

definition Txn_Suicide :: "('t, 's, 'c, 'x) Lib_scheme \<Rightarrow> address \<Rightarrow> ('t, 'c) Txn \<Rightarrow> bool \<times> ('t, 'c) Txn" where
  "Txn_Suicide L addr t =
     ((case getStateObject L t addr of None \<Rightarrow> False | Some o' \<Rightarrow> \<not> Suicide o'),
      upsertAccount L addr False (map_option (\<lambda>o'. set_balance (\<lambda>_. 0) (o'\<lparr>Suicide := True\<rparr>))) t)"

definition HasSuicided :: "('t, 's, 'c, 'x) Lib_scheme \<Rightarrow> ('t, 'c) Txn \<Rightarrow> address \<Rightarrow> bool" where
  "HasSuicided L t addr =
     (case getStateObject L t addr of None \<Rightarrow> False | Some o' \<Rightarrow> Suicide o')"

definition TouchAccount :: "('t, 's, 'c, 'x) Lib_scheme \<Rightarrow> address \<Rightarrow> ('t, 'c) Txn \<Rightarrow> ('t, 'c) Txn" where
  "TouchAccount L addr = upsertAccount L addr True (\<lambda>o'. o')"

definition Exist :: "('t, 's, 'c, 'x) Lib_scheme \<Rightarrow> ('t, 'c) Txn \<Rightarrow> address \<Rightarrow> bool" where
  "Exist L t addr = (getStateObject L t addr \<noteq> None)"

definition Txn_Empty :: "('t, 's, 'c, 'x) Lib_scheme \<Rightarrow> ('t, 'c) Txn \<Rightarrow> address \<Rightarrow> bool" where
  "Txn_Empty L t addr =
     (case getStateObject L t addr of None \<Rightarrow> True | Some o' \<Rightarrow> StateObject_Empty o')"

definition CreateAccount :: "('t, 's, 'c, 'x) Lib_scheme \<Rightarrow> address \<Rightarrow> ('t, 'c) Txn \<Rightarrow> ('t, 'c) Txn" where
  "CreateAccount L addr t =
     (let obj = (case getStateObject L t addr of
                   None \<Rightarrow> new_object
                 | Some prev \<Rightarrow>
                     set_balance (\<lambda>_. SetBytes (Bytes (AccBalance (ObjAccount prev)))) new_object)
      in t\<lparr>txn := radix_Insert (tree L) (txn t) (Address_Bytes addr) (StateEntry obj)\<rparr>)"

text \<open>
  The keys to remove are collected first.  The walk hands out every key that is in
  the tree, so the two error returns of the loop, for a key that is missing or that
  does not hold a state object, cannot be taken.
\<close>

definition to_remove :: "bool \<Rightarrow> (byte list \<times> 's entry) list \<Rightarrow> (byte list \<times> 's entry) list" where
  "to_remove deleteEmptyObjects =
     filter (\<lambda>(k, v). case v of
       StateEntry a \<Rightarrow> Suicide a \<or> StateObject_Empty a \<and> deleteEmptyObjects | _ \<Rightarrow> False)"

definition mark_deleted :: "'s entry \<Rightarrow> 's entry" where
  "mark_deleted v = StateEntry ((StateObject_Copy (the_object v))\<lparr>Deleted := True\<rparr>)"

definition CleanDeleteObjects ::
  "('t, 's, 'c, 'x) Lib_scheme \<Rightarrow> bool \<Rightarrow> ('t, 'c) Txn \<Rightarrow> ('t, 'c) Txn" where
  "CleanDeleteObjects L deleteEmptyObjects t =
     (let remove = to_remove deleteEmptyObjects (radix_Walk (tree L) (txn t));
          x = fold (\<lambda>(k, v) x. radix_Insert (tree L) x k (mark_deleted v)) remove (txn t)
      in t\<lparr>txn := radix_Delete (tree L) x refundIndex\<rparr>)"

definition storage_object :: "byte list \<times> byte list option \<Rightarrow> StorageObject" where
  "storage_object kv =
     (case kv of
        (k, None) \<Rightarrow> \<lparr>StoDeleted = True, StoKey = k, StoVal = []\<rparr>
      | (k, Some v) \<Rightarrow> \<lparr>StoDeleted = False, StoKey = k, StoVal = v\<rparr>)"

definition commit_object ::
  "('t, 's, 'c, 'x) Lib_scheme \<Rightarrow> byte list \<Rightarrow> 's StateObject \<Rightarrow> Object" where
  "commit_object L k a =
     \<lparr>OAddress = BytesToAddress k, OCodeHash = BytesToHash (AccCodeHash (ObjAccount a)),
      OBalance = AccBalance (ObjAccount a), ORoot = AccRoot (ObjAccount a),
      ONonce = AccNonce (ObjAccount a), ODeleted = Deleted a, ODirtyCode = DirtyCode a,
      OCode = ObjCode a,
      OStorage =
        (if Deleted a then []
         else case ObjTxn a of
                None \<Rightarrow> [] | Some s \<Rightarrow> map storage_object (radix_Walk (storage L) s))\<rparr>"

definition Txn_Commit ::
  "('t, 's, 'c, 'x) Lib_scheme \<Rightarrow> bool \<Rightarrow> ('t, 'c) Txn \<Rightarrow> Object list \<times> ('t, 'c) Txn" where
  "Txn_Commit L deleteEmptyObjects t =
     (let t = CleanDeleteObjects L deleteEmptyObjects t
      in (concat (map (\<lambda>(k, v). case v of StateEntry a \<Rightarrow> [commit_object L k a] | _ \<Rightarrow> [])
            (radix_Walk (tree L) (txn t))), t))"

end
