(* ===== verification/System_Addresses.thy ===== *)
theory System_Addresses
  imports Edge_Types
begin

text \<open>
  Hexadecimal addresses (\<open>types/types.go\<close>) and the addresses of the system contracts
  (\<open>contracts/system_addresses.go\<close>).
\<close>

definition hex_val :: "char \<Rightarrow> nat option" where
  "hex_val ch =
     (let c = (of_char ch :: nat) in
      if 48 \<le> c \<and> c \<le> 57 then Some (c - 48)
      else if 97 \<le> c \<and> c \<le> 102 then Some (c - 87)
      else if 65 \<le> c \<and> c \<le> 70 then Some (c - 55)
      else None)"

text \<open>\<open>hex.DecodeString\<close> of the standard library: the bytes before the first invalid digit.\<close>

fun DecodeString :: "string \<Rightarrow> byte list" where
  "DecodeString (a # b # cs) =
     (case (hex_val a, hex_val b) of
        (Some x, Some y) \<Rightarrow> of_nat (16 * x + y) # DecodeString cs
      | _ \<Rightarrow> [])"
| "DecodeString _ = []"

definition TrimPrefix_0x :: "string \<Rightarrow> string" where
  "TrimPrefix_0x str = (if take 2 str = ''0x'' then drop 2 str else str)"

definition StringToBytes :: "string \<Rightarrow> byte list" where
  "StringToBytes str =
     (let str = TrimPrefix_0x str;
          str = (if length str mod 2 = 1 then CHR ''0'' # str else str)
      in DecodeString str)"

definition StringToAddress :: "string \<Rightarrow> address" where
  "StringToAddress str = BytesToAddress (StringToBytes str)"

definition StringToHash :: "string \<Rightarrow> hash" where
  "StringToHash str = BytesToHash (StringToBytes str)"

definition NativeERC20TokenContract :: address where
  "NativeERC20TokenContract = StringToAddress ''0x1010''"

definition SystemCaller :: address where
  "SystemCaller = StringToAddress ''0xffffFFFfFFffffffffffffffFfFFFfffFFFfFFfE''"

definition NativeTransferPrecompile :: address where
  "NativeTransferPrecompile = StringToAddress ''0x2020''"

definition BLSAggSigsVerificationPrecompile :: address where
  "BLSAggSigsVerificationPrecompile = StringToAddress ''0x2030''"

definition AllowListContractsAddr :: address where
  "AllowListContractsAddr = StringToAddress ''0x0200000000000000000000000000000000000000''"

definition BlockListContractsAddr :: address where
  "BlockListContractsAddr = StringToAddress ''0x0300000000000000000000000000000000000000''"

definition AllowListTransactionsAddr :: address where
  "AllowListTransactionsAddr = StringToAddress ''0x0200000000000000000000000000000000000002''"

definition BlockListTransactionsAddr :: address where
  "BlockListTransactionsAddr = StringToAddress ''0x0300000000000000000000000000000000000002''"

definition AllowListBridgeAddr :: address where
  "AllowListBridgeAddr = StringToAddress ''0x0200000000000000000000000000000000000004''"

definition BlockListBridgeAddr :: address where
  "BlockListBridgeAddr = StringToAddress ''0x0300000000000000000000000000000000000004''"

lemmas address_defs = NativeERC20TokenContract_def SystemCaller_def NativeTransferPrecompile_def
  BLSAggSigsVerificationPrecompile_def AllowListContractsAddr_def BlockListContractsAddr_def
  AllowListTransactionsAddr_def BlockListTransactionsAddr_def AllowListBridgeAddr_def
  BlockListBridgeAddr_def

lemmas hex_simps = StringToAddress_def StringToHash_def StringToBytes_def TrimPrefix_0x_def hex_val_def
  BytesToAddress_eq BytesToHash_eq SetBytes_def

lemma address_values:
  "NativeERC20TokenContract = 0x1010" "NativeTransferPrecompile = 0x2020"
  "BLSAggSigsVerificationPrecompile = 0x2030"
  "SystemCaller = 0xfffffffffffffffffffffffffffffffffffffffe"
  by (simp_all add: address_defs hex_simps of_char_of)

end
