(* ===== verification/Sha256.thy ===== *)
theory Sha256
  imports Go_Big
begin

text \<open>
  SHA-256 of the Go standard library (\<open>crypto/sha256\<close>), which the second precompiled
  contract calls.
\<close>

type_synonym uint32 = "32 word"

definition sha_K :: "uint32 list" where
  "sha_K =
    [0x428a2f98, 0x71374491, 0xb5c0fbcf, 0xe9b5dba5, 0x3956c25b, 0x59f111f1, 0x923f82a4, 0xab1c5ed5,
     0xd807aa98, 0x12835b01, 0x243185be, 0x550c7dc3, 0x72be5d74, 0x80deb1fe, 0x9bdc06a7, 0xc19bf174,
     0xe49b69c1, 0xefbe4786, 0x0fc19dc6, 0x240ca1cc, 0x2de92c6f, 0x4a7484aa, 0x5cb0a9dc, 0x76f988da,
     0x983e5152, 0xa831c66d, 0xb00327c8, 0xbf597fc7, 0xc6e00bf3, 0xd5a79147, 0x06ca6351, 0x14292967,
     0x27b70a85, 0x2e1b2138, 0x4d2c6dfc, 0x53380d13, 0x650a7354, 0x766a0abb, 0x81c2c92e, 0x92722c85,
     0xa2bfe8a1, 0xa81a664b, 0xc24b8b70, 0xc76c51a3, 0xd192e819, 0xd6990624, 0xf40e3585, 0x106aa070,
     0x19a4c116, 0x1e376c08, 0x2748774c, 0x34b0bcb5, 0x391c0cb3, 0x4ed8aa4a, 0x5b9cca4f, 0x682e6ff3,
     0x748f82ee, 0x78a5636f, 0x84c87814, 0x8cc70208, 0x90befffa, 0xa4506ceb, 0xbef9a3f7, 0xc67178f2]"

definition sha_H :: "uint32 list" where
  "sha_H = [0x6a09e667, 0xbb67ae85, 0x3c6ef372, 0xa54ff53a, 0x510e527f, 0x9b05688c, 0x1f83d9ab, 0x5be0cd19]"

text \<open>Padding to whole blocks of 64 bytes, with the length in bits at the end.\<close>

definition sha_pad :: "byte list \<Rightarrow> byte list" where
  "sha_pad m = m @ [0x80] @ replicate ((119 - length m mod 64) mod 64) 0 @ be_bytes 8 (int (length m) * 8)"

fun chunks :: "nat \<Rightarrow> nat \<Rightarrow> 'a list \<Rightarrow> 'a list list" where
  "chunks 0 n xs = []"
| "chunks (Suc k) n xs = take n xs # chunks k n (drop n xs)"

definition sha_words :: "byte list \<Rightarrow> uint32 list" where
  "sha_words b = map (\<lambda>c. word_of_int (SetBytes c)) (chunks 16 4 b)"

text \<open>The message schedule; the list of words so far is kept in reverse.\<close>

fun sha_schedule :: "nat \<Rightarrow> uint32 list \<Rightarrow> uint32 list" where
  "sha_schedule 0 w = rev w"
| "sha_schedule (Suc n) w =
     (let s0 = (word_rotr 7 (w ! 14) XOR word_rotr 18 (w ! 14)) XOR drop_bit 3 (w ! 14);
          s1 = (word_rotr 17 (w ! 1) XOR word_rotr 19 (w ! 1)) XOR drop_bit 10 (w ! 1)
      in sha_schedule n ((w ! 15 + s0 + w ! 6 + s1) # w))"

fun sha_round :: "uint32 \<times> uint32 \<Rightarrow> uint32 list \<Rightarrow> uint32 list" where
  "sha_round (k, w) [a, b, c, d, e, f, g, h] =
     (let s1 = (word_rotr 6 e XOR word_rotr 11 e) XOR word_rotr 25 e;
          ch = (e AND f) XOR (NOT e AND g);
          t1 = h + s1 + ch + k + w;
          s0 = (word_rotr 2 a XOR word_rotr 13 a) XOR word_rotr 22 a;
          maj = ((a AND b) XOR (a AND c)) XOR (b AND c);
          t2 = s0 + maj
      in [t1 + t2, a, b, c, d + t1, e, f, g])"
| "sha_round _ v = v"

definition sha_block :: "byte list \<Rightarrow> uint32 list \<Rightarrow> uint32 list" where
  "sha_block b h =
     map2 (+) h (fold sha_round (zip sha_K (sha_schedule 48 (rev (sha_words b)))) h)"

definition sha256_Sum :: "byte list \<Rightarrow> byte list" where
  "sha256_Sum m =
     (let p = sha_pad m; h = fold sha_block (chunks (length p div 64) 64 p) sha_H
      in concat (map (\<lambda>w. be_bytes 4 (uint w)) h))"

lemma length_sha_round [simp]: "length (sha_round kw v) = length v"
  by (induction kw v rule: sha_round.induct) (auto simp: Let_def)

lemma length_sha_rounds [simp]: "length (fold sha_round kws v) = length v"
  by (induction kws arbitrary: v) auto

lemma length_sha_blocks: "length h = 8 \<Longrightarrow> length (fold sha_block bs h) = 8"
  by (induction bs arbitrary: h) (auto simp: sha_block_def)

lemma length_concat_const: "(\<And>x. x \<in> set xs \<Longrightarrow> length (f x) = n) \<Longrightarrow> length (concat (map f xs)) = n * length xs"
  by (induction xs) auto

lemma length_sha256_Sum [simp]: "length (sha256_Sum m) = 32"
proof -
  have "length sha_H = 8" by (simp add: sha_H_def)
  then have "length (fold sha_block bs sha_H) = 8" for bs by (rule length_sha_blocks)
  then show ?thesis by (simp add: sha256_Sum_def Let_def length_concat_const [where n = 4])
qed

end
