(* ===== verification/Blake2f.thy ===== *)
theory Blake2f
  imports Go_Big
begin

text \<open>
  The BLAKE2b compression function of the ninth precompiled contract
  (\<open>state/runtime/precompiled/blake2f.go\<close>) and its reference, the function \<open>F\<close> of
  RFC 7693.
\<close>

section \<open>The compression function\<close>

definition blake_IV :: "uint64 list" where
  "blake_IV =
    [0x6a09e667f3bcc908, 0xbb67ae8584caa73b, 0x3c6ef372fe94f82b, 0xa54ff53a5f1d36f1,
     0x510e527fade682d1, 0x9b05688c2b3e6c1f, 0x1f83d9abfb41bd6b, 0x5be0cd19137e2179]"

definition precomputed :: "nat list list" where
  "precomputed =
    [[0, 2, 4, 6, 1, 3, 5, 7, 8, 10, 12, 14, 9, 11, 13, 15],
     [14, 4, 9, 13, 10, 8, 15, 6, 1, 0, 11, 5, 12, 2, 7, 3],
     [11, 12, 5, 15, 8, 0, 2, 13, 10, 3, 7, 9, 14, 6, 1, 4],
     [7, 3, 13, 11, 9, 1, 12, 14, 2, 5, 4, 15, 6, 10, 0, 8],
     [9, 5, 2, 10, 0, 7, 4, 15, 14, 11, 6, 3, 1, 12, 8, 13],
     [2, 6, 0, 8, 12, 10, 11, 3, 4, 7, 15, 1, 13, 5, 14, 9],
     [12, 1, 14, 4, 5, 15, 13, 10, 0, 6, 9, 8, 7, 3, 2, 11],
     [13, 7, 12, 3, 11, 14, 1, 9, 5, 15, 8, 2, 0, 4, 6, 10],
     [6, 14, 11, 0, 15, 9, 3, 8, 12, 13, 1, 10, 2, 7, 4, 5],
     [10, 8, 7, 1, 2, 4, 6, 5, 15, 9, 3, 13, 11, 14, 12, 0]]"

text \<open>
  The seven statements that the round repeats for a column or a diagonal, with a
  message word, a first and a second rotation.
\<close>

definition half_mix ::
  "nat \<Rightarrow> nat \<Rightarrow> nat \<Rightarrow> nat \<Rightarrow> uint64 \<Rightarrow> nat \<Rightarrow> nat \<Rightarrow> uint64 list \<Rightarrow> uint64 list" where
  "half_mix a b c d x r1 r2 v =
     (let v = v[a := v ! a + x];
          v = v[a := v ! a + v ! b];
          v = v[d := v ! d XOR v ! a];
          v = v[d := word_rotr r1 (v ! d)];
          v = v[c := v ! c + v ! d];
          v = v[b := v ! b XOR v ! c]
      in v[b := word_rotr r2 (v ! b)])"

definition blake_round :: "uint64 list \<Rightarrow> nat list \<Rightarrow> uint64 list \<Rightarrow> uint64 list" where
  "blake_round m s v =
     (let v = half_mix 0 4 8 12 (m ! (s ! 0)) 32 24 v;
          v = half_mix 1 5 9 13 (m ! (s ! 1)) 32 24 v;
          v = half_mix 2 6 10 14 (m ! (s ! 2)) 32 24 v;
          v = half_mix 3 7 11 15 (m ! (s ! 3)) 32 24 v;
          v = half_mix 0 4 8 12 (m ! (s ! 4)) 16 63 v;
          v = half_mix 1 5 9 13 (m ! (s ! 5)) 16 63 v;
          v = half_mix 2 6 10 14 (m ! (s ! 6)) 16 63 v;
          v = half_mix 3 7 11 15 (m ! (s ! 7)) 16 63 v;
          v = half_mix 0 5 10 15 (m ! (s ! 8)) 32 24 v;
          v = half_mix 1 6 11 12 (m ! (s ! 9)) 32 24 v;
          v = half_mix 2 7 8 13 (m ! (s ! 10)) 32 24 v;
          v = half_mix 3 4 9 14 (m ! (s ! 11)) 32 24 v;
          v = half_mix 0 5 10 15 (m ! (s ! 12)) 16 63 v;
          v = half_mix 1 6 11 12 (m ! (s ! 13)) 16 63 v;
          v = half_mix 2 7 8 13 (m ! (s ! 14)) 16 63 v
      in half_mix 3 4 9 14 (m ! (s ! 15)) 16 63 v)"

text \<open>The loop over the rounds, from round \<open>j\<close> on.\<close>

fun blake_rounds :: "nat \<Rightarrow> nat \<Rightarrow> uint64 list \<Rightarrow> uint64 list \<Rightarrow> uint64 list" where
  "blake_rounds 0 j m v = v"
| "blake_rounds (Suc n) j m v = blake_rounds n (Suc j) m (blake_round m (precomputed ! (j mod 10)) v)"

definition blake_init :: "uint64 list \<Rightarrow> uint64 list \<Rightarrow> bool \<Rightarrow> uint64 list" where
  "blake_init h c f =
     (let v = h @ blake_IV;
          v = v[12 := v ! 12 XOR c ! 0];
          v = v[13 := v ! 13 XOR c ! 1]
      in if f then v[14 := v ! 14 XOR 0xffffffffffffffff] else v)"

definition blake_F :: "uint64 list \<Rightarrow> uint64 list \<Rightarrow> uint64 list \<Rightarrow> bool \<Rightarrow> 32 word \<Rightarrow> uint64 list" where
  "blake_F h m c f rounds =
     (let v = blake_rounds (unat rounds) 0 m (blake_init h c f)
      in map (\<lambda>i. h ! i XOR (v ! i XOR v ! (i + 8))) [0..<8])"

section \<open>The precompiled contract\<close>

definition le_uint64 :: "byte list \<Rightarrow> uint64" where
  "le_uint64 b = word_of_int (SetBytes (rev (take 8 b)))"

definition put_le_uint64 :: "uint64 \<Rightarrow> byte list" where
  "put_le_uint64 w = rev (be_bytes 8 (uint w))"

fun read_uint64s :: "nat \<Rightarrow> byte list \<Rightarrow> uint64 list" where
  "read_uint64s 0 b = []"
| "read_uint64s (Suc n) b = le_uint64 (take 8 b) # read_uint64s n (drop 8 b)"

definition blake2f_gas :: "byte list \<Rightarrow> uint64" where
  "blake2f_gas input = (if length input \<noteq> 213 then 0 else word_of_int (SetBytes (take 4 input)))"

datatype blake_error = ErrBadLength | ErrBadFlag

definition blake2f_run :: "byte list \<Rightarrow> blake_error + byte list" where
  "blake2f_run input =
     (if length input \<noteq> 213 then Inl ErrBadLength
      else if input ! 212 \<noteq> 0 \<and> input ! 212 \<noteq> 1 then Inl ErrBadFlag
      else
        let rounds = word_of_int (SetBytes (take 4 input));
            h = read_uint64s 8 (drop 4 input);
            m = read_uint64s 16 (drop 68 input);
            c = read_uint64s 2 (drop 196 input);
            flag = input ! 212
        in Inr (concat (map put_le_uint64 (blake_F h m c (flag = 1) rounds))))"

section \<open>The reference\<close>

text \<open>The mixing function \<open>G\<close> and the message schedule of RFC 7693.\<close>

definition rfc_G :: "nat \<Rightarrow> nat \<Rightarrow> nat \<Rightarrow> nat \<Rightarrow> uint64 \<Rightarrow> uint64 \<Rightarrow> uint64 list \<Rightarrow> uint64 list" where
  "rfc_G a b c d x y v =
     (let v = v[a := v ! a + v ! b + x];
          v = v[d := word_rotr 32 (v ! d XOR v ! a)];
          v = v[c := v ! c + v ! d];
          v = v[b := word_rotr 24 (v ! b XOR v ! c)];
          v = v[a := v ! a + v ! b + y];
          v = v[d := word_rotr 16 (v ! d XOR v ! a)];
          v = v[c := v ! c + v ! d]
      in v[b := word_rotr 63 (v ! b XOR v ! c)])"

definition rfc_sigma :: "nat list list" where
  "rfc_sigma =
    [[0, 1, 2, 3, 4, 5, 6, 7, 8, 9, 10, 11, 12, 13, 14, 15],
     [14, 10, 4, 8, 9, 15, 13, 6, 1, 12, 0, 2, 11, 7, 5, 3],
     [11, 8, 12, 0, 5, 2, 15, 13, 10, 14, 3, 6, 7, 1, 9, 4],
     [7, 9, 3, 1, 13, 12, 11, 14, 2, 6, 5, 10, 4, 0, 15, 8],
     [9, 0, 5, 7, 2, 4, 10, 15, 14, 1, 11, 12, 6, 8, 3, 13],
     [2, 12, 6, 10, 0, 11, 8, 3, 4, 13, 7, 5, 15, 14, 1, 9],
     [12, 5, 1, 15, 14, 13, 4, 10, 0, 7, 6, 3, 9, 2, 8, 11],
     [13, 11, 7, 14, 12, 1, 3, 9, 5, 0, 15, 4, 8, 6, 2, 10],
     [6, 15, 14, 9, 11, 3, 0, 8, 12, 2, 13, 7, 1, 4, 10, 5],
     [10, 2, 8, 4, 7, 6, 1, 5, 15, 11, 9, 14, 3, 12, 13, 0]]"

definition rfc_round :: "uint64 list \<Rightarrow> nat list \<Rightarrow> uint64 list \<Rightarrow> uint64 list" where
  "rfc_round m s v =
     (let v = rfc_G 0 4 8 12 (m ! (s ! 0)) (m ! (s ! 1)) v;
          v = rfc_G 1 5 9 13 (m ! (s ! 2)) (m ! (s ! 3)) v;
          v = rfc_G 2 6 10 14 (m ! (s ! 4)) (m ! (s ! 5)) v;
          v = rfc_G 3 7 11 15 (m ! (s ! 6)) (m ! (s ! 7)) v;
          v = rfc_G 0 5 10 15 (m ! (s ! 8)) (m ! (s ! 9)) v;
          v = rfc_G 1 6 11 12 (m ! (s ! 10)) (m ! (s ! 11)) v;
          v = rfc_G 2 7 8 13 (m ! (s ! 12)) (m ! (s ! 13)) v
      in rfc_G 3 4 9 14 (m ! (s ! 14)) (m ! (s ! 15)) v)"

fun rfc_rounds :: "nat \<Rightarrow> nat \<Rightarrow> uint64 list \<Rightarrow> uint64 list \<Rightarrow> uint64 list" where
  "rfc_rounds 0 j m v = v"
| "rfc_rounds (Suc n) j m v = rfc_rounds n (Suc j) m (rfc_round m (rfc_sigma ! (j mod 10)) v)"

definition rfc_F :: "uint64 list \<Rightarrow> uint64 list \<Rightarrow> uint64 \<Rightarrow> uint64 \<Rightarrow> bool \<Rightarrow> nat \<Rightarrow> uint64 list" where
  "rfc_F h m t0 t1 f rounds =
     (let v = (h @ blake_IV)[12 := blake_IV ! 4 XOR t0, 13 := blake_IV ! 5 XOR t1];
          v = (if f then v[14 := NOT (v ! 14)] else v);
          v = rfc_rounds rounds 0 m v
      in map (\<lambda>i. (h ! i XOR v ! i) XOR v ! (i + 8)) [0..<8])"

text \<open>The order in which the source takes the message words.\<close>

definition regroup :: "nat list" where
  "regroup = [0, 2, 4, 6, 1, 3, 5, 7, 8, 10, 12, 14, 9, 11, 13, 15]"

lemma precomputed_sigma: "j < 10 \<Longrightarrow> precomputed ! j = map (\<lambda>i. rfc_sigma ! j ! i) regroup"
  by (auto simp: precomputed_def rfc_sigma_def regroup_def nth_Cons' split: if_splits)

text \<open>Half steps on disjoint positions commute, and two half steps on the same make a \<open>G\<close>.\<close>

lemma half_mix_G:
  assumes "distinct [a, b, c, d]" and "max (max a b) (max c d) < length v"
  shows "half_mix a b c d y 16 63 (half_mix a b c d x 32 24 v) = rfc_G a b c d x y v"
  using assms by (simp add: half_mix_def rfc_G_def Let_def add_ac)

lemma length_half_mix [simp]: "length (half_mix a b c d x r1 r2 v) = length v"
  by (simp add: half_mix_def Let_def)

lemma half_mix_nth_other:
  "i \<noteq> a \<Longrightarrow> i \<noteq> b \<Longrightarrow> i \<noteq> c \<Longrightarrow> i \<noteq> d \<Longrightarrow> half_mix a b c d x r1 r2 v ! i = v ! i"
  by (simp add: half_mix_def Let_def)

lemma half_mix_nth:
  assumes "distinct [a, b, c, d]" and "max (max a b) (max c d) < length v"
    and "v ! a = w ! a" and "v ! b = w ! b" and "v ! c = w ! c" and "v ! d = w ! d" and "length w = length v"
    and "i = a \<or> i = b \<or> i = c \<or> i = d"
  shows "half_mix a b c d x r1 r2 v ! i = half_mix a b c d x r1 r2 w ! i"
  using assms by (auto simp: half_mix_def Let_def nth_list_update)

lemma half_mix_commute:
  assumes "distinct [a, b, c, d, a', b', c', d']"
    and "max (max a b) (max c d) < length v" and "max (max a' b') (max c' d') < length v"
  shows "half_mix a b c d x r1 r2 (half_mix a' b' c' d' x' r1' r2' v) =
         half_mix a' b' c' d' x' r1' r2' (half_mix a b c d x r1 r2 v)" (is "?l = ?r")
proof (rule nth_equalityI)
  fix i
  consider "i = a \<or> i = b \<or> i = c \<or> i = d" | "i = a' \<or> i = b' \<or> i = c' \<or> i = d'"
    | "i \<notin> {a, b, c, d, a', b', c', d'}"
    by blast
  then show "?l ! i = ?r ! i"
  proof cases
    case 1
    then have "?l ! i = half_mix a b c d x r1 r2 v ! i"
      using assms by (intro half_mix_nth) (auto simp: half_mix_nth_other)
    also have "\<dots> = ?r ! i" using 1 assms by (intro half_mix_nth_other [symmetric]) auto
    finally show ?thesis .
  next
    case 2
    then have "?r ! i = half_mix a' b' c' d' x' r1' r2' v ! i"
      using assms by (intro half_mix_nth) (auto simp: half_mix_nth_other)
    also have "\<dots> = ?l ! i" using 2 assms by (intro half_mix_nth_other [symmetric]) auto
    finally show ?thesis by simp
  next
    case 3
    then show ?thesis by (simp add: half_mix_nth_other)
  qed
qed simp

lemma length_rfc_G [simp]: "length (rfc_G a b c d x y v) = length v"
  by (simp add: rfc_G_def Let_def)

text \<open>The second half steps move past the first half steps of the other columns.\<close>

lemma blake_round_rfc:
  assumes "length v = 16" and "j < 10"
  shows "blake_round m (precomputed ! j) v = rfc_round m (rfc_sigma ! j) v"
proof -
  note late = half_mix_commute [where ?r1.0 = 16 and ?r2.0 = 63 and r1' = 32 and r2' = 24]
  show ?thesis
    unfolding blake_round_def rfc_round_def precomputed_sigma [OF assms(2)] Let_def
    by (simp add: assms(1) late half_mix_G regroup_def)
qed

lemma length_rfc_round [simp]: "length (rfc_round m s v) = length v"
  by (simp add: rfc_round_def Let_def)

lemma blake_rounds_rfc:
  "length v = 16 \<Longrightarrow> blake_rounds n j m v = rfc_rounds n j m v"
  by (induction n j m v rule: blake_rounds.induct) (simp_all add: blake_round_rfc)

lemma xor_ones: "(x :: uint64) XOR 0xffffffffffffffff = NOT x"
proof -
  have "(0xffffffffffffffff :: uint64) = - 1" by simp
  then show ?thesis by (simp only: bit.xor_one_right)
qed

text \<open>
  C33. The compression function of the precompiled contract is the function \<open>F\<close> of RFC
  7693: its interleaved half steps and permuted message schedule give the same result
  as the reference for every state, message, counter, flag and number of rounds.
\<close>

theorem blake_F_refines_rfc:
  assumes "length h = 8"
  shows "blake_F h m [t0, t1] f rounds = rfc_F h m t0 t1 f (unat rounds)"
proof -
  have IV: "(h @ blake_IV) ! 12 = blake_IV ! 4" "(h @ blake_IV) ! 13 = blake_IV ! 5"
    using assms by (simp_all add: nth_append)
  have len: "length (blake_init h [t0, t1] f) = 16"
    using assms by (simp add: blake_init_def Let_def blake_IV_def)
  have "blake_init h [t0, t1] f =
      (let v = (h @ blake_IV)[12 := blake_IV ! 4 XOR t0, 13 := blake_IV ! 5 XOR t1]
       in if f then v[14 := NOT (v ! 14)] else v)"
    by (simp add: blake_init_def Let_def IV xor_ones)
  then show ?thesis
    using len by (simp add: blake_F_def rfc_F_def Let_def blake_rounds_rfc xor.assoc)
qed

theorem blake_F_refines_rfc_witness:
  "length (replicate 8 (1 :: uint64)) = 8 \<and>
   blake_F (replicate 8 1) (replicate 16 2) [3, 4] True 12 = rfc_F (replicate 8 1) (replicate 16 2) 3 4 True 12"
  using blake_F_refines_rfc [of "replicate 8 1" "replicate 16 2" 3 4 True 12] by (simp del: replicate.simps)

end
