(* ===== verification/Precompiled.thy ===== *)
theory Precompiled
  imports Runtime_Defs System_Addresses Sha256 Blake2f
begin

text \<open>
  The precompiled contracts (\<open>state/runtime/precompiled\<close>): their prices, their inputs
  and their dispatch.  Elliptic curves, RIPEMD-160, BLS and the ABI codec are
  third-party code and a parameter \<open>P\<close>.  \<open>None\<close> is a panic.
\<close>

section \<open>The parameters\<close>

text \<open>
  A private key is its number; \<open>MarshalPublicKey\<close> is the encoding of its public key,
  and \<open>RecoverCompact sig hash\<close> that of the key which signed.  \<open>rlp\<close> are the values
  handed to the RLP encoder.  The curve operations take
  encoded points and fail on an encoding that is not on the curve.
\<close>

datatype rlp =
    RBytes "byte list" | RUint uint64 | RBigInt "int option" | RNull | RArray "rlp list"

record Prims =
  keccak256 :: "byte list \<Rightarrow> byte list"
  rlp_Marshal :: "rlp \<Rightarrow> byte list"
  SignCompact :: "int \<Rightarrow> byte list \<Rightarrow> byte list option"
  MarshalPublicKey :: "int \<Rightarrow> byte list"
  ripemd160_Sum :: "byte list \<Rightarrow> byte list"
  RecoverCompact :: "byte list \<Rightarrow> byte list \<Rightarrow> byte list option"
  bn_Add :: "byte list \<Rightarrow> byte list \<Rightarrow> byte list option"
  bn_ScalarMult :: "byte list \<Rightarrow> int \<Rightarrow> byte list option"
  bn_PairingCheck :: "(byte list \<times> byte list) list \<Rightarrow> bool option"
  abi_DecodeBLSInput :: "byte list \<Rightarrow> (hash \<times> byte list \<times> byte list) option"
  abi_DecodeBLSKeys :: "byte list \<Rightarrow> byte list list option"
  bls_ValidSignature :: "byte list \<Rightarrow> bool"
  bls_ValidPublicKey :: "byte list \<Rightarrow> bool"
  bls_VerifyAggregated :: "byte list \<Rightarrow> byte list list \<Rightarrow> byte list \<Rightarrow> bool"
  abiBoolTrue :: "byte list"
  abiBoolFalse :: "byte list"

section \<open>Signature values\<close>

definition secp256k1N :: int where
  "secp256k1N = 0xfffffffffffffffffffffffffffffffebaaedce6af48a03bbfd25e8cd0364141"

definition secp256k1NHalf :: int where
  "secp256k1NHalf = secp256k1N div 2"

definition ValidateSignatureValues :: "int option \<Rightarrow> int option \<Rightarrow> int option \<Rightarrow> bool \<Rightarrow> bool go" where
  "ValidateSignatureValues v r s isHomestead =
     (case (r, s) of
        (Some r, Some s) \<Rightarrow>
          if r < 1 \<or> s < 1 then Some False
          else do {
            v \<leftarrow> v;
            if v < 0 \<or> 1 < v then Some False
            else if isHomestead then Some (r < secp256k1N \<and> s \<le> secp256k1NHalf)
            else Some (r < secp256k1N \<and> s < secp256k1N) }
      | _ \<Rightarrow> Some False)"

definition RecoverPubkey :: "Prims \<Rightarrow> byte list \<Rightarrow> byte list \<Rightarrow> byte list option" where
  "RecoverPubkey P signature h =
     (if length h \<noteq> 32 then None
      else if length signature < 1 then None
      else RecoverCompact P ((if last signature = 1 then 28 else 27) # butlast signature) h)"

definition Ecrecover :: "Prims \<Rightarrow> byte list \<Rightarrow> byte list \<Rightarrow> byte list option" where
  "Ecrecover P h sig = RecoverPubkey P sig h"

section \<open>Reading the input\<close>

definition leftPad :: "byte list \<Rightarrow> int \<Rightarrow> byte list" where
  "leftPad buf n =
     (if n < int (length buf) then buf else replicate (nat n - length buf) 0 @ buf)"

text \<open>
  \<open>get\<close> fills the shared buffer with the next \<open>size\<close> bytes, padded with zeros, and
  returns the rest.  A negative size is a slice bound out of range.
\<close>

definition p_get :: "byte list \<Rightarrow> int \<Rightarrow> (byte list \<times> byte list) go" where
  "p_get input sz =
     (if sz < 0 then None
      else let n = min (nat sz) (length input)
           in Some (take n input @ replicate (nat sz - n) 0, drop n input))"

definition p_getUint64 :: "byte list \<Rightarrow> (uint64 \<times> byte list) go" where
  "p_getUint64 input = do {
     (buf, rest) \<leftarrow> p_get input 32;
     Some (word_of_int (SetBytes (take 8 (drop 24 buf))), rest) }"

definition baseGasCalc :: "byte list \<Rightarrow> uint64 \<Rightarrow> uint64 \<Rightarrow> uint64" where
  "baseGasCalc input base word = base + of_nat (length input + 31) div 32 * word"

section \<open>Modular exponentiation\<close>

definition adjustedExponentLength :: "int \<Rightarrow> int \<Rightarrow> int" where
  "adjustedExponentLength expLen head =
     (let bitlength = (if head \<noteq> 0 then int (BitLen head) - 1 else 0)
      in if expLen \<le> 32 then bitlength else (expLen - 32) * 8 + bitlength)"

definition subMul :: "int \<Rightarrow> int \<Rightarrow> int \<Rightarrow> int \<Rightarrow> int" where
  "subMul x a b c = (x * b - c) + big_Div (x * x) a"

definition multComplexity :: "int \<Rightarrow> int" where
  "multComplexity x =
     (if x \<le> 64 then x * x
      else if x \<le> 1024 then subMul x 4 96 3072
      else subMul x 16 480 199680)"

definition modExp_gas :: "byte list \<Rightarrow> uint64 go" where
  "modExp_gas input = do {
     (val, tail) \<leftarrow> p_get input 32;
     let baseLen = SetBytes val;
     (val, tail) \<leftarrow> p_get tail 32;
     let expLen = SetBytes val;
     (val, _) \<leftarrow> p_get tail 32;
     let modLen = SetBytes val;
     let input = (if 96 < length input then drop 96 input else []);
     let expHeadLen = (if expLen < 32 then Uint64 expLen else 32);
     expHead \<leftarrow>
       (let bLen = Uint64 baseLen
        in if bLen < of_nat (length input)
           then do { (val, _) \<leftarrow> p_get (drop (unat bLen) input) (sint expHeadLen); Some (SetBytes val) }
           else Some 0);
     let gasCost = multComplexity (if baseLen \<le> modLen then modLen else baseLen);
     let adjExpLen = adjustedExponentLength expLen expHead;
     let gasCost = gasCost * (if 1 \<le> adjExpLen then adjExpLen else 1);
     let gasCost = big_Div gasCost 20;
     Some (if \<not> IsUint64 gasCost then - 1 else Uint64 gasCost) }"

text \<open>\<open>Exp\<close> of \<open>math/big\<close> with a modulus that is not zero.\<close>

definition modExp_run :: "byte list \<Rightarrow> byte list go" where
  "modExp_run input = do {
     (baseLen, input) \<leftarrow> p_getUint64 input;
     (exponentLen, input) \<leftarrow> p_getUint64 input;
     (modulusLen, input) \<leftarrow> p_getUint64 input;
     if baseLen = 0 \<and> modulusLen = 0 then Some []
     else do {
       (val, input) \<leftarrow> p_get input (sint baseLen);
       let base = SetBytes val;
       (val, input) \<leftarrow> p_get input (sint exponentLen);
       let exponent = SetBytes val;
       (val, _) \<leftarrow> p_get input (sint modulusLen);
       let modulus = SetBytes val;
       let res = (if modulus \<noteq> 0 then Bytes (base ^ nat exponent mod modulus) else []);
       Some (leftPad res (sint modulusLen)) } }"

section \<open>The contracts\<close>

text \<open>
  A run returns the output and an error.  The errors without a name in the source are
  numbered: 1 and 2 of the pairing curve (a point that cannot be read, an input of the
  wrong size), 3 and 4 of BLAKE2 (length, flag), 5 to 8 of BLS (input, signature, keys,
  the list of keys).
\<close>

definition ecrecover_run :: "Prims \<Rightarrow> byte list \<Rightarrow> (byte list \<times> error option) go" where
  "ecrecover_run P input = do {
     (input, _) \<leftarrow> p_get input 128;
     if \<exists>i \<in> set [32..<63]. input ! i \<noteq> 0 then Some ([], None)
     else
       let v = input ! 63 - 27;
           r = SetBytes (take 32 (drop 64 input));
           s = SetBytes (take 32 (drop 96 input))
       in do {
         valid \<leftarrow> ValidateSignatureValues (Some (uint v)) (Some r) (Some s) False;
         if \<not> valid then Some ([], None)
         else case Ecrecover P (take 32 input) (take 64 (drop 64 input) @ [v]) of
                None \<Rightarrow> Some ([], None)
              | Some pubKey \<Rightarrow>
                  if pubKey = [] then None
                  else let dst = keccak256 P (drop 1 pubKey)
                       in if length dst < 12 then None else Some (leftPad (drop 12 dst) 32, None) } }"

definition ripemd160h_run :: "Prims \<Rightarrow> byte list \<Rightarrow> byte list \<times> error option" where
  "ripemd160h_run P input = (leftPad (ripemd160_Sum P input) 32, None)"

definition bn256Add_run :: "Prims \<Rightarrow> byte list \<Rightarrow> (byte list \<times> error option) go" where
  "bn256Add_run P input = do {
     (v1, input) \<leftarrow> p_get input 64;
     (v2, _) \<leftarrow> p_get input 64;
     Some (case bn_Add P v1 v2 of None \<Rightarrow> ([], Some (errPrecompile 1)) | Some c \<Rightarrow> (c, None)) }"

definition bn256Mul_run :: "Prims \<Rightarrow> byte list \<Rightarrow> (byte list \<times> error option) go" where
  "bn256Mul_run P input = do {
     (v, input) \<leftarrow> p_get input 64;
     (k, _) \<leftarrow> p_get input 32;
     Some (case bn_ScalarMult P v (SetBytes k) of None \<Rightarrow> ([], Some (errPrecompile 1)) | Some c \<Rightarrow> (c, None)) }"

fun pairing_points :: "nat \<Rightarrow> byte list \<Rightarrow> (byte list \<times> byte list) list go" where
  "pairing_points 0 input = Some []"
| "pairing_points (Suc n) input = do {
     (a, input) \<leftarrow> p_get input 64;
     (b, input) \<leftarrow> p_get input 128;
     ps \<leftarrow> pairing_points n input;
     Some ((a, b) # ps) }"

definition bn256Pairing_run :: "Prims \<Rightarrow> byte list \<Rightarrow> (byte list \<times> error option) go" where
  "bn256Pairing_run P input =
     (if input = [] then Some (abiBoolTrue P, None)
      else if length input mod 192 \<noteq> 0 then Some ([], Some (errPrecompile 2))
      else do {
        ps \<leftarrow> pairing_points (length input div 192) input;
        Some (case bn_PairingCheck P ps of
                None \<Rightarrow> ([], Some (errPrecompile 1))
              | Some ok \<Rightarrow> (if ok then abiBoolTrue P else abiBoolFalse P, None)) })"

definition blake2f_contract_run :: "byte list \<Rightarrow> byte list \<times> error option" where
  "blake2f_contract_run input =
     (case blake2f_run input of
        Inl ErrBadLength \<Rightarrow> ([], Some (errPrecompile 3))
      | Inl ErrBadFlag \<Rightarrow> ([], Some (errPrecompile 4))
      | Inr res \<Rightarrow> (res, None))"

definition blsAggSignsVerification_run :: "Prims \<Rightarrow> byte list \<Rightarrow> byte list \<times> error option" where
  "blsAggSignsVerification_run P input =
     (case abi_DecodeBLSInput P input of
        None \<Rightarrow> ([], Some (errPrecompile 5))
      | Some (msg, aggSig, blsVerification) \<Rightarrow>
          if \<not> bls_ValidSignature P aggSig then ([], Some (errPrecompile 6))
          else case abi_DecodeBLSKeys P blsVerification of
            None \<Rightarrow> ([], Some (errPrecompile 8))
          | Some publicKeys \<Rightarrow>
              if \<exists>pk \<in> set publicKeys. \<not> bls_ValidPublicKey P pk then ([], Some (errPrecompile 7))
              else (if bls_VerifyAggregated P aggSig publicKeys (Hash_Bytes msg)
                    then abiBoolTrue P else abiBoolFalse P, None))"

text \<open>The native token transfer, the one contract that changes the state.\<close>

definition nativeTransfer_run ::
  "Prims \<Rightarrow> ('h \<Rightarrow> address \<Rightarrow> address \<Rightarrow> int option \<Rightarrow> error option \<times> 'h) \<Rightarrow> byte list \<Rightarrow> address \<Rightarrow> 'h \<Rightarrow>
   (byte list \<times> error option) \<times> 'h" where
  "nativeTransfer_run P transfer input caller h =
     (if length input < 96 then ((abiBoolFalse P, Some ErrInvalidInputData), h)
      else if caller \<noteq> NativeERC20TokenContract then ((abiBoolFalse P, Some ErrUnauthorizedCaller), h)
      else
        let from = BytesToAddress (take 32 input);
            to = BytesToAddress (take 32 (drop 32 input));
            amount = SetBytes (take 32 (drop 64 input))
        in case transfer h from to (Some amount) of
             (Some e, h) \<Rightarrow> ((abiBoolFalse P, Some e), h)
           | (None, h) \<Rightarrow> ((abiBoolTrue P, None), h))"

datatype precompile =
  ecrecover | sha256h | ripemd160h | identity | modExp | bn256Add | bn256Mul | bn256Pairing | blake2f
  | nativeTransfer | blsAggSignsVerification

definition precompile_gas :: "precompile \<Rightarrow> byte list \<Rightarrow> ForksInTime \<Rightarrow> uint64 go" where
  "precompile_gas p input f =
     (case p of
        ecrecover \<Rightarrow> Some 3000
      | sha256h \<Rightarrow> Some (baseGasCalc input 60 12)
      | ripemd160h \<Rightarrow> Some (baseGasCalc input 600 120)
      | identity \<Rightarrow> Some (baseGasCalc input 15 3)
      | modExp \<Rightarrow> modExp_gas input
      | bn256Add \<Rightarrow> Some (if Istanbul f then 150 else 500)
      | bn256Mul \<Rightarrow> Some (if Istanbul f then 6000 else 40000)
      | bn256Pairing \<Rightarrow>
          Some ((if Istanbul f then 45000 else 100000) +
                (if Istanbul f then 34000 else 80000) * of_nat (length input div 192))
      | blake2f \<Rightarrow> Some (blake2f_gas input)
      | nativeTransfer \<Rightarrow> Some 21000
      | blsAggSignsVerification \<Rightarrow> Some 150000)"

definition precompile_run ::
  "Prims \<Rightarrow> ('h \<Rightarrow> address \<Rightarrow> address \<Rightarrow> int option \<Rightarrow> error option \<times> 'h) \<Rightarrow> precompile \<Rightarrow> byte list \<Rightarrow>
   address \<Rightarrow> 'h \<Rightarrow> ((byte list \<times> error option) \<times> 'h) go" where
  "precompile_run P transfer p input caller h =
     (case p of
        ecrecover \<Rightarrow> map_option (\<lambda>r. (r, h)) (ecrecover_run P input)
      | sha256h \<Rightarrow> Some ((sha256_Sum input, None), h)
      | ripemd160h \<Rightarrow> Some (ripemd160h_run P input, h)
      | identity \<Rightarrow> Some ((input, None), h)
      | modExp \<Rightarrow> map_option (\<lambda>r. ((r, None), h)) (modExp_run input)
      | bn256Add \<Rightarrow> map_option (\<lambda>r. (r, h)) (bn256Add_run P input)
      | bn256Mul \<Rightarrow> map_option (\<lambda>r. (r, h)) (bn256Mul_run P input)
      | bn256Pairing \<Rightarrow> map_option (\<lambda>r. (r, h)) (bn256Pairing_run P input)
      | blake2f \<Rightarrow> Some (blake2f_contract_run input, h)
      | nativeTransfer \<Rightarrow> Some (nativeTransfer_run P transfer input caller h)
      | blsAggSignsVerification \<Rightarrow> Some (blsAggSignsVerification_run P input, h))"

section \<open>The runtime\<close>

definition precompile_contracts :: "address \<rightharpoonup> precompile" where
  "precompile_contracts =
     [StringToAddress ''1'' \<mapsto> ecrecover, StringToAddress ''2'' \<mapsto> sha256h,
      StringToAddress ''3'' \<mapsto> ripemd160h, StringToAddress ''4'' \<mapsto> identity,
      StringToAddress ''5'' \<mapsto> modExp, StringToAddress ''6'' \<mapsto> bn256Add,
      StringToAddress ''7'' \<mapsto> bn256Mul, StringToAddress ''8'' \<mapsto> bn256Pairing,
      StringToAddress ''9'' \<mapsto> blake2f, NativeTransferPrecompile \<mapsto> nativeTransfer,
      BLSAggSigsVerificationPrecompile \<mapsto> blsAggSignsVerification]"

definition Precompiled_CanRun :: "Contract \<Rightarrow> ForksInTime \<Rightarrow> bool" where
  "Precompiled_CanRun c f =
     (if precompile_contracts (CodeAddress c) = None then False
      else if CodeAddress c \<in> {StringToAddress ''5'', StringToAddress ''6'', StringToAddress ''7'',
                               StringToAddress ''8''} then Byzantium f
      else if CodeAddress c = StringToAddress ''9'' then Istanbul f
      else True)"

definition Precompiled_Run ::
  "Prims \<Rightarrow> ('h \<Rightarrow> address \<Rightarrow> address \<Rightarrow> int option \<Rightarrow> error option \<times> 'h) \<Rightarrow> Contract \<Rightarrow> 'h \<Rightarrow> ForksInTime \<Rightarrow>
   (ExecutionResult \<times> 'h) go" where
  "Precompiled_Run P transfer c h f = do {
     p \<leftarrow> precompile_contracts (CodeAddress c);
     gasCost \<leftarrow> precompile_gas p (Input c) f;
     if Gas c < gasCost then Some (no_result\<lparr>GasLeft := 0, Err := Some ErrOutOfGas\<rparr>, h)
     else do {
       ((returnValue, err), h) \<leftarrow> precompile_run P transfer p (Input c) (Caller c) h;
       Some (if err \<noteq> None then no_result\<lparr>GasLeft := 0, ReturnValue := [], Err := err\<rparr>
             else no_result\<lparr>ReturnValue := returnValue, GasLeft := Gas c - gasCost, Err := err\<rparr>, h) } }"

end
