(* ===== verification/Transaction.thy ===== *)
theory Transaction
  imports Runtime_Defs
begin

text \<open>
  Transactions and their fees (\<open>types/transaction.go\<close>) and the two versions of the
  fee rules (\<open>state/londonFix_fork.go\<close>).  A \<open>*big.Int\<close> field may be nil, so it is an
  \<open>option\<close>; using a nil number is a panic, \<open>None\<close>.
\<close>

section \<open>Transactions\<close>

type_synonym TxType = byte

definition LegacyTx :: TxType where "LegacyTx = 0x0"
definition StateTx :: TxType where "StateTx = 0x7f"
definition DynamicFeeTx :: TxType where "DynamicFeeTx = 0x02"

definition StateTransactionGasLimit :: uint64 where "StateTransactionGasLimit = 1000000"

definition txTypeFromByte :: "byte \<Rightarrow> TxType \<times> bool" where
  "txTypeFromByte b = (b, b = LegacyTx \<or> b = StateTx \<or> b = DynamicFeeTx)"

record Transaction =
  TxNonce :: uint64
  TxGasPrice :: "int option"
  GasTipCap :: "int option"
  GasFeeCap :: "int option"
  TxGas :: uint64
  To :: "address option"
  TxValue :: "int option"
  TxInput :: "byte list"
  TxV :: "int option"
  TxR :: "int option"
  TxS :: "int option"
  TxHash :: hash
  From :: address
  Tx_Type :: TxType
  TxChainID :: "int option"

definition IsContractCreation :: "Transaction \<Rightarrow> bool" where
  "IsContractCreation t \<longleftrightarrow> To t = None"

definition IsValueTransfer :: "Transaction \<Rightarrow> bool" where
  "IsValueTransfer t \<longleftrightarrow>
     (case TxValue t of None \<Rightarrow> False | Some v \<Rightarrow> 0 < v) \<and> TxInput t = [] \<and> \<not> IsContractCreation t"

text \<open>A copy has the four amounts set, to zero where they were nil.\<close>

definition or_zero :: "int option \<Rightarrow> int option" where
  "or_zero x = Some (case x of None \<Rightarrow> 0 | Some v \<Rightarrow> v)"

definition Transaction_Copy :: "Transaction \<Rightarrow> Transaction" where
  "Transaction_Copy t =
     t\<lparr>TxGasPrice := or_zero (TxGasPrice t), GasTipCap := or_zero (GasTipCap t),
       GasFeeCap := or_zero (GasFeeCap t), TxValue := or_zero (TxValue t)\<rparr>"

definition Cost :: "Transaction \<Rightarrow> int go" where
  "Cost t = do {
     factor \<leftarrow> (case GasFeeCap t of
                  Some c \<Rightarrow> if 0 < BitLen c then Some c else TxGasPrice t
                | None \<Rightarrow> TxGasPrice t);
     v \<leftarrow> TxValue t;
     Some (factor * uint (TxGas t) + v) }"

definition GetGasPrice :: "Transaction \<Rightarrow> uint64 \<Rightarrow> int" where
  "GetGasPrice t baseFee =
     (let calculated =
        (if baseFee = 0 then 0
         else
           let gasFeeCap = (case GasFeeCap t of None \<Rightarrow> 0 | Some c \<Rightarrow> c);
               gasTipCap = (case GasTipCap t of None \<Rightarrow> 0 | Some c \<Rightarrow> c)
           in if 0 < BitLen gasFeeCap \<or> 0 < BitLen gasTipCap
              then BigMin (gasTipCap + uint baseFee) gasFeeCap
              else 0)
      in case TxGasPrice t of
           Some p \<Rightarrow> if 0 < BitLen p then p else calculated
         | None \<Rightarrow> calculated)"

definition GetGasTipCap :: "Transaction \<Rightarrow> int option" where
  "GetGasTipCap t = (if Tx_Type t = DynamicFeeTx then GasTipCap t else TxGasPrice t)"

definition GetGasFeeCap :: "Transaction \<Rightarrow> int option" where
  "GetGasFeeCap t = (if Tx_Type t = DynamicFeeTx then GasFeeCap t else TxGasPrice t)"

definition EffectiveGasTip :: "Transaction \<Rightarrow> int option \<Rightarrow> int go" where
  "EffectiveGasTip t baseFee =
     (case baseFee of
        None \<Rightarrow> GetGasTipCap t
      | Some b \<Rightarrow>
          if BitLen b = 0 then GetGasTipCap t
          else do { tip \<leftarrow> GetGasTipCap t; cap \<leftarrow> GetGasFeeCap t; Some (BigMin tip (cap - b)) })"

text \<open>The position of the first transaction with the hash, or \<open>-1\<close>.\<close>

fun find_from :: "Transaction list \<Rightarrow> hash \<Rightarrow> int \<Rightarrow> Transaction option \<times> int" where
  "find_from [] h i = (None, -1)"
| "find_from (t # ts) h i = (if TxHash t = h then (Some t, i) else find_from ts h (i + 1))"

definition FindTxByHash :: "Transaction list \<Rightarrow> hash \<Rightarrow> Transaction option \<times> int" where
  "FindTxByHash txs h = find_from txs h 0"

section \<open>The errors of the consensus rules\<close>

datatype rule_error =
    ErrNonceIncorrect
  | ErrNotEnoughFundsForGas
  | ErrBlockLimitReached
  | ErrIntrinsicGasOverflow
  | ErrNotEnoughIntrinsicGas
  | ErrTipAboveFeeCap
  | ErrTipVeryHigh
  | ErrFeeCapVeryHigh
  | ErrFeeCapTooLow
  | ErrStateTxGasPrice
  | ErrStateTxGas
  | ErrStateTxFrom
  | ErrStateTxTo
  | ErrSender
  | RuntimeError error

section \<open>The fee rules\<close>

datatype LondonFixFork = LondonFixForkV1 | LondonFixForkV2

text \<open>
  The checks on the two caps of a dynamic-fee transaction, shared by both versions:
  \<open>Some None\<close> says that they passed and \<open>None\<close> that there is nothing to check.
\<close>

definition check_caps :: "Transaction \<Rightarrow> rule_error option option go" where
  "check_caps msg = do {
     feeCap \<leftarrow> GasFeeCap msg;
     skip \<leftarrow> (if BitLen feeCap = 0 then do { tip \<leftarrow> GasTipCap msg; Some (BitLen tip = 0) } else Some False);
     if skip then Some None
     else if 256 < BitLen feeCap then Some (Some (Some ErrFeeCapVeryHigh))
     else do {
       tip \<leftarrow> GasTipCap msg;
       Some (Some (if 256 < BitLen tip then Some ErrTipVeryHigh
                   else if feeCap < tip then Some ErrTipAboveFeeCap else None)) } }"

definition checkDynamicFees_V1 :: "Transaction \<Rightarrow> int option \<Rightarrow> rule_error option go" where
  "checkDynamicFees_V1 msg baseFee =
     (if Tx_Type msg \<noteq> DynamicFeeTx then Some None
      else do {
        r \<leftarrow> check_caps msg;
        case r of
          None \<Rightarrow> Some None
        | Some (Some e) \<Rightarrow> Some (Some e)
        | Some None \<Rightarrow> do {
            feeCap \<leftarrow> GasFeeCap msg; b \<leftarrow> baseFee;
            Some (if feeCap < b then Some ErrFeeCapTooLow else None) } })"

definition checkDynamicFees_V2 :: "Transaction \<Rightarrow> bool \<Rightarrow> int option \<Rightarrow> rule_error option go" where
  "checkDynamicFees_V2 msg london baseFee =
     (if \<not> london then Some None
      else do {
        r \<leftarrow> (if Tx_Type msg = DynamicFeeTx then check_caps msg else Some (Some None));
        case r of
          None \<Rightarrow> Some None
        | Some (Some e) \<Rightarrow> Some (Some e)
        | Some None \<Rightarrow> do {
            cap \<leftarrow> GetGasFeeCap msg; b \<leftarrow> baseFee;
            Some (if cap < b then Some ErrFeeCapTooLow else None) } })"

definition checkDynamicFees ::
  "LondonFixFork \<Rightarrow> Transaction \<Rightarrow> bool \<Rightarrow> int option \<Rightarrow> rule_error option go" where
  "checkDynamicFees v msg london baseFee =
     (case v of
        LondonFixForkV1 \<Rightarrow> checkDynamicFees_V1 msg baseFee
      | LondonFixForkV2 \<Rightarrow> checkDynamicFees_V2 msg london baseFee)"

definition getUpfrontGasCost_V1 :: "Transaction \<Rightarrow> int go" where
  "getUpfrontGasCost_V1 msg = do {
     factor \<leftarrow> (case GasFeeCap msg of
                  Some c \<Rightarrow> if 0 < BitLen c then Some c else TxGasPrice msg
                | None \<Rightarrow> TxGasPrice msg);
     Some (uint (TxGas msg) * factor) }"

definition getUpfrontGasCost_V2 :: "Transaction \<Rightarrow> int option \<Rightarrow> int go" where
  "getUpfrontGasCost_V2 msg baseFee = do {
     b \<leftarrow> baseFee; Some (uint (TxGas msg) * GetGasPrice msg (Uint64 b)) }"

definition getUpfrontGasCost :: "LondonFixFork \<Rightarrow> Transaction \<Rightarrow> int option \<Rightarrow> int go" where
  "getUpfrontGasCost v msg baseFee =
     (case v of
        LondonFixForkV1 \<Rightarrow> getUpfrontGasCost_V1 msg
      | LondonFixForkV2 \<Rightarrow> getUpfrontGasCost_V2 msg baseFee)"

definition getEffectiveTip_V1 :: "Transaction \<Rightarrow> int \<Rightarrow> int option \<Rightarrow> bool \<Rightarrow> int go" where
  "getEffectiveTip_V1 msg gasPrice baseFee london =
     (if london \<and> Tx_Type msg = DynamicFeeTx
      then do { cap \<leftarrow> GasFeeCap msg; b \<leftarrow> baseFee; tip \<leftarrow> GasTipCap msg; Some (BigMin (cap - b) tip) }
      else Some gasPrice)"

definition getEffectiveTip_V2 :: "Transaction \<Rightarrow> int \<Rightarrow> int option \<Rightarrow> bool \<Rightarrow> int go" where
  "getEffectiveTip_V2 msg gasPrice baseFee london =
     (if london then EffectiveGasTip msg baseFee else Some gasPrice)"

definition getEffectiveTip :: "LondonFixFork \<Rightarrow> Transaction \<Rightarrow> int \<Rightarrow> int option \<Rightarrow> bool \<Rightarrow> int go" where
  "getEffectiveTip v msg gasPrice baseFee london =
     (case v of
        LondonFixForkV1 \<Rightarrow> getEffectiveTip_V1 msg gasPrice baseFee london
      | LondonFixForkV2 \<Rightarrow> getEffectiveTip_V2 msg gasPrice baseFee london)"

end
