(* ===== verification/Tx_Signer.thy ===== *)
theory Tx_Signer
  imports Precompiled Transaction
begin

text \<open>
  The transaction signers (\<open>crypto/txsigner.go\<close> and its three implementations).  The
  curve, Keccak-256 and the RLP encoder are the parameter \<open>P\<close>; \<open>None\<close> is a panic and
  \<open>Some (Inl e)\<close> an error.
\<close>

section \<open>Hashing and encoding\<close>

datatype sign_error = ErrInvalidTxnSignature | ErrRecover | ErrSign

text \<open>The list of values whose encoding is signed.\<close>

definition tx_fields :: "Transaction \<Rightarrow> uint64 \<Rightarrow> rlp list" where
  "tx_fields tx chainID =
     (if Tx_Type tx \<noteq> LegacyTx then [RUint chainID] else []) @
     [RUint (TxNonce tx)] @
     (if Tx_Type tx = DynamicFeeTx then [RBigInt (GasTipCap tx), RBigInt (GasFeeCap tx)]
      else [RBigInt (TxGasPrice tx)]) @
     [RUint (TxGas tx),
      case To tx of None \<Rightarrow> RNull | Some a \<Rightarrow> RBytes (Address_Bytes a),
      RBigInt (TxValue tx), RBytes (TxInput tx)] @
     (if Tx_Type tx = LegacyTx
      then (if chainID \<noteq> 0 then [RUint chainID, RUint 0, RUint 0] else [])
      else [RArray []])"

definition calcTxHash :: "Prims \<Rightarrow> Transaction \<Rightarrow> uint64 \<Rightarrow> hash" where
  "calcTxHash P tx chainID =
     (let v = rlp_Marshal P (RArray (tx_fields tx chainID))
      in BytesToHash (if Tx_Type tx = LegacyTx then keccak256 P v else keccak256 P (Tx_Type tx # v)))"

definition encodeSignature ::
  "int option \<Rightarrow> int option \<Rightarrow> int option \<Rightarrow> bool \<Rightarrow> (sign_error + byte list) go" where
  "encodeSignature R S V isHomestead = do {
     valid \<leftarrow> ValidateSignatureValues V R S isHomestead;
     if \<not> valid then Some (Inl ErrInvalidTxnSignature)
     else do {
       r \<leftarrow> R; s \<leftarrow> S; v \<leftarrow> V;
       Some (Inr (replicate (32 - length (Bytes r)) 0 @ Bytes r @
                  replicate (32 - length (Bytes s)) 0 @ Bytes s @ [word_of_int v])) } }"

definition Sign :: "Prims \<Rightarrow> int \<Rightarrow> byte list \<Rightarrow> (sign_error + byte list) go" where
  "Sign P priv h =
     (case SignCompact P priv h of
        None \<Rightarrow> Some (Inl ErrSign)
      | Some [] \<Rightarrow> None
      | Some (b # sig) \<Rightarrow> Some (Inr (sig @ [if b = 28 then 1 else 0])))"

definition PubKeyToAddress :: "Prims \<Rightarrow> int \<Rightarrow> address" where
  "PubKeyToAddress P priv = BytesToAddress (drop 12 (keccak256 P (drop 1 (MarshalPublicKey P priv))))"

section \<open>The signers\<close>

datatype TxSigner =
    FrontierSigner bool
  | EIP155Signer uint64 bool
  | LondonSigner uint64 bool TxSigner

definition NewSigner :: "ForksInTime \<Rightarrow> uint64 \<Rightarrow> TxSigner" where
  "NewSigner forks chainID =
     (let signer = (if EIP155 forks then EIP155Signer chainID (Homestead forks)
                    else FrontierSigner (Homestead forks))
      in if London forks then LondonSigner chainID (Homestead forks) signer else signer)"

definition Signer_Hash :: "Prims \<Rightarrow> TxSigner \<Rightarrow> Transaction \<Rightarrow> hash" where
  "Signer_Hash P sg tx =
     (case sg of
        FrontierSigner _ \<Rightarrow> calcTxHash P tx 0
      | EIP155Signer chainID _ \<Rightarrow> calcTxHash P tx chainID
      | LondonSigner chainID _ _ \<Rightarrow> calcTxHash P tx chainID)"

text \<open>From an encoded signature to the address; \<open>pub[1:]\<close> of an empty key panics.\<close>

definition recover_address :: "Prims \<Rightarrow> hash \<Rightarrow> sign_error + byte list \<Rightarrow> (sign_error + address) go" where
  "recover_address P h r =
     (case r of
        Inl e \<Rightarrow> Some (Inl e)
      | Inr sig \<Rightarrow>
          (case Ecrecover P (Hash_Bytes h) sig of
             None \<Rightarrow> Some (Inl ErrRecover)
           | Some pub \<Rightarrow>
               if pub = [] then None
               else let buf = keccak256 P (drop 1 pub)
                    in if length buf < 12 then None else Some (Inr (BytesToAddress (drop 12 buf)))))"

definition Frontier_Sender :: "Prims \<Rightarrow> bool \<Rightarrow> Transaction \<Rightarrow> (sign_error + address) go" where
  "Frontier_Sender P isHomestead tx = do {
     let refV = (case TxV tx of None \<Rightarrow> 0 | Some v \<Rightarrow> SetBytes (Bytes v)) - 27;
     sig \<leftarrow> encodeSignature (TxR tx) (TxS tx) (Some refV) isHomestead;
     recover_address P (Signer_Hash P (FrontierSigner isHomestead) tx) sig }"

definition EIP155_Sender :: "Prims \<Rightarrow> uint64 \<Rightarrow> bool \<Rightarrow> Transaction \<Rightarrow> (sign_error + address) go" where
  "EIP155_Sender P chainID isHomestead tx =
     (let bigV = (case TxV tx of None \<Rightarrow> 0 | Some v \<Rightarrow> SetBytes (Bytes v));
          vv = Uint64 bigV;
          protected = (if nat_BitLen (unat vv) \<le> 8 then vv \<noteq> 27 \<and> vv \<noteq> 28 else True)
      in if \<not> protected then Frontier_Sender P False tx
         else do {
           sig \<leftarrow> encodeSignature (TxR tx) (TxS tx) (Some (bigV - sint chainID * 2 - 35)) isHomestead;
           recover_address P (Signer_Hash P (EIP155Signer chainID isHomestead) tx) sig })"

fun Sender :: "Prims \<Rightarrow> TxSigner \<Rightarrow> Transaction \<Rightarrow> (sign_error + address) go" where
  "Sender P (FrontierSigner hs) tx = Frontier_Sender P hs tx"
| "Sender P (EIP155Signer chainID hs) tx = EIP155_Sender P chainID hs tx"
| "Sender P (LondonSigner chainID hs fallback) tx =
     (if Tx_Type tx \<noteq> DynamicFeeTx then Sender P fallback tx
      else do {
        sig \<leftarrow> encodeSignature (TxR tx) (TxS tx) (TxV tx) hs;
        recover_address P (Signer_Hash P (LondonSigner chainID hs fallback) tx) sig })"

fun calculateV :: "TxSigner \<Rightarrow> byte \<Rightarrow> byte list" where
  "calculateV (FrontierSigner _) parity = Bytes (uint parity + 27)"
| "calculateV (EIP155Signer chainID _) parity = Bytes (uint parity + 35 + sint chainID * 2)"
| "calculateV (LondonSigner _ _ _) parity = Bytes (uint parity)"

definition sign_with :: "Prims \<Rightarrow> TxSigner \<Rightarrow> Transaction \<Rightarrow> int \<Rightarrow> (sign_error + Transaction) go" where
  "sign_with P sg tx priv = do {
     let tx = Transaction_Copy tx;
     r \<leftarrow> Sign P priv (Hash_Bytes (Signer_Hash P sg tx));
     case r of
       Inl e \<Rightarrow> Some (Inl e)
     | Inr sig \<Rightarrow>
         if length sig < 65 then None
         else Some (Inr (tx\<lparr>TxR := Some (SetBytes (take 32 sig)),
                TxS := Some (SetBytes (take 32 (drop 32 sig))),
                TxV := Some (SetBytes (calculateV sg (sig ! 64)))\<rparr>)) }"

fun SignTx :: "Prims \<Rightarrow> TxSigner \<Rightarrow> Transaction \<Rightarrow> int \<Rightarrow> (sign_error + Transaction) go" where
  "SignTx P (LondonSigner chainID hs fallback) tx priv =
     (if Tx_Type tx \<noteq> DynamicFeeTx then SignTx P fallback tx priv
      else sign_with P (LondonSigner chainID hs fallback) tx priv)"
| "SignTx P sg tx priv = sign_with P sg tx priv"

end
