(* ===== verification/Address_List.thy ===== *)
theory Address_List
  imports Runtime_Defs System_Addresses
begin

text \<open>
  The allow and block lists (\<open>state/runtime/addresslist\<close>): a runtime that keeps the
  role of every address in the storage of the list's own address.  The function
  selectors come from a third-party ABI package and are a parameter \<open>A\<close>.
\<close>

section \<open>Roles\<close>

type_synonym Role = hash

definition NoRole :: Role where "NoRole = 0"
definition EnabledRole :: Role where "EnabledRole = 1"
definition AdminRole :: Role where "AdminRole = 2"

definition Role_Uint64 :: "Role \<Rightarrow> uint64" where
  "Role_Uint64 r = (if r = EnabledRole then 1 else if r = AdminRole then 2 else 0)"

definition Role_Bytes :: "Role \<Rightarrow> byte list" where
  "Role_Bytes r = Hash_Bytes r"

definition Role_Enabled :: "Role \<Rightarrow> bool" where
  "Role_Enabled r \<longleftrightarrow> r = AdminRole \<or> r = EnabledRole"

record AddressListABI =
  SetAdminID :: "byte list"
  SetEnabledID :: "byte list"
  SetNoneID :: "byte list"
  ReadAddressListID :: "byte list"

section \<open>The list\<close>

text \<open>The interface through which a list reads and writes its state.\<close>

record 'h stateRef =
  ref_SetState :: "'h \<Rightarrow> address \<Rightarrow> hash \<Rightarrow> hash \<Rightarrow> 'h"
  ref_GetStorage :: "'h \<Rightarrow> address \<Rightarrow> hash \<Rightarrow> hash"

definition writeAddressListCost :: uint64 where "writeAddressListCost = 20000"
definition readAddressListCost :: uint64 where "readAddressListCost = 5000"

definition SetRole :: "'h stateRef \<Rightarrow> address \<Rightarrow> address \<Rightarrow> Role \<Rightarrow> 'h \<Rightarrow> 'h" where
  "SetRole S l addr role h = ref_SetState S h l (BytesToHash (Address_Bytes addr)) role"

definition GetRole :: "'h stateRef \<Rightarrow> address \<Rightarrow> 'h \<Rightarrow> address \<Rightarrow> Role" where
  "GetRole S l h addr = ref_GetStorage S h l (BytesToHash (Address_Bytes addr))"

definition runInputCall ::
  "AddressListABI \<Rightarrow> 'h stateRef \<Rightarrow> address \<Rightarrow> address \<Rightarrow> byte list \<Rightarrow> uint64 \<Rightarrow> bool \<Rightarrow> 'h \<Rightarrow>
   (byte list \<times> uint64 \<times> error option) \<times> 'h" where
  "runInputCall A S l caller input g isStatic h =
     (if length input < 4 then (([], 0, Some errNoFunctionSignature), h)
      else
        let sig = take 4 input; inputBytes = drop 4 input in
        if length inputBytes \<noteq> 32 then (([], 0, Some errInputTooShort), h)
        else
          let inputAddr = BytesToAddress inputBytes in
          if sig = ReadAddressListID A then
            (if g < readAddressListCost then (([], 0, Some ErrOutOfGas), h)
             else ((Role_Bytes (GetRole S l h inputAddr), readAddressListCost, None), h))
          else
            case (if sig = SetAdminID A then Some AdminRole
                  else if sig = SetEnabledID A then Some EnabledRole
                  else if sig = SetNoneID A then Some NoRole
                  else None) of
              None \<Rightarrow> (([], 0, Some errFunctionNotFound), h)
            | Some updateRole \<Rightarrow>
                if g < writeAddressListCost then (([], 0, Some ErrOutOfGas), h)
                else if isStatic then (([], writeAddressListCost, Some errWriteProtection), h)
                else
                  let addrRole = GetRole S l h caller in
                  if addrRole \<noteq> AdminRole then (([], writeAddressListCost, Some ErrNotAuth), h)
                  else if addrRole = AdminRole \<and> caller = inputAddr
                  then (([], writeAddressListCost, Some errAdminSelfRemove), h)
                  else (([], writeAddressListCost, None), SetRole S l inputAddr updateRole h))"

definition AddressList_Run ::
  "AddressListABI \<Rightarrow> 'h stateRef \<Rightarrow> address \<Rightarrow> Contract \<Rightarrow> 'h \<Rightarrow> ExecutionResult \<times> 'h" where
  "AddressList_Run A S l c h =
     (let ((ret, gasUsed, err), h) = runInputCall A S l (Caller c) (Input c) (Gas c) (Static c) h
      in (no_result\<lparr>ReturnValue := ret, GasUsed := gasUsed, GasLeft := Gas c - gasUsed, Err := err\<rparr>, h))"

section \<open>Initial roles\<close>

record GenesisAccount =
  GenCode :: "byte list"
  GenStorage :: "(hash \<rightharpoonup> hash) option"
  GenBalance :: "int option"
  GenNonce :: uint64

type_synonym GenesisAlloc = "address \<rightharpoonup> GenesisAccount"

definition genesis_SetState :: "GenesisAlloc \<Rightarrow> address \<Rightarrow> hash \<Rightarrow> hash \<Rightarrow> GenesisAlloc" where
  "genesis_SetState g addr key v =
     (let alloc = (case g addr of
                     Some a \<Rightarrow> a
                   | None \<Rightarrow> \<lparr>GenCode = [], GenStorage = None, GenBalance = None, GenNonce = 0\<rparr>);
          m = (case GenStorage alloc of None \<Rightarrow> Map.empty | Some m \<Rightarrow> m)
      in g(addr \<mapsto> alloc\<lparr>GenBalance := Some 1, GenStorage := Some (m(key \<mapsto> v))\<rparr>))"

definition genesis_GetStorage :: "GenesisAlloc \<Rightarrow> address \<Rightarrow> hash \<Rightarrow> hash" where
  "genesis_GetStorage g addr key = ZeroHash"

definition genesisState :: "GenesisAlloc stateRef" where
  "genesisState = \<lparr>ref_SetState = genesis_SetState, ref_GetStorage = genesis_GetStorage\<rparr>"

record AddressListConfig =
  AdminAddresses :: "address list"
  EnabledAddresses :: "address list"

definition ApplyGenesisAllocs :: "GenesisAlloc \<Rightarrow> address \<Rightarrow> AddressListConfig \<Rightarrow> GenesisAlloc" where
  "ApplyGenesisAllocs g l conf =
     fold (\<lambda>a. SetRole genesisState l a AdminRole) (AdminAddresses conf)
       (fold (\<lambda>a. SetRole genesisState l a EnabledRole) (EnabledAddresses conf) g)"

section \<open>What the list promises\<close>

text \<open>
  The law of the storage behind a list: a slot holds what was written last, and a
  write leaves every other slot alone.
\<close>

lemma role_key_inject:
  "BytesToHash (Address_Bytes a') = BytesToHash (Address_Bytes a) \<longleftrightarrow> a' = a"
proof -
  have "uint (BytesToHash (Address_Bytes a)) = uint a" for a
    using uint_bounded [of a] by (simp add: BytesToHash_eq unsigned_ucast_eq take_bit_int_eq_self)
  then show ?thesis by (metis word_uint_eqI)
qed

locale role_store =
  fixes S :: "'h stateRef" and ok :: "'h \<Rightarrow> bool"
  assumes get_set: "ok h \<Longrightarrow> ref_GetStorage S (ref_SetState S h a k v) a' k' =
      (if a' = a \<and> k' = k then v else ref_GetStorage S h a' k')"
    and ok_set: "ok h \<Longrightarrow> ok (ref_SetState S h a k v)"
begin

lemma GetRole_SetRole:
  assumes "ok h"
  shows "GetRole S l' (SetRole S l a r h) a' = (if l' = l \<and> a' = a then r else GetRole S l' h a')"
  by (simp add: GetRole_def SetRole_def get_set [OF assms] role_key_inject)

text \<open>
  A call that changes a role is a successful write by an administrator, outside a
  static call, and never changes the role of its caller.
\<close>

lemma runInputCall_change:
  assumes "ok h" and "runInputCall A S l caller input g isStatic h = ((ret, used, err), h')"
    and "GetRole S l' h' a \<noteq> GetRole S l' h a"
  shows "err = None \<and> \<not> isStatic \<and> GetRole S l h caller = AdminRole \<and> l' = l \<and> a \<noteq> caller \<and>
    used = writeAddressListCost"
  using assms(2,3)
  by (auto simp: runInputCall_def Let_def GetRole_SetRole [OF assms(1)] split: if_splits option.splits)

lemma runInputCall_ok:
  assumes "ok h" and "runInputCall A S l caller input g isStatic h = ((ret, used, err), h')"
  shows "ok h'"
  using assms
  by (auto simp: runInputCall_def Let_def SetRole_def ok_set split: if_splits option.splits)

lemma admin_remains:
  assumes "ok h" and "runInputCall A S l caller input g isStatic h = ((ret, used, err), h')"
    and "GetRole S l h adm = AdminRole"
  shows "\<exists>x. GetRole S l h' x = AdminRole"
proof (cases "h' = h")
  case False
  then have "GetRole S l h caller = AdminRole"
    using assms(2) by (auto simp: runInputCall_def Let_def split: if_splits option.splits)
  moreover have "GetRole S l h' caller = GetRole S l h caller"
    using runInputCall_change [OF assms(1,2), of l caller] by blast
  ultimately show ?thesis by auto
qed (use assms(3) in auto)

end

lemma runInputCall_state:
  "runInputCall A S l caller input g isStatic h = (r, h') \<Longrightarrow> h' = h \<or> (\<exists>a role. h' = SetRole S l a role h)"
  by (auto simp: runInputCall_def Let_def split: if_splits option.splits)

lemma runInputCall_gas:
  "runInputCall A S l caller input g isStatic h = ((ret, used, err), h') \<Longrightarrow> used \<le> g"
  by (auto simp: runInputCall_def Let_def split: if_splits option.splits)

lemma runInputCall_ret:
  "runInputCall A S l caller input g isStatic h = ((ret, used, err), h') \<Longrightarrow> length ret \<le> 32"
  by (auto simp: runInputCall_def Let_def Role_Bytes_def split: if_splits option.splits)

end
