(* ===== verification/Staking.thy ===== *)
theory Staking
  imports Address_List
begin

text \<open>
  Block rewards, fee distribution, the supply tracker and the predeployed staking
  contract (\<open>helper/staking\<close>).  The state a reward is paid into is used through its
  \<open>AddBalance\<close> operation, an argument \<open>add\<close>; the log output is left out.
\<close>

section \<open>The supply by block number\<close>

definition BlockRewardAmount :: int where "BlockRewardAmount = 1000000000000000000"

definition MaxSupplyAmount :: int where "MaxSupplyAmount = 1000000000000000000000000000"

text \<open>The package variables; a Go map of accounts is a list of its entries.\<close>

record staking_vars =
  GenesisAllocCache :: "(address \<times> int option) list option"
  genesisTotal :: "int option"

definition calculateGenesisTotal :: "staking_vars \<Rightarrow> int" where
  "calculateGenesisTotal g =
     (case GenesisAllocCache g of
        None \<Rightarrow> 0
      | Some alloc \<Rightarrow>
          fold (\<lambda>(addr, balance) total.
             if addr = ZeroAddress then total
             else case balance of Some b \<Rightarrow> total + b | None \<Rightarrow> total) alloc 0)"

definition SetGenesisAllocCache :: "(address \<times> int option) list \<Rightarrow> staking_vars \<Rightarrow> staking_vars" where
  "SetGenesisAllocCache alloc g =
     (let g = g\<lparr>GenesisAllocCache := Some alloc\<rparr> in g\<lparr>genesisTotal := Some (calculateGenesisTotal g)\<rparr>)"

definition getGenesisTotal :: "staking_vars \<Rightarrow> int \<times> staking_vars" where
  "getGenesisTotal g =
     (case genesisTotal g of
        Some t \<Rightarrow> (t, g)
      | None \<Rightarrow> let t = calculateGenesisTotal g in (t, g\<lparr>genesisTotal := Some t\<rparr>))"

definition getCurrentSupplyFromBlockNumber :: "uint64 \<Rightarrow> staking_vars \<Rightarrow> int \<times> staking_vars" where
  "getCurrentSupplyFromBlockNumber blockNumber g =
     (let (total, g) = getGenesisTotal g in (total + sint blockNumber * BlockRewardAmount, g))"

definition MintBlockReward ::
  "(address \<Rightarrow> int \<Rightarrow> 'h \<Rightarrow> 'h) \<Rightarrow> uint64 \<Rightarrow> address \<Rightarrow> 'h \<Rightarrow> staking_vars \<Rightarrow> 'h \<times> staking_vars" where
  "MintBlockReward add blockNumber ownerAddress h g =
     (let (currentSupply, g) = getCurrentSupplyFromBlockNumber blockNumber g;
          newSupply = currentSupply + BlockRewardAmount
      in if MaxSupplyAmount < newSupply then
           let remaining = MaxSupplyAmount - currentSupply
           in if remaining \<le> 0 then (h, g) else (add ownerAddress remaining h, g)
         else (add ownerAddress BlockRewardAmount h, g))"

section \<open>Fees\<close>

definition DistributeTxFeesToValidator ::
  "(address \<Rightarrow> int \<Rightarrow> 'h \<Rightarrow> 'h) \<Rightarrow> int option \<Rightarrow> address \<Rightarrow> address \<Rightarrow> 'h \<Rightarrow> 'h" where
  "DistributeTxFeesToValidator add totalFees ownerAddress blockProducerAddress h =
     (case totalFees of
        None \<Rightarrow> h
      | Some fees \<Rightarrow>
          if fees = 0 then h
          else
            let ownerFee = big_Div fees 2; validatorFee = fees - ownerFee
            in add blockProducerAddress validatorFee (add ownerAddress ownerFee h))"

definition StakingAddress :: address where
  "StakingAddress = StringToAddress ''0x0000000000000000000000000000000000001001''"

definition CheckStakingContractDeployed :: "('h \<Rightarrow> address \<Rightarrow> bool) \<Rightarrow> 'h \<Rightarrow> bool" where
  "CheckStakingContractDeployed accountExists h = accountExists h StakingAddress"

section \<open>The supply tracker\<close>

record SupplyAuditLog =
  AuditBlockNumber :: uint64
  AuditAmount :: int
  AuditType :: string
  AuditTimestamp :: uint64
  AuditCaller :: string

record SupplyTracker =
  initialSupply :: int
  auditLog :: "SupplyAuditLog list"

datatype supply_error = ErrSupplyCapExceeded | ErrUnauthorizedMint | ErrInvalidAmount | ErrInsufficientSupply

definition NewSupplyTracker :: "int \<Rightarrow> SupplyTracker" where
  "NewSupplyTracker s = \<lparr>initialSupply = s, auditLog = []\<rparr>"

definition apply_change :: "SupplyAuditLog \<Rightarrow> int \<Rightarrow> int" where
  "apply_change c t =
     (if AuditType c = ''mint'' then t + AuditAmount c
      else if AuditType c = ''burn'' then t - AuditAmount c
      else t)"

definition getCurrentSupply :: "SupplyTracker \<Rightarrow> int" where
  "getCurrentSupply st = fold apply_change (auditLog st) (initialSupply st)"

definition GetTotalSupply :: "SupplyTracker \<Rightarrow> int" where
  "GetTotalSupply st = fold apply_change (auditLog st) (initialSupply st)"

definition isConsensusEngine :: "string \<Rightarrow> bool" where
  "isConsensusEngine caller \<longleftrightarrow>
     caller = ''0x0000000000000000000000000000000000000000'' \<or> caller = ''consensus_engine''"

text \<open>\<open>now\<close> is the Unix time of the call.\<close>

definition Mint :: "int option \<Rightarrow> uint64 \<Rightarrow> string \<Rightarrow> uint64 \<Rightarrow> SupplyTracker \<Rightarrow> supply_error option \<times> SupplyTracker" where
  "Mint amount blockNumber caller now st =
     (case amount of
        None \<Rightarrow> (Some ErrInvalidAmount, st)
      | Some a \<Rightarrow>
          if a \<le> 0 then (Some ErrInvalidAmount, st)
          else if \<not> isConsensusEngine caller then (Some ErrUnauthorizedMint, st)
          else if MaxSupplyAmount < getCurrentSupply st + a then (Some ErrSupplyCapExceeded, st)
          else (None, st\<lparr>auditLog := auditLog st @
                 [\<lparr>AuditBlockNumber = blockNumber, AuditAmount = a, AuditType = ''mint'',
                   AuditTimestamp = now, AuditCaller = caller\<rparr>]\<rparr>))"

definition Burn :: "int option \<Rightarrow> uint64 \<Rightarrow> string \<Rightarrow> uint64 \<Rightarrow> SupplyTracker \<Rightarrow> supply_error option \<times> SupplyTracker" where
  "Burn amount blockNumber caller now st =
     (case amount of
        None \<Rightarrow> (Some ErrInvalidAmount, st)
      | Some a \<Rightarrow>
          if a \<le> 0 then (Some ErrInvalidAmount, st)
          else if \<not> isConsensusEngine caller then (Some ErrUnauthorizedMint, st)
          else if getCurrentSupply st < a then (Some ErrInsufficientSupply, st)
          else (None, st\<lparr>auditLog := auditLog st @
                 [\<lparr>AuditBlockNumber = blockNumber, AuditAmount = a, AuditType = ''burn'',
                   AuditTimestamp = now, AuditCaller = caller\<rparr>]\<rparr>))"

definition System_MintBlockReward :: "int option \<Rightarrow> uint64 \<Rightarrow> uint64 \<Rightarrow> SupplyTracker \<Rightarrow> supply_error option \<times> SupplyTracker" where
  "System_MintBlockReward amount blockNumber now st = Mint amount blockNumber ''consensus_engine'' now st"

definition MintRewardWithCap ::
  "(address \<Rightarrow> int \<Rightarrow> 'h \<Rightarrow> 'h) \<Rightarrow> uint64 \<Rightarrow> address \<Rightarrow> uint64 \<Rightarrow> 'h \<Rightarrow> SupplyTracker \<Rightarrow> 'h \<times> SupplyTracker" where
  "MintRewardWithCap add blockNumber ownerAddress now h st =
     (let currentSupply = getCurrentSupply st in
      if MaxSupplyAmount \<le> currentSupply then (h, st)
      else
        let blockReward = (if MaxSupplyAmount < currentSupply + BlockRewardAmount
                           then MaxSupplyAmount - currentSupply else BlockRewardAmount)
        in if blockReward \<le> 0 then (h, st)
           else (add ownerAddress blockReward h,
                 st\<lparr>auditLog := auditLog st @
                   [\<lparr>AuditBlockNumber = blockNumber, AuditAmount = blockReward, AuditType = ''mint'',
                     AuditTimestamp = now, AuditCaller = ''consensus_engine''\<rparr>]\<rparr>))"

text \<open>The global tracker.\<close>

definition InitializeSupplyTracker :: "int \<Rightarrow> SupplyTracker option \<Rightarrow> SupplyTracker option" where
  "InitializeSupplyTracker s _ = Some (NewSupplyTracker s)"

definition UpdateSupplyTrackerWithTotalSupply :: "int \<Rightarrow> SupplyTracker option \<Rightarrow> SupplyTracker option" where
  "UpdateSupplyTrackerWithTotalSupply s g =
     (case g of None \<Rightarrow> Some (NewSupplyTracker s) | Some st \<Rightarrow> Some (st\<lparr>initialSupply := s\<rparr>))"

definition GetGlobalSupplyTracker :: "SupplyTracker option \<Rightarrow> SupplyTracker" where
  "GetGlobalSupplyTracker g = (case g of None \<Rightarrow> NewSupplyTracker 0 | Some st \<Rightarrow> st)"

section \<open>The storage of the predeployed staking contract\<close>

definition ownerSlot :: int where "ownerSlot = 0"
definition validatorThresholdSlot :: int where "validatorThresholdSlot = 1"
definition minimumStakeSlot :: int where "minimumStakeSlot = 2"
definition validatorsSlot :: int where "validatorsSlot = 3"
definition addressToIsValidatorSlot :: int where "addressToIsValidatorSlot = 4"
definition addressToStakedAmountSlot :: int where "addressToStakedAmountSlot = 5"
definition addressToValidatorIndexSlot :: int where "addressToValidatorIndexSlot = 6"
definition stakedAmountSlot :: int where "stakedAmountSlot = 7"
definition minNumValidatorSlot :: int where "minNumValidatorSlot = 8"
definition maxNumValidatorSlot :: int where "maxNumValidatorSlot = 9"
definition addressToBLSPublicKeySlot :: int where "addressToBLSPublicKeySlot = 10"

definition getAddressMapping :: "(byte list \<Rightarrow> byte list) \<Rightarrow> address \<Rightarrow> int \<Rightarrow> byte list" where
  "getAddressMapping keccak addr slot =
     keccak (PadLeftOrTrim (Address_Bytes addr) 32 @ PadLeftOrTrim (Bytes slot) 32)"

definition getIndexWithOffset :: "byte list \<Rightarrow> uint64 \<Rightarrow> byte list" where
  "getIndexWithOffset keccakHash offset = Bytes (SetBytes keccakHash + sint offset)"

record StorageIndexes =
  ValidatorsIndex :: "byte list"
  ValidatorBLSPublicKeyIndex :: "byte list"
  AddressToIsValidatorIndex :: "byte list"
  AddressToStakedAmountIndex :: "byte list"
  AddressToValidatorIndexIndex :: "byte list"

definition getStorageIndexes :: "(byte list \<Rightarrow> byte list) \<Rightarrow> address \<Rightarrow> nat \<Rightarrow> StorageIndexes" where
  "getStorageIndexes keccak addr index =
     \<lparr>ValidatorsIndex = getIndexWithOffset (keccak (PadLeftOrTrim (Bytes validatorsSlot) 32)) (of_nat index),
      ValidatorBLSPublicKeyIndex = getAddressMapping keccak addr addressToBLSPublicKeySlot,
      AddressToIsValidatorIndex = getAddressMapping keccak addr addressToIsValidatorSlot,
      AddressToStakedAmountIndex = getAddressMapping keccak addr addressToStakedAmountSlot,
      AddressToValidatorIndexIndex = getAddressMapping keccak addr addressToValidatorIndexSlot\<rparr>"

type_synonym storage_map = "hash \<rightharpoonup> hash"

text \<open>A Go array value \<open>[32]byte\<close> with one byte replaced, and the zero value for a missing key.\<close>

definition hash_put :: "hash \<Rightarrow> nat \<Rightarrow> byte \<Rightarrow> hash" where
  "hash_put h i b = BytesToHash ((Hash_Bytes h)[i := b])"

definition map_get :: "storage_map \<Rightarrow> hash \<Rightarrow> hash" where
  "map_get m k = (case m k of None \<Rightarrow> ZeroHash | Some v \<Rightarrow> v)"

fun put_data :: "byte list \<Rightarrow> byte list \<Rightarrow> nat \<Rightarrow> storage_map \<Rightarrow> storage_map" where
  "put_data zeroIndex [] i m = m"
| "put_data zeroIndex (b # bs) i m =
     (let slotIndex = BytesToHash (getIndexWithOffset zeroIndex (of_nat (i div 32)))
      in put_data zeroIndex bs (i + 1) (m(slotIndex \<mapsto> hash_put (map_get m slotIndex) (i mod 32) b)))"

definition setBytesToStorage ::
  "(byte list \<Rightarrow> byte list) \<Rightarrow> byte list \<Rightarrow> byte list \<Rightarrow> storage_map \<Rightarrow> storage_map" where
  "setBytesToStorage keccak baseIndexBytes data m =
     (let dataLen = length data; baseIndex = BytesToHash baseIndexBytes in
      if dataLen \<le> 31 then
        m(baseIndex \<mapsto> hash_put (BytesToHash (data @ replicate (32 - dataLen) 0)) 31 (of_nat (dataLen * 2)))
      else
        put_data (keccak baseIndexBytes) data 0
          (m(baseIndex \<mapsto> hash_put ZeroHash 31 (of_nat (2 * dataLen + 1)))))"

record PredeployParams =
  MinValidatorCount :: uint64
  MaxValidatorCount :: uint64
  OwnerAddress :: string

definition DefaultStakedBalance :: int where "DefaultStakedBalance = 0x8AC7230489E80000"

definition slot_key :: "int \<Rightarrow> hash" where
  "slot_key slot = BytesToHash (Bytes slot)"

text \<open>One validator, with its BLS key if it has one.\<close>

definition put_validator ::
  "(byte list \<Rightarrow> byte list) \<Rightarrow> nat \<Rightarrow> address \<times> byte list option \<Rightarrow> storage_map \<Rightarrow> storage_map" where
  "put_validator keccak idx v m =
     (let (addr, key) = v; ix = getStorageIndexes keccak addr idx;
          m = m(BytesToHash (ValidatorsIndex ix) \<mapsto> BytesToHash (Address_Bytes addr));
          m = (case key of
                 Some pk \<Rightarrow> setBytesToStorage keccak (ValidatorBLSPublicKeyIndex ix) pk m | None \<Rightarrow> m);
          m = m(BytesToHash (AddressToIsValidatorIndex ix) \<mapsto> BytesToHash (Bytes 1));
          m = m(BytesToHash (AddressToStakedAmountIndex ix) \<mapsto> word_of_int DefaultStakedBalance)
      in m(BytesToHash (AddressToValidatorIndexIndex ix) \<mapsto> of_nat idx))"

fun put_validators ::
  "(byte list \<Rightarrow> byte list) \<Rightarrow> nat \<Rightarrow> (address \<times> byte list option) list \<Rightarrow> storage_map \<Rightarrow> storage_map" where
  "put_validators keccak idx [] m = m"
| "put_validators keccak idx (v # vs) m = put_validators keccak (idx + 1) vs (put_validator keccak idx v m)"

text \<open>\<open>scHex\<close> is the bytecode constant of the contract.\<close>

definition PredeployStakingSC ::
  "(byte list \<Rightarrow> byte list) \<Rightarrow> byte list \<Rightarrow> (address \<times> byte list option) list \<Rightarrow> PredeployParams \<Rightarrow>
   GenesisAccount" where
  "PredeployStakingSC keccak scHex vals params =
     (let stakedAmount = int (length vals) * DefaultStakedBalance;
          m = put_validators keccak 0 vals Map.empty;
          m = m(slot_key stakedAmountSlot \<mapsto> BytesToHash (Bytes stakedAmount));
          m = m(slot_key validatorsSlot \<mapsto> BytesToHash (Bytes (int (length vals))));
          m = m(slot_key minNumValidatorSlot \<mapsto> BytesToHash (Bytes (sint (MinValidatorCount params))));
          m = m(slot_key maxNumValidatorSlot \<mapsto> BytesToHash (Bytes (sint (MaxValidatorCount params))));
          m = m(slot_key ownerSlot \<mapsto> BytesToHash (Address_Bytes (StringToAddress (OwnerAddress params))));
          m = m(slot_key validatorThresholdSlot \<mapsto> BytesToHash (Bytes (1000 * 10 ^ 18)));
          m = m(slot_key minimumStakeSlot \<mapsto> BytesToHash (Bytes (1000 * 10 ^ 18)))
      in \<lparr>GenCode = scHex, GenStorage = Some m, GenBalance = Some stakedAmount, GenNonce = 0\<rparr>)"

end
