(* ===== verification/Fork_Manager.thy ===== *)
theory Fork_Manager
  imports Prelude "HOL-Library.AList"
begin

text \<open>
  The fork manager (\<open>forkmanager/fork_manager.go\<close>, \<open>forkmanager/fork.go\<close>): forks with
  their handlers and consensus parameters, activated from a block number on.  The
  manager is the state of the singleton; its lock makes every operation atomic.
  Parameter blocks are shared through pointers and updated in place, so they live in
  a store.
\<close>

section \<open>Binary search\<close>

text \<open>\<open>sort.Search\<close> of the standard library.\<close>

function search_loop :: "(nat \<Rightarrow> bool) \<Rightarrow> nat \<Rightarrow> nat \<Rightarrow> nat" where
  "search_loop f i j =
     (if i < j then
        let h = (i + j) div 2 in if \<not> f h then search_loop f (h + 1) j else search_loop f i h
      else i)"
  by pat_completeness auto
termination by (relation "measure (\<lambda>(f, i, j). j - i)") auto

declare search_loop.simps [simp del]

definition sort_Search :: "nat \<Rightarrow> (nat \<Rightarrow> bool) \<Rightarrow> nat" where
  "sort_Search n f = search_loop f 0 n"

section \<open>The data of the manager\<close>

type_synonym HandlerDesc = string

definition InitialFork :: string where "InitialFork = ''initialfork''"

record ForkParams =
  MaxValidatorSetSize :: "uint64 option"
  EpochSize :: "uint64 option"
  SprintSize :: "uint64 option"
  BlockTime :: "int option"
  BlockTimeDrift :: "uint64 option"

record 'h HandlerContainer =
  ContID :: uint64
  ContHandler :: 'h

text \<open>\<open>Handlers\<close> is a Go map: a list of its entries, in the order of iteration.\<close>

record 'h mfork =
  ForkName :: string
  FromBlockNumber :: uint64
  Params :: "nat option"
  IsForkActive :: bool
  Handlers :: "(HandlerDesc \<times> 'h HandlerContainer) list"

record 'h forkHandler =
  hid :: uint64
  fromBlockNumber :: uint64
  handler_of :: 'h

record forkParamsBlock =
  pFromBlockNumber :: uint64
  pParams :: nat

record 'h forkManager =
  forkMap :: "string \<rightharpoonup> 'h mfork"
  handlersMap :: "HandlerDesc \<rightharpoonup> 'h forkHandler list"
  fparams :: "forkParamsBlock list"
  handlerIDCnt :: uint64
  pstore :: "nat \<Rightarrow> ForkParams"

datatype fork_error = ErrForkDoesNotExist string | ErrForkNotActive string

section \<open>The operations\<close>

definition Clear :: "'h forkManager \<Rightarrow> 'h forkManager" where
  "Clear fm = fm\<lparr>forkMap := Map.empty, handlersMap := Map.empty\<rparr>"

definition RegisterFork :: "string \<Rightarrow> nat option \<Rightarrow> 'h forkManager \<Rightarrow> 'h forkManager" where
  "RegisterFork name forkParams fm =
     fm\<lparr>forkMap := (forkMap fm)(name \<mapsto>
       \<lparr>ForkName = name, FromBlockNumber = 0, Params = forkParams, IsForkActive = False, Handlers = []\<rparr>)\<rparr>"

definition RegisterHandler ::
  "string \<Rightarrow> HandlerDesc \<Rightarrow> 'h \<Rightarrow> 'h forkManager \<Rightarrow> fork_error option \<times> 'h forkManager" where
  "RegisterHandler forkName handlerName handler fm =
     (case forkMap fm forkName of
        None \<Rightarrow> (Some (ErrForkDoesNotExist forkName), fm)
      | Some fork \<Rightarrow>
          let fm = fm\<lparr>handlerIDCnt := handlerIDCnt fm + 1\<rparr>;
              fork = fork\<lparr>Handlers := AList.update handlerName
                \<lparr>ContID = handlerIDCnt fm, ContHandler = handler\<rparr> (Handlers fork)\<rparr>
          in (None, fm\<lparr>forkMap := (forkMap fm)(forkName \<mapsto> fork)\<rparr>))"

text \<open>Handlers are ordered by block number, then by identifier.\<close>

definition not_before :: "'h forkHandler \<Rightarrow> uint64 \<Rightarrow> uint64 \<Rightarrow> bool" where
  "not_before h blockNumber i \<longleftrightarrow>
     blockNumber < fromBlockNumber h \<or> fromBlockNumber h = blockNumber \<and> i \<le> hid h"

definition addHandler ::
  "HandlerDesc \<Rightarrow> uint64 \<Rightarrow> 'h HandlerContainer \<Rightarrow> 'h forkManager \<Rightarrow> 'h forkManager" where
  "addHandler handlerName blockNumber cont fm =
     (let item = \<lparr>hid = ContID cont, fromBlockNumber = blockNumber, handler_of = ContHandler cont\<rparr> in
      case handlersMap fm handlerName of
        None \<Rightarrow> fm\<lparr>handlersMap := (handlersMap fm)(handlerName \<mapsto> [item])\<rparr>
      | Some handlers \<Rightarrow>
          let index = sort_Search (length handlers) (\<lambda>i. not_before (handlers ! i) blockNumber (ContID cont))
          in fm\<lparr>handlersMap := (handlersMap fm)(handlerName \<mapsto>
                 take index handlers @ [item] @ drop index handlers)\<rparr>)"

definition removeHandler ::
  "HandlerDesc \<Rightarrow> uint64 \<Rightarrow> uint64 \<Rightarrow> 'h forkManager \<Rightarrow> 'h forkManager" where
  "removeHandler handlerName blockNumber i fm =
     (case handlersMap fm handlerName of
        None \<Rightarrow> fm
      | Some handlers \<Rightarrow>
          let index = sort_Search (length handlers) (\<lambda>j. not_before (handlers ! j) blockNumber i)
          in if index < length handlers \<and> fromBlockNumber (handlers ! index) = blockNumber \<and>
                hid (handlers ! index) = i
             then fm\<lparr>handlersMap := (handlersMap fm)(handlerName \<mapsto>
                    take index handlers @ drop (index + 1) handlers)\<rparr>
             else fm)"

definition copyParams :: "ForkParams \<Rightarrow> ForkParams \<Rightarrow> ForkParams" where
  "copyParams dest src =
     (let pick = (\<lambda>d s. case d of None \<Rightarrow> s | Some _ \<Rightarrow> d);
          pick' = (\<lambda>d s. case d of None \<Rightarrow> s | Some _ \<Rightarrow> d)
      in \<lparr>MaxValidatorSetSize = pick (MaxValidatorSetSize dest) (MaxValidatorSetSize src),
          EpochSize = pick (EpochSize dest) (EpochSize src),
          SprintSize = pick (SprintSize dest) (SprintSize src),
          BlockTime = pick' (BlockTime dest) (BlockTime src),
          BlockTimeDrift = pick (BlockTimeDrift dest) (BlockTimeDrift src)\<rparr>)"

text \<open>\<open>copyParams(dst, src)\<close> on the store.\<close>

definition copy_ptr :: "nat \<Rightarrow> nat \<Rightarrow> (nat \<Rightarrow> ForkParams) \<Rightarrow> nat \<Rightarrow> ForkParams" where
  "copy_ptr dst src m = m(dst := copyParams (m dst) (m src))"

fun copy_forward :: "forkParamsBlock list \<Rightarrow> (nat \<Rightarrow> ForkParams) \<Rightarrow> nat \<Rightarrow> ForkParams" where
  "copy_forward (p # q # ps) m = copy_forward (q # ps) (copy_ptr (pParams q) (pParams p) m)"
| "copy_forward ps m = m"

definition addParams :: "uint64 \<Rightarrow> nat option \<Rightarrow> 'h forkManager \<Rightarrow> 'h forkManager" where
  "addParams blockNumber params fm =
     (case params of
        None \<Rightarrow> fm
      | Some p \<Rightarrow>
          let item = \<lparr>pFromBlockNumber = blockNumber, pParams = p\<rparr>; ps = fparams fm in
          if ps = [] then fm\<lparr>fparams := [item]\<rparr>
          else
            let index = sort_Search (length ps) (\<lambda>i. blockNumber \<le> pFromBlockNumber (ps ! i));
                ps' = take index ps @ [item] @ drop index ps;
                m = (if 0 < index then copy_ptr p (pParams (ps' ! (index - 1))) (pstore fm) else pstore fm)
            in fm\<lparr>fparams := ps', pstore := copy_forward (drop index ps') m\<rparr>)"

definition removeParams :: "uint64 \<Rightarrow> 'h forkManager \<Rightarrow> 'h forkManager" where
  "removeParams blockNumber fm =
     (let ps = fparams fm;
          index = sort_Search (length ps) (\<lambda>i. blockNumber \<le> pFromBlockNumber (ps ! i))
      in if index < length ps \<and> pFromBlockNumber (ps ! index) = blockNumber
         then fm\<lparr>fparams := take index ps @ drop (index + 1) ps\<rparr>
         else fm)"

definition ActivateFork :: "string \<Rightarrow> uint64 \<Rightarrow> 'h forkManager \<Rightarrow> fork_error option \<times> 'h forkManager" where
  "ActivateFork forkName blockNumber fm =
     (case forkMap fm forkName of
        None \<Rightarrow> (Some (ErrForkDoesNotExist forkName), fm)
      | Some fork \<Rightarrow>
          if IsForkActive fork then (None, fm)
          else
            let fork = fork\<lparr>IsForkActive := True, FromBlockNumber := blockNumber\<rparr>;
                fm = fm\<lparr>forkMap := (forkMap fm)(forkName \<mapsto> fork)\<rparr>;
                fm = fold (\<lambda>(name, h). addHandler name blockNumber h) (Handlers fork) fm
            in (None, addParams blockNumber (Params fork) fm))"

definition DeactivateFork :: "string \<Rightarrow> 'h forkManager \<Rightarrow> fork_error option \<times> 'h forkManager" where
  "DeactivateFork forkName fm =
     (case forkMap fm forkName of
        None \<Rightarrow> (Some (ErrForkDoesNotExist forkName), fm)
      | Some fork \<Rightarrow>
          if \<not> IsForkActive fork then (None, fm)
          else
            let fork = fork\<lparr>IsForkActive := False\<rparr>;
                fm = fm\<lparr>forkMap := (forkMap fm)(forkName \<mapsto> fork)\<rparr>;
                fm = fold (\<lambda>(name, h). removeHandler name (FromBlockNumber fork) (ContID h)) (Handlers fork) fm
            in (None, removeParams (FromBlockNumber fork) fm))"

definition GetHandler :: "'h forkManager \<Rightarrow> HandlerDesc \<Rightarrow> uint64 \<Rightarrow> 'h option" where
  "GetHandler fm name blockNumber =
     (case handlersMap fm name of
        None \<Rightarrow> None
      | Some handlers \<Rightarrow>
          let pos = sort_Search (length handlers) (\<lambda>i. blockNumber < fromBlockNumber (handlers ! i))
          in if pos = 0 then None else Some (handler_of (handlers ! (pos - 1))))"

definition GetParams :: "'h forkManager \<Rightarrow> uint64 \<Rightarrow> nat option" where
  "GetParams fm blockNumber =
     (let pos = sort_Search (length (fparams fm)) (\<lambda>i. blockNumber < pFromBlockNumber (fparams fm ! i))
      in if pos = 0 then None else Some (pParams (fparams fm ! (pos - 1))))"

definition IsForkRegistered :: "'h forkManager \<Rightarrow> string \<Rightarrow> bool" where
  "IsForkRegistered fm name \<longleftrightarrow> forkMap fm name \<noteq> None"

definition IsForkEnabled :: "'h forkManager \<Rightarrow> string \<Rightarrow> uint64 \<Rightarrow> bool" where
  "IsForkEnabled fm name blockNumber =
     (case forkMap fm name of
        None \<Rightarrow> False | Some fork \<Rightarrow> IsForkActive fork \<and> FromBlockNumber fork \<le> blockNumber)"

definition GetForkBlock :: "'h forkManager \<Rightarrow> string \<Rightarrow> fork_error + uint64" where
  "GetForkBlock fm name =
     (case forkMap fm name of
        None \<Rightarrow> Inl (ErrForkDoesNotExist name)
      | Some fork \<Rightarrow>
          if \<not> IsForkActive fork then Inl (ErrForkNotActive name) else Inr (FromBlockNumber fork))"

end
