(* ===== verification/Fork_Manager_Spec.thy ===== *)
theory Fork_Manager_Spec
  imports Fork_Manager Transaction
begin

text \<open>
  What the fork manager promises: the handler lists stay sorted, and a lookup finds the
  handler of the latest fork that is active at a block.  The fee rules of
  \<open>state/londonFix_fork.go\<close> are chosen through it.
\<close>

section \<open>The choice of the fee rules\<close>

text \<open>
  The manager holds handlers of several kinds (\<open>interface{}\<close>); a type assertion on a
  handler of another kind panics.
\<close>

datatype handler_value = LondonFix LondonFixFork | OtherHandler nat

definition LondonFixHandler :: HandlerDesc where "LondonFixHandler = ''LondonFixHandler''"

definition RegisterLondonFixFork ::
  "string \<Rightarrow> handler_value forkManager \<Rightarrow> fork_error option \<times> handler_value forkManager" where
  "RegisterLondonFixFork londonFixFork fh =
     (case RegisterHandler InitialFork LondonFixHandler (LondonFix LondonFixForkV1) fh of
        (Some e, fh) \<Rightarrow> (Some e, fh)
      | (None, fh) \<Rightarrow>
          if IsForkRegistered fh londonFixFork
          then RegisterHandler londonFixFork LondonFixHandler (LondonFix LondonFixForkV2) fh
          else (None, fh))"

definition GetLondonFixHandler :: "handler_value forkManager \<Rightarrow> uint64 \<Rightarrow> LondonFixFork go" where
  "GetLondonFixHandler fh blockNumber =
     (case GetHandler fh LondonFixHandler blockNumber of
        Some (LondonFix v) \<Rightarrow> Some v
      | Some (OtherHandler _) \<Rightarrow> None
      | None \<Rightarrow> Some LondonFixForkV2)"

section \<open>Binary search\<close>

lemma search_loop_spec:
  assumes "\<And>a b. a \<le> b \<Longrightarrow> b < n \<Longrightarrow> f a \<Longrightarrow> f b" and "i \<le> j" and "j \<le> n"
    and "\<And>k. k < i \<Longrightarrow> \<not> f k" and "\<And>k. j \<le> k \<Longrightarrow> k < n \<Longrightarrow> f k"
  shows "search_loop f i j \<le> n \<and> (\<forall>k < n. f k \<longleftrightarrow> search_loop f i j \<le> k)"
  using assms
proof (induction f i j rule: search_loop.induct)
  case (1 f i j)
  show ?case
  proof (cases "i < j")
    case True
    let ?h = "(i + j) div 2"
    have h: "i \<le> ?h" "?h < j" "?h < n" using True "1.prems"(3) by auto
    show ?thesis
    proof (cases "f ?h")
      case t: True
      have up: "\<And>k. ?h \<le> k \<Longrightarrow> k < n \<Longrightarrow> f k" using "1.prems"(1) t by blast
      have "search_loop f i ?h \<le> n \<and> (\<forall>k < n. f k \<longleftrightarrow> search_loop f i ?h \<le> k)"
        using t h "1.prems"(1,4) up by (intro "1.IH"(2) [OF True refl]) auto
      then show ?thesis using True t by (subst (1 2) search_loop.simps) (simp add: Let_def)
    next
      case t: False
      have down: "\<And>k. k < ?h + 1 \<Longrightarrow> \<not> f k" using "1.prems"(1) h(3) t by (metis less_Suc_eq_le Suc_eq_plus1)
      have "search_loop f (?h + 1) j \<le> n \<and> (\<forall>k < n. f k \<longleftrightarrow> search_loop f (?h + 1) j \<le> k)"
        using t h down "1.prems"(1,3,5) by (intro "1.IH"(1) [OF True refl]) auto
      then show ?thesis using True t by (subst (1 2) search_loop.simps) (simp add: Let_def)
    qed
  next
    case False
    have "f k \<longleftrightarrow> i \<le> k" if "k < n" for k
      using "1.prems"(2) "1.prems"(4,5) [of k] False that by (cases "k < i") auto
    with False "1.prems" show ?thesis by (subst (1 2) search_loop.simps) auto
  qed
qed

lemma sort_Search_spec:
  assumes "\<And>a b. a \<le> b \<Longrightarrow> b < n \<Longrightarrow> f a \<Longrightarrow> f b"
  shows "sort_Search n f \<le> n" and "k < n \<Longrightarrow> f k \<longleftrightarrow> sort_Search n f \<le> k"
  using search_loop_spec [where f = f and n = n and i = 0 and j = n] assms
  by (auto simp: sort_Search_def)

section \<open>Sorted handler lists\<close>

definition handler_le :: "'h forkHandler \<Rightarrow> 'h forkHandler \<Rightarrow> bool" where
  "handler_le a b \<longleftrightarrow> fromBlockNumber a < fromBlockNumber b \<or> fromBlockNumber a = fromBlockNumber b \<and> hid a \<le> hid b"

definition fm_inv :: "'h forkManager \<Rightarrow> bool" where
  "fm_inv fm \<longleftrightarrow>
     (\<forall>name hs. handlersMap fm name = Some hs \<longrightarrow> sorted_wrt handler_le hs) \<and>
     sorted_wrt (\<lambda>a b. pFromBlockNumber a \<le> pFromBlockNumber b) (fparams fm)"

lemma handler_le_trans: "handler_le a b \<Longrightarrow> handler_le b c \<Longrightarrow> handler_le a c"
  by (auto simp: handler_le_def)

lemma mem_dropE:
  assumes "y \<in> set (drop i xs)"
  obtains k where "i \<le> k" "k < length xs" "y = xs ! k"
proof -
  obtain j where "j < length xs - i" "y = drop i xs ! j" using assms by (auto simp: in_set_conv_nth)
  then show thesis by (intro that [of "i + j"]) auto
qed

lemma mem_takeE:
  assumes "y \<in> set (take i xs)"
  obtains k where "k < i" "k < length xs" "y = xs ! k"
  using assms by (auto simp: in_set_conv_nth)

lemma sorted_wrt_nth_mono:
  assumes "sorted_wrt R xs" and "\<And>x. R x x" and "i \<le> j" and "j < length xs"
  shows "R (xs ! i) (xs ! j)"
  using assms by (cases "i = j") (auto simp: sorted_wrt_iff_nth_less)

text \<open>Inserting at the position the search returns keeps a list sorted.\<close>

lemma sorted_insert:
  assumes "sorted_wrt R xs" and "transp R"
    and "\<And>y. y \<in> set xs \<Longrightarrow> P y \<Longrightarrow> R x y" and "\<And>y. y \<in> set xs \<Longrightarrow> \<not> P y \<Longrightarrow> R y x"
    and "i \<le> length xs" and "\<And>k. k < length xs \<Longrightarrow> P (xs ! k) \<longleftrightarrow> i \<le> k"
  shows "sorted_wrt R (take i xs @ [x] @ drop i xs)"
proof -
  have lo: "\<forall>y \<in> set (take i xs). R y x"
    using assms(4,6) by (auto elim!: mem_takeE)
  have hi: "\<forall>y \<in> set (drop i xs). R x y"
    using assms(3,6) by (auto elim!: mem_dropE)
  have "sorted_wrt R (take i xs @ drop i xs)" using assms(1) by simp
  then show ?thesis using lo hi unfolding sorted_wrt_append by auto
qed

lemma not_before_mono:
  assumes "sorted_wrt handler_le hs" and "a \<le> b" and "b < length hs" and "not_before (hs ! a) n i"
  shows "not_before (hs ! b) n i"
proof -
  have "handler_le (hs ! a) (hs ! b)"
    by (rule sorted_wrt_nth_mono [OF assms(1) _ assms(2,3)]) (simp add: handler_le_def)
  with assms(4) show ?thesis by (auto simp: not_before_def handler_le_def)
qed

lemma addHandler_inv:
  assumes "fm_inv fm"
  shows "fm_inv (addHandler name n c fm)"
proof (cases "handlersMap fm name")
  case None
  with assms show ?thesis by (auto simp: fm_inv_def addHandler_def Let_def)
next
  case (Some hs)
  let ?x = "\<lparr>hid = ContID c, fromBlockNumber = n, handler_of = ContHandler c\<rparr>"
  let ?i = "sort_Search (length hs) (\<lambda>i. not_before (hs ! i) n (ContID c))"
  have srt: "sorted_wrt handler_le hs" using assms Some by (simp add: fm_inv_def)
  have s: "?i \<le> length hs" "\<And>k. k < length hs \<Longrightarrow> not_before (hs ! k) n (ContID c) \<longleftrightarrow> ?i \<le> k"
    by (rule sort_Search_spec [where f = "\<lambda>i. not_before (hs ! i) n (ContID c)"];
        use not_before_mono [OF srt] in blast)+
  have "sorted_wrt handler_le (take ?i hs @ [?x] @ drop ?i hs)"
    by (rule sorted_insert [where P = "\<lambda>h. not_before h n (ContID c)", OF srt _ _ _ s])
      (auto simp: not_before_def handler_le_def transp_def)
  with Some assms show ?thesis by (simp add: fm_inv_def addHandler_def Let_def)
qed

lemma sorted_remove: "sorted_wrt R xs \<Longrightarrow> sorted_wrt R (take i xs @ drop (Suc i) xs)"
  by (induction xs arbitrary: i)
    (auto simp: take_Cons drop_Cons split: nat.splits dest: in_set_takeD in_set_dropD)

lemma removeHandler_inv: "fm_inv fm \<Longrightarrow> fm_inv (removeHandler name n i fm)"
  by (auto simp: fm_inv_def removeHandler_def Let_def sorted_remove split: option.splits)

lemma params_mono:
  assumes "sorted_wrt (\<lambda>a b. pFromBlockNumber a \<le> pFromBlockNumber b) ps" and "a \<le> b" and "b < length ps"
  shows "pFromBlockNumber (ps ! a) \<le> pFromBlockNumber (ps ! b)"
  using assms by (intro sorted_wrt_nth_mono [where R = "\<lambda>a b. pFromBlockNumber a \<le> pFromBlockNumber b"]) auto

lemma addParams_inv:
  assumes "fm_inv fm"
  shows "fm_inv (addParams n p fm)"
proof (cases p)
  case None
  with assms show ?thesis by (simp add: addParams_def)
next
  case (Some q)
  let ?R = "\<lambda>a b. pFromBlockNumber a \<le> pFromBlockNumber b"
  let ?ps = "fparams fm" and ?x = "\<lparr>pFromBlockNumber = n, pParams = q\<rparr>"
  let ?i = "sort_Search (length ?ps) (\<lambda>i. n \<le> pFromBlockNumber (?ps ! i))"
  have srt: "sorted_wrt ?R ?ps" using assms by (simp add: fm_inv_def)
  have s: "?i \<le> length ?ps" "\<And>k. k < length ?ps \<Longrightarrow> n \<le> pFromBlockNumber (?ps ! k) \<longleftrightarrow> ?i \<le> k"
    by (rule sort_Search_spec [where f = "\<lambda>i. n \<le> pFromBlockNumber (?ps ! i)"];
        use params_mono [OF srt] order_trans in blast)+
  have "sorted_wrt ?R (take ?i ?ps @ [?x] @ drop ?i ?ps)"
    by (rule sorted_insert [where P = "\<lambda>b. n \<le> pFromBlockNumber b", OF srt _ _ _ s])
      (auto simp: transp_def)
  with Some assms show ?thesis by (simp add: fm_inv_def addParams_def Let_def)
qed

lemma removeParams_inv: "fm_inv fm \<Longrightarrow> fm_inv (removeParams n fm)"
  by (simp add: fm_inv_def removeParams_def Let_def sorted_remove)

section \<open>Lookup\<close>

text \<open>A search on a sorted list finds the last element below a bound.\<close>

lemma search_last:
  assumes "\<And>a b. a \<le> b \<Longrightarrow> b < length xs \<Longrightarrow> \<not> P (xs ! a) \<Longrightarrow> \<not> P (xs ! b)"
  shows "(let pos = sort_Search (length xs) (\<lambda>i. \<not> P (xs ! i))
          in if pos = 0 then None else Some (xs ! (pos - 1))) =
         (case filter P xs of [] \<Rightarrow> None | y # ys \<Rightarrow> Some (last (y # ys)))"
proof -
  define pos where "pos = sort_Search (length xs) (\<lambda>i. \<not> P (xs ! i))"
  have le: "pos \<le> length xs" and iff: "\<And>k. k < length xs \<Longrightarrow> \<not> P (xs ! k) \<longleftrightarrow> pos \<le> k"
    unfolding pos_def
    by (rule sort_Search_spec [where f = "\<lambda>i. \<not> P (xs ! i)"]; use assms in blast)+
  have iff': "\<And>k. k < length xs \<Longrightarrow> P (xs ! k) \<longleftrightarrow> k < pos" using iff not_le by blast
  have "filter P (take pos xs) = take pos xs" "filter P (drop pos xs) = []"
    using iff' by (auto simp: filter_id_conv filter_empty_conv elim!: mem_takeE mem_dropE)
  then have eq: "filter P xs = take pos xs"
    by (metis append_Nil2 append_take_drop_id filter_append)
  have "last (take pos xs) = xs ! (pos - 1)" if "pos \<noteq> 0"
    using that le by (subst last_conv_nth) (auto simp: min_def)
  with eq le show ?thesis
    by (cases "pos = 0") (auto simp: Let_def simp flip: pos_def split: list.splits)
qed

lemma GetHandler_last:
  assumes "fm_inv fm" and "handlersMap fm name = Some hs"
  shows "GetHandler fm name b =
    (case filter (\<lambda>h. fromBlockNumber h \<le> b) hs of [] \<Rightarrow> None | y # ys \<Rightarrow> Some (handler_of (last (y # ys))))"
proof -
  have srt: "sorted_wrt handler_le hs" using assms by (simp add: fm_inv_def)
  have mono: "fromBlockNumber (hs ! i) \<le> fromBlockNumber (hs ! j)" if "i \<le> j" "j < length hs" for i j
    using sorted_wrt_nth_mono [OF srt _ that] by (auto simp: handler_le_def)
  have "(let pos = sort_Search (length hs) (\<lambda>i. b < fromBlockNumber (hs ! i))
          in if pos = 0 then None else Some (hs ! (pos - 1))) =
        (case filter (\<lambda>h. fromBlockNumber h \<le> b) hs of [] \<Rightarrow> None | y # ys \<Rightarrow> Some (last (y # ys)))"
    using search_last [where xs = hs and P = "\<lambda>h. fromBlockNumber h \<le> b"] mono
    by (simp add: not_le) (meson less_le_trans)
  then show ?thesis
    using assms(2) by (auto simp: GetHandler_def Let_def split: list.splits if_splits)
qed

text \<open>The operations a node performs on its manager.\<close>

inductive fm_step :: "'h forkManager \<Rightarrow> 'h forkManager \<Rightarrow> bool" where
  "fm_step fm (Clear fm)"
| "fm_step fm (RegisterFork name p fm)"
| "fm_step fm (snd (RegisterHandler name desc h fm))"
| "fm_step fm (snd (ActivateFork name n fm))"
| "fm_step fm (snd (DeactivateFork name fm))"

inductive_cases fm_stepE: "fm_step fm fm'"

lemma fm_inv_cong: "handlersMap fm' = handlersMap fm \<Longrightarrow> fparams fm' = fparams fm \<Longrightarrow> fm_inv fm' \<longleftrightarrow> fm_inv fm"
  by (simp add: fm_inv_def)

lemma fm_inv_fold:
  assumes "\<And>x fm. fm_inv fm \<Longrightarrow> fm_inv (f x fm)"
  shows "fm_inv fm \<Longrightarrow> fm_inv (fold f xs fm)"
  by (induction xs arbitrary: fm) (auto intro: assms)

lemma ActivateFork_inv:
  assumes "fm_inv fm"
  shows "fm_inv (snd (ActivateFork name n fm))"
proof (cases "forkMap fm name")
  case (Some fork)
  have "fm_inv (addParams n (Params fork) (fold (\<lambda>(name, h). addHandler name n h) (Handlers fork) fm'))"
    if "fm_inv fm'" for fm' :: "'a forkManager"
    by (rule addParams_inv, rule fm_inv_fold [OF _ that]) (simp add: addHandler_inv split: prod.split)
  then show ?thesis using Some assms
    by (simp add: ActivateFork_def Let_def fm_inv_cong [of "_\<lparr>forkMap := _\<rparr>" fm])
qed (use assms in \<open>simp add: ActivateFork_def\<close>)

lemma DeactivateFork_inv:
  assumes "fm_inv fm"
  shows "fm_inv (snd (DeactivateFork name fm))"
proof (cases "forkMap fm name")
  case (Some fork)
  have "fm_inv (removeParams n (fold (\<lambda>(name, h). removeHandler name n (ContID h)) (Handlers fork) fm'))"
    if "fm_inv fm'" for n and fm' :: "'a forkManager"
    by (rule removeParams_inv, rule fm_inv_fold [OF _ that]) (simp add: removeHandler_inv split: prod.split)
  then show ?thesis using Some assms
    by (simp add: DeactivateFork_def Let_def fm_inv_cong [of "_\<lparr>forkMap := _\<rparr>" fm])
qed (use assms in \<open>simp add: DeactivateFork_def\<close>)

lemma register_inv:
  assumes "fm_inv fm"
  shows "fm_inv (Clear fm)" and "fm_inv (RegisterFork name p fm)"
    and "fm_inv (snd (RegisterHandler name desc h fm))"
  using assms
  by (simp_all add: Clear_def RegisterFork_def RegisterHandler_def fm_inv_def Let_def split: option.split)

lemma fm_step_inv: "fm_step fm fm' \<Longrightarrow> fm_inv fm \<Longrightarrow> fm_inv fm'"
  by (erule fm_stepE) (simp_all add: ActivateFork_inv DeactivateFork_inv register_inv)

lemma fm_reach_inv: "fm_step\<^sup>*\<^sup>* fm fm' \<Longrightarrow> fm_inv fm \<Longrightarrow> fm_inv fm'"
  by (induction rule: rtranclp_induct) (auto intro: fm_step_inv)

definition empty_manager :: "'h forkManager" where
  "empty_manager = \<lparr>forkMap = Map.empty, handlersMap = Map.empty, fparams = [], handlerIDCnt = 0,
     pstore = (\<lambda>_. \<lparr>MaxValidatorSetSize = None, EpochSize = None, SprintSize = None, BlockTime = None,
       BlockTimeDrift = None\<rparr>)\<rparr>"

lemma fm_inv_empty: "fm_inv empty_manager"
  by (simp add: fm_inv_def empty_manager_def)

section \<open>Properties\<close>

text \<open>
  C31. Whatever forks a node registers, activates and deactivates, in whatever order, the
  binary search of \<open>GetHandler\<close> finds the last handler that starts at or before the
  block: the one a linear scan of the handler list would find.
\<close>

theorem GetHandler_refines_scan:
  assumes "fm_step\<^sup>*\<^sup>* empty_manager fm"
  shows "GetHandler fm name b =
    (case handlersMap fm name of
       None \<Rightarrow> None
     | Some hs \<Rightarrow>
         (case filter (\<lambda>h. fromBlockNumber h \<le> b) hs of
            [] \<Rightarrow> None | y # ys \<Rightarrow> Some (handler_of (last (y # ys)))))"
proof (cases "handlersMap fm name")
  case None
  then show ?thesis by (simp add: GetHandler_def)
next
  case (Some hs)
  then show ?thesis
    using GetHandler_last [OF fm_reach_inv [OF assms fm_inv_empty] Some] by simp
qed

theorem GetHandler_refines_scan_witness:
  "\<exists>fm. fm_step\<^sup>*\<^sup>* empty_manager fm \<and> GetHandler fm ''h'' 5 = Some (7 :: nat)"
proof -
  define fm0 where "fm0 = RegisterFork ''f'' None (empty_manager :: nat forkManager)"
  define fm1 where "fm1 = snd (RegisterHandler ''f'' ''h'' 7 fm0)"
  define fm2 where "fm2 = snd (ActivateFork ''f'' 3 fm1)"
  have "fm_step empty_manager fm0" "fm_step fm0 fm1" "fm_step fm1 fm2"
    unfolding fm0_def fm1_def fm2_def by (rule fm_step.intros)+
  then have reach: "fm_step\<^sup>*\<^sup>* empty_manager fm2" by auto
  have "handlersMap fm2 ''h'' = Some [\<lparr>hid = 1, fromBlockNumber = 3, handler_of = 7\<rparr>]"
    by (simp add: fm2_def fm1_def fm0_def ActivateFork_def RegisterHandler_def RegisterFork_def
        addHandler_def addParams_def empty_manager_def Let_def)
  with reach show ?thesis using GetHandler_refines_scan [OF reach, of "''h''" 5] by auto
qed

lemmas manager_defs = ActivateFork_def DeactivateFork_def RegisterHandler_def RegisterFork_def
  addHandler_def removeHandler_def addParams_def removeParams_def empty_manager_def not_before_def
  sort_Search_def search_loop.simps GetHandler_def GetParams_def IsForkRegistered_def Let_def

text \<open>
  The fee rules switch exactly at the block the London-fix fork is activated from: a
  node that registers the initial fork and the fix, registers their handlers and
  activates them applies the first version below that block and the second from it on.
\<close>

theorem london_fix_schedule:
  assumes "lf \<noteq> InitialFork"
  shows "GetLondonFixHandler
     (snd (ActivateFork lf n (snd (ActivateFork InitialFork 0
        (snd (RegisterLondonFixFork lf (RegisterFork lf None (RegisterFork InitialFork None empty_manager)))))))) b =
   Some (if b < n then LondonFixForkV1 else LondonFixForkV2)"
  using assms
  by (simp add: GetLondonFixHandler_def RegisterLondonFixFork_def manager_defs) (simp add: word_le_nat_alt)

theorem london_fix_schedule_witness:
  "''londonfix'' \<noteq> InitialFork \<and>
   GetLondonFixHandler
     (snd (ActivateFork ''londonfix'' 10 (snd (ActivateFork InitialFork 0
        (snd (RegisterLondonFixFork ''londonfix'' (RegisterFork ''londonfix'' None (RegisterFork InitialFork None empty_manager)))))))) 9 =
   Some LondonFixForkV1"
  using london_fix_schedule [of "''londonfix''" 10 9] by (simp add: InitialFork_def)


text \<open>
  Clearing the manager forgets the forks and their handlers, but not their
  parameters.
\<close>

theorem Clear_keeps_params:
  "IsForkRegistered (Clear fm) name = False \<and> GetHandler (Clear fm) desc b = None \<and>
   GetParams (Clear fm) b = GetParams fm b"
  by (simp add: Clear_def IsForkRegistered_def GetHandler_def GetParams_def Let_def)

end
