(* ===== verification/Executor.thy ===== *)
theory Executor
  imports State_Txn Tx_Signer Address_List Staking Fork_Manager_Spec EVM_Run
begin

text \<open>
  The transition (\<open>state/executor.go\<close>): how a block applies its transactions.  The
  transition is the host of the interpreter, so running a contract and running the
  contracts it calls are mutually recursive; the recursion is over the call depth.
\<close>

section \<open>Configuration\<close>

text \<open>A decoded JSON value, as far as the code looks into it.\<close>

datatype conf = CString string | CMap "(string \<times> conf) list" | COther

record ChainParams =
  ParamForks :: Forks
  ParamChainID :: int
  ParamEngine :: "(string \<times> conf) list"
  ParamBurnContract :: burn_schedule
  ContractDeployerAllowList :: "AddressListConfig option"
  ContractDeployerBlockList :: "AddressListConfig option"
  TransactionsAllowList :: "AddressListConfig option"
  TransactionsBlockList :: "AddressListConfig option"
  BridgeAllowList :: "AddressListConfig option"
  BridgeBlockList :: "AddressListConfig option"

text \<open>
  The parameter \<open>W\<close>: the containers and Keccak-256 of the state, the primitives of the
  precompiled contracts, the selectors of the address lists, and the fork manager,
  which is a global variable of the program.
\<close>

record ('t, 's, 'c) World = "('t, 's, 'c) Lib" +
  prims :: Prims
  selectors :: AddressListABI
  manager :: "handler_value forkManager"

section \<open>The transition\<close>

text \<open>
  An address list is its address: its state is the transition itself.  \<open>executor\<close> is
  the configuration of the executor that began the transition.
\<close>

record ('t, 'c) Transition =
  t_config :: ForksInTime
  t_state :: "('t, 'c) Txn"
  t_getHash :: "uint64 \<Rightarrow> hash"
  t_ctx :: TxContext
  t_gasPool :: uint64
  executor :: "ChainParams option"
  t_receipts :: "Receipt list"
  t_totalGas :: uint64
  deploymentAllowList :: "address option"
  deploymentBlockList :: "address option"
  txnAllowList :: "address option"
  txnBlockList :: "address option"
  bridgeAllowList :: "address option"
  bridgeBlockList :: "address option"

definition upd_state :: "(('t, 'c) Txn \<Rightarrow> ('t, 'c) Txn) \<Rightarrow> ('t, 'c) Transition \<Rightarrow> ('t, 'c) Transition" where
  "upd_state f t = t\<lparr>t_state := f (t_state t)\<rparr>"

definition subGasPool :: "uint64 \<Rightarrow> ('t, 'c) Transition \<Rightarrow> rule_error option \<times> ('t, 'c) Transition" where
  "subGasPool amount t =
     (if t_gasPool t < amount then (Some ErrBlockLimitReached, t)
      else (None, t\<lparr>t_gasPool := t_gasPool t - amount\<rparr>))"

definition addGasPool :: "uint64 \<Rightarrow> ('t, 'c) Transition \<Rightarrow> ('t, 'c) Transition" where
  "addGasPool amount t = t\<lparr>t_gasPool := t_gasPool t + amount\<rparr>"

definition Transition_Transfer ::
  "('t, 's, 'c) World \<Rightarrow> ('t, 'c) Transition \<Rightarrow> address \<Rightarrow> address \<Rightarrow> int option \<Rightarrow>
   error option \<times> ('t, 'c) Transition" where
  "Transition_Transfer W t from to amount =
     (case amount of
        None \<Rightarrow> (None, t)
      | Some a \<Rightarrow>
          (case SubBalance W from a (t_state t) of
             (Some e, s) \<Rightarrow>
               (Some (if e = ErrNotEnoughFunds then ErrInsufficientBalance else e), t\<lparr>t_state := s\<rparr>)
           | (None, s) \<Rightarrow> (None, t\<lparr>t_state := AddBalance W to a s\<rparr>)))"

definition Transition_Selfdestruct ::
  "('t, 's, 'c) World \<Rightarrow> ('t, 'c) Transition \<Rightarrow> address \<Rightarrow> address \<Rightarrow> ('t, 'c) Transition" where
  "Transition_Selfdestruct W t addr beneficiary =
     (let s = t_state t;
          s = (if \<not> HasSuicided W s addr then AddRefund W 24000 s else s);
          s = AddBalance W beneficiary (Txn_GetBalance W s addr) s
      in t\<lparr>t_state := snd (Txn_Suicide W addr s)\<rparr>)"

definition hasCodeOrNonce :: "('t, 's, 'c) World \<Rightarrow> ('t, 'c) Transition \<Rightarrow> address \<Rightarrow> bool" where
  "hasCodeOrNonce W t addr =
     (if Txn_GetNonce W (t_state t) addr \<noteq> 0 then True
      else let codeHash = Txn_GetCodeHash W (t_state t) addr
           in codeHash \<noteq> EmptyCodeHash \<and> codeHash \<noteq> ZeroHash)"

definition transition_ref :: "('t, 's, 'c) World \<Rightarrow> ('t, 'c) Transition stateRef" where
  "transition_ref W =
     \<lparr>ref_SetState = (\<lambda>t a k v. upd_state (Txn_SetState W a k v) t),
      ref_GetStorage = (\<lambda>t a k. Txn_GetState W (t_state t) a k)\<rparr>"

text \<open>The first list whose address is called handles the call.\<close>

definition handleAllowBlockListsUpdate ::
  "('t, 's, 'c) World \<Rightarrow> Contract \<Rightarrow> ('t, 'c) Transition \<Rightarrow> (ExecutionResult \<times> ('t, 'c) Transition) option" where
  "handleAllowBlockListsUpdate W contract t =
     (case filter (\<lambda>l. l = Some (CodeAddress contract))
             [deploymentAllowList t, deploymentBlockList t, bridgeAllowList t, bridgeBlockList t,
              txnAllowList t, txnBlockList t] of
        [] \<Rightarrow> None
      | _ \<Rightarrow> Some (AddressList_Run (selectors W) (transition_ref W) (CodeAddress contract) contract t))"

text \<open>The access lists: \<open>True\<close> when the caller may go on.\<close>

definition txn_access :: "('t, 's, 'c) World \<Rightarrow> Contract \<Rightarrow> ('t, 'c) Transition \<Rightarrow> bool" where
  "txn_access W contract t =
     (case txnAllowList t of
        Some l \<Rightarrow>
          if Caller contract \<noteq> SystemCaller
          then Role_Enabled (GetRole (transition_ref W) l t (Caller contract)) else True
      | None \<Rightarrow>
          (case txnBlockList t of
             Some l \<Rightarrow>
               if Caller contract \<noteq> SystemCaller
               then GetRole (transition_ref W) l t (Caller contract) \<noteq> EnabledRole else True
           | None \<Rightarrow> True))"

definition deploy_access :: "('t, 's, 'c) World \<Rightarrow> Contract \<Rightarrow> ('t, 'c) Transition \<Rightarrow> bool" where
  "deploy_access W c t =
     (case deploymentAllowList t of
        Some l \<Rightarrow> Role_Enabled (GetRole (transition_ref W) l t (Caller c))
      | None \<Rightarrow>
          (case deploymentBlockList t of
             Some l \<Rightarrow> GetRole (transition_ref W) l t (Caller c) \<noteq> EnabledRole
           | None \<Rightarrow> True))"

section \<open>Running contracts\<close>

text \<open>A machine as the pool hands it out when it is empty.\<close>

definition new_machine :: "'h \<Rightarrow> Contract \<Rightarrow> ForksInTime \<Rightarrow> 'h vm" where
  "new_machine h ct f =
     \<lparr>ip = 0, code = [], tmp = [], host = h, msg = ct, config = f, memory = [], lastGasCost = 0,
      stack = [], sp = 0, err = None, stop = False, gas = 0, currentConsumedGas = 0, bitmap = [],
      returnData = [], ret = []\<rparr>"

definition transition_run ::
  "('t, 's, 'c) World \<Rightarrow> ('t, 'c) Transition Env \<Rightarrow> Contract \<Rightarrow> ('t, 'c) Transition \<Rightarrow>
   (ExecutionResult \<times> ('t, 'c) Transition) go" where
  "transition_run W E contract t =
     (case handleAllowBlockListsUpdate W contract t of
        Some r \<Rightarrow> Some r
      | None \<Rightarrow>
          if \<not> txn_access W contract t then Some (no_result\<lparr>GasLeft := 0, Err := Some ErrNotAuth\<rparr>, t)
          else if Precompiled_CanRun contract (t_config t)
          then Precompiled_Run (prims W) (Transition_Transfer W) contract t (t_config t)
          else if EVM_CanRun contract (t_config t)
          then EVM_Run E (new_machine t contract (t_config t)) contract t (t_config t)
          else Some (no_result\<lparr>Err := Some ErrRuntimeNotFound\<rparr>, t))"

definition applyCall ::
  "('t, 's, 'c) World \<Rightarrow> ('t, 'c) Transition Env \<Rightarrow> Contract \<Rightarrow> CallType \<Rightarrow> ('t, 'c) Transition \<Rightarrow>
   (ExecutionResult \<times> ('t, 'c) Transition) go" where
  "applyCall W E c callType t =
     (if 1024 + 1 < Depth c then Some (no_result\<lparr>GasLeft := Gas c, Err := Some ErrDepth\<rparr>, t)
      else
        let (snap, s) = Snapshot (t_state t);
            t = t\<lparr>t_state := TouchAccount W (Address c) s\<rparr>;
            (e, t) = (if callType = Call then Transition_Transfer W t (Caller c) (Address c) (Value c)
                      else (None, t))
        in case e of
             Some e \<Rightarrow> Some (no_result\<lparr>GasLeft := Gas c, Err := Some e\<rparr>, t)
           | None \<Rightarrow> do {
               (result, t) \<leftarrow> transition_run W E c t;
               if Failed result
               then case RevertToSnapshot (t_state t) snap of
                      (Some e, s) \<Rightarrow> Some (no_result\<lparr>GasLeft := Gas c, Err := Some e\<rparr>, t\<lparr>t_state := s\<rparr>)
                    | (None, s) \<Rightarrow> Some (result, t\<lparr>t_state := s\<rparr>)
               else Some (result, t) })"

definition SpuriousDragonMaxCodeSize :: nat where "SpuriousDragonMaxCodeSize = 24576"

text \<open>\<open>RevertToSnapshot\<close> and the result to return, or the result of a failed revert.\<close>

definition revert_with ::
  "nat \<Rightarrow> ExecutionResult \<Rightarrow> ('t, 'c) Transition \<Rightarrow> ExecutionResult \<times> ('t, 'c) Transition" where
  "revert_with snap result t =
     (case RevertToSnapshot (t_state t) snap of
        (Some e, s) \<Rightarrow> (no_result\<lparr>Err := Some e\<rparr>, t\<lparr>t_state := s\<rparr>)
      | (None, s) \<Rightarrow> (result, t\<lparr>t_state := s\<rparr>))"

text \<open>\<open>applyCreate\<close> after the contract's initialisation code has run.\<close>

definition store_code ::
  "('t, 's, 'c) World \<Rightarrow> Contract \<Rightarrow> nat \<Rightarrow> ExecutionResult \<Rightarrow> ('t, 'c) Transition \<Rightarrow>
   ExecutionResult \<times> ('t, 'c) Transition" where
  "store_code W c snap result t =
     (if Failed result then revert_with snap result t
      else if EIP158 (t_config t) \<and> SpuriousDragonMaxCodeSize < length (ReturnValue result)
      then revert_with snap (no_result\<lparr>GasLeft := 0, Err := Some ErrMaxCodeSizeExceeded\<rparr>) t
      else
        let gasCost = of_nat (length (ReturnValue result)) * 200 in
        if GasLeft result < gasCost then
          let result = result\<lparr>Err := Some ErrCodeStoreOutOfGas, ReturnValue := []\<rparr>
          in if Homestead (t_config t) then revert_with snap (result\<lparr>GasLeft := 0\<rparr>) t else (result, t)
        else
          (result\<lparr>GasLeft := GasLeft result - gasCost, ResAddress := Address c\<rparr>,
           upd_state (SetCode W (Address c) (ReturnValue result)) t))"

definition applyCreate ::
  "('t, 's, 'c) World \<Rightarrow> ('t, 'c) Transition Env \<Rightarrow> Contract \<Rightarrow> ('t, 'c) Transition \<Rightarrow>
   (ExecutionResult \<times> ('t, 'c) Transition) go" where
  "applyCreate W E c t =
     (if 1024 + 1 < Depth c then Some (no_result\<lparr>GasLeft := Gas c, Err := Some ErrDepth\<rparr>, t)
      else
        let (e, s) = IncrNonce W (Caller c) (t_state t); t = t\<lparr>t_state := s\<rparr> in
        if e \<noteq> None then Some (no_result\<lparr>Err := e\<rparr>, t)
        else if hasCodeOrNonce W t (Address c)
        then Some (no_result\<lparr>GasLeft := 0, Err := Some ErrContractAddressCollision\<rparr>, t)
        else
          let (snap, s) = Snapshot (t_state t);
              (e, s) = (if EIP158 (t_config t) then IncrNonce W (Address c) (CreateAccount W (Address c) s)
                        else (None, s));
              t = t\<lparr>t_state := s\<rparr>
          in if e \<noteq> None then Some (no_result\<lparr>Err := e\<rparr>, t)
             else
               let (e, t) = Transition_Transfer W t (Caller c) (Address c) (Value c) in
               if e \<noteq> None then Some (no_result\<lparr>GasLeft := Gas c, Err := e\<rparr>, t)
               else if \<not> deploy_access W c t
               then Some (no_result\<lparr>GasLeft := 0, Err := Some ErrNotAuth\<rparr>, t)
               else do {
                 (result, t) \<leftarrow> transition_run W E c t;
                 Some (store_code W c snap result t) })"

definition Transition_Callx ::
  "('t, 's, 'c) World \<Rightarrow> ('t, 'c) Transition Env \<Rightarrow> ('t, 'c) Transition \<Rightarrow> Contract \<Rightarrow>
   (ExecutionResult \<times> ('t, 'c) Transition) go" where
  "Transition_Callx W E t c = (if Type c = Create then applyCreate W E c t else applyCall W E c (Type c) t)"

section \<open>The host\<close>

definition transition_env ::
  "('t, 's, 'c) World \<Rightarrow>
   (('t, 'c) Transition \<Rightarrow> Contract \<Rightarrow> (ExecutionResult \<times> ('t, 'c) Transition) go) \<Rightarrow>
   ('t, 'c) Transition Env" where
  "transition_env W callx =
     \<lparr>AccountExists = (\<lambda>t a. Exist W (t_state t) a),
      GetStorage = (\<lambda>t a k. Txn_GetState W (t_state t) a k),
      SetStorage = (\<lambda>t a k v f. let (st, s) = Txn_SetStorage W a k v f (t_state t) in (st, t\<lparr>t_state := s\<rparr>)),
      SetState = (\<lambda>t a k v. upd_state (Txn_SetState W a k v) t),
      GetBalance = (\<lambda>t a. Txn_GetBalance W (t_state t) a),
      GetCodeSize = (\<lambda>t a. let (n, s) = Txn_GetCodeSize W (t_state t) a in (n, t\<lparr>t_state := s\<rparr>)),
      GetCodeHash = (\<lambda>t a. Txn_GetCodeHash W (t_state t) a),
      GetCode = (\<lambda>t a. let (cd, s) = Txn_GetCode W (t_state t) a in (cd, t\<lparr>t_state := s\<rparr>)),
      Selfdestruct = Transition_Selfdestruct W,
      GetTxContext = t_ctx,
      GetBlockHash = (\<lambda>t n. t_getHash t (word_of_int n)),
      EmitLog = (\<lambda>t a topics data. upd_state (Txn_EmitLog W a topics data) t),
      Callx = callx,
      AccountEmpty = (\<lambda>t a. Txn_Empty W (t_state t) a),
      GetNonce = (\<lambda>t a. Txn_GetNonce W (t_state t) a),
      Transfer = Transition_Transfer W,
      GetRefund = (\<lambda>t. Txn_GetRefund W (t_state t)),
      Keccak256 = keccak W,
      RlpAddrNonce = (\<lambda>a n. rlp_Marshal (prims W) (RArray [RBytes (Address_Bytes a), RUint n]))\<rparr>"

text \<open>
  A call may nest \<open>n\<close> more calls.  The depth check refuses a contract at depth 1026, so
  for a contract at depth \<open>d\<close> a bound of \<open>1026 - d\<close> is never reached.
\<close>

fun transition_callx ::
  "('t, 's, 'c) World \<Rightarrow> nat \<Rightarrow> ('t, 'c) Transition \<Rightarrow> Contract \<Rightarrow> (ExecutionResult \<times> ('t, 'c) Transition) go" where
  "transition_callx W 0 t c = None"
| "transition_callx W (Suc n) t c = Transition_Callx W (transition_env W (transition_callx W n)) t c"

definition transition_host :: "('t, 's, 'c) World \<Rightarrow> ('t, 'c) Transition Env" where
  "transition_host W = transition_env W (transition_callx W 1025)"

definition tx_CreateAddress :: "('t, 's, 'c) World \<Rightarrow> address \<Rightarrow> uint64 \<Rightarrow> address" where
  "tx_CreateAddress W = CreateAddress (keccak W) (RlpAddrNonce (transition_host W))"

definition Transition_Create2 ::
  "('t, 's, 'c) World \<Rightarrow> address \<Rightarrow> byte list \<Rightarrow> int \<Rightarrow> uint64 \<Rightarrow> ('t, 'c) Transition \<Rightarrow>
   (ExecutionResult \<times> ('t, 'c) Transition) go" where
  "Transition_Create2 W caller cd val g t =
     (let addr = tx_CreateAddress W caller (Txn_GetNonce W (t_state t) caller);
          contract = NewContractCreation 1 caller caller addr (Some val) g cd
      in applyCreate W (transition_host W) contract t)"

definition Transition_Call2 ::
  "('t, 's, 'c) World \<Rightarrow> address \<Rightarrow> address \<Rightarrow> byte list \<Rightarrow> int \<Rightarrow> uint64 \<Rightarrow> ('t, 'c) Transition \<Rightarrow>
   (ExecutionResult \<times> ('t, 'c) Transition) go" where
  "Transition_Call2 W caller to input val g t =
     (let (cd, s) = Txn_GetCode W (t_state t) to;
          c = NewContractCall 1 caller caller to (Some val) g cd input
      in applyCall W (transition_host W) c Call (t\<lparr>t_state := s\<rparr>))"

section \<open>Applying a transaction\<close>

datatype apply_error =
    TransitionApplicationError rule_error bool
  | GasLimitReachedTransitionApplicationError rule_error
  | PlainError error

definition TxGas_default :: uint64 where "TxGas_default = 21000"
definition TxGasContractCreation :: uint64 where "TxGasContractCreation = 53000"

definition TransactionGasCost :: "Transaction \<Rightarrow> bool \<Rightarrow> bool \<Rightarrow> rule_error + uint64" where
  "TransactionGasCost tx isHomestead isIstanbul =
     (let cost = (if IsContractCreation tx \<and> isHomestead then TxGasContractCreation else TxGas_default);
          payload = TxInput tx
      in if payload = [] then Inr cost
         else
           let zeros = of_nat (length (filter (\<lambda>b. b = 0) payload));
               nonZeros = of_nat (length payload) - zeros;
               nonZeroCost = (if isIstanbul then 16 else 68)
           in if (- 1 - cost) div nonZeroCost < nonZeros then Inl ErrIntrinsicGasOverflow
              else
                let cost = cost + nonZeros * nonZeroCost in
                if (- 1 - cost) div 4 < zeros then Inl ErrIntrinsicGasOverflow
                else Inr (cost + zeros * 4))"

definition nonceCheck :: "('t, 's, 'c) World \<Rightarrow> Transaction \<Rightarrow> ('t, 'c) Transition \<Rightarrow> rule_error option" where
  "nonceCheck W tx t =
     (if Txn_GetNonce W (t_state t) (From tx) \<noteq> TxNonce tx then Some ErrNonceIncorrect else None)"

text \<open>The version of the fee rules at the block of the transition.\<close>

definition london_rules :: "('t, 's, 'c) World \<Rightarrow> ('t, 'c) Transition \<Rightarrow> LondonFixFork go" where
  "london_rules W t = GetLondonFixHandler (manager W) (word_of_int (Number (t_ctx t)))"

definition subGasLimitPrice ::
  "('t, 's, 'c) World \<Rightarrow> Transaction \<Rightarrow> ('t, 'c) Transition \<Rightarrow> (rule_error option \<times> ('t, 'c) Transition) go" where
  "subGasLimitPrice W tx t = do {
     v \<leftarrow> london_rules W t;
     cost \<leftarrow> getUpfrontGasCost v tx (BaseFee (t_ctx t));
     Some (case SubBalance W (From tx) cost (t_state t) of
             (Some e, s) \<Rightarrow>
               (Some (if e = ErrNotEnoughFunds then ErrNotEnoughFundsForGas else RuntimeError e),
                t\<lparr>t_state := s\<rparr>)
           | (None, s) \<Rightarrow> (None, t\<lparr>t_state := s\<rparr>)) }"

definition checkAndProcessTx ::
  "('t, 's, 'c) World \<Rightarrow> Transaction \<Rightarrow> ('t, 'c) Transition \<Rightarrow> (apply_error option \<times> ('t, 'c) Transition) go" where
  "checkAndProcessTx W tx t =
     (case nonceCheck W tx t of
        Some e \<Rightarrow> Some (Some (TransitionApplicationError e True), t)
      | None \<Rightarrow>
          if NonPayable (t_ctx t) then Some (None, t)
          else do {
            v \<leftarrow> london_rules W t;
            e \<leftarrow> checkDynamicFees v tx (London (t_config t)) (BaseFee (t_ctx t));
            case e of
              Some e \<Rightarrow> Some (Some (TransitionApplicationError e True), t)
            | None \<Rightarrow> do {
                (e, t) \<leftarrow> subGasLimitPrice W tx t;
                Some (map_option (\<lambda>e. TransitionApplicationError e True) e, t) } })"

definition checkAndProcessStateTx :: "Transaction \<Rightarrow> apply_error option go" where
  "checkAndProcessStateTx tx = do {
     p \<leftarrow> TxGasPrice tx;
     Some (map_option (\<lambda>e. TransitionApplicationError e True)
       (if p \<noteq> 0 then Some ErrStateTxGasPrice
        else if TxGas tx \<noteq> StateTransactionGasLimit then Some ErrStateTxGas
        else if From tx \<noteq> SystemCaller then Some ErrStateTxFrom
        else if To tx = None \<or> To tx = Some ZeroAddress then Some ErrStateTxTo
        else None)) }"

definition default_owner :: address where
  "default_owner = StringToAddress ''0x0D269CA3878fb86d4Fe709f9D6ccB55a12223c2d''"

definition getOwnerAddressFromEngine :: "ChainParams option \<Rightarrow> address" where
  "getOwnerAddressFromEngine ex =
     (case Option.bind ex (\<lambda>p. map_of (ParamEngine p) ''ibft'') of
        Some (CMap engineConfig) \<Rightarrow>
          (case map_of engineConfig ''ownerAddress'' of
             Some (CString (c # cs)) \<Rightarrow> StringToAddress (c # cs)
           | _ \<Rightarrow>
               (case map_of engineConfig ''nativeTokenConfig'' of
                  Some (CMap tokenConfig) \<Rightarrow>
                    (case map_of tokenConfig ''owner'' of
                       Some (CString (c # cs)) \<Rightarrow> StringToAddress (c # cs)
                     | _ \<Rightarrow> default_owner)
                | _ \<Rightarrow> default_owner))
      | _ \<Rightarrow> default_owner)"

text \<open>Paying the producer, or the owner and the producer once the staking contract exists.\<close>

definition pay_fee :: "('t, 's, 'c) World \<Rightarrow> int \<Rightarrow> ('t, 'c) Transition \<Rightarrow> ('t, 'c) Transition" where
  "pay_fee W coinbaseFee t =
     (if CheckStakingContractDeployed (\<lambda>t a. Exist W (t_state t) a) t
      then upd_state (DistributeTxFeesToValidator (AddBalance W) (Some coinbaseFee)
             (getOwnerAddressFromEngine (executor t)) (Coinbase (t_ctx t))) t
      else upd_state (AddBalance W (Coinbase (t_ctx t)) coinbaseFee) t)"

text \<open>\<open>apply\<close> from the result of the execution on.\<close>

definition settle ::
  "('t, 's, 'c) World \<Rightarrow> Transaction \<Rightarrow> int \<Rightarrow> ExecutionResult \<Rightarrow> ('t, 'c) Transition \<Rightarrow>
   (ExecutionResult \<times> ('t, 'c) Transition) go" where
  "settle W tx gasPrice result t = do {
     let result = UpdateGasUsed result (TxGas tx) (Txn_GetRefund W (t_state t));
     let remaining = uint (GasLeft result) * gasPrice;
     let t = upd_state (AddBalance W (From tx) remaining) t;
     v \<leftarrow> london_rules W t;
     effectiveTip \<leftarrow> getEffectiveTip v tx gasPrice (BaseFee (t_ctx t)) (London (t_config t));
     let coinbaseFee = uint (GasUsed result) * effectiveTip;
     let t = pay_fee W coinbaseFee t;
     t \<leftarrow> (if London (t_config t) \<and> Tx_Type tx \<noteq> StateTx
           then do {
             b \<leftarrow> BaseFee (t_ctx t);
             Some (upd_state (AddBalance W (BurnContract (t_ctx t)) (uint (GasUsed result) * b)) t) }
           else Some t);
     Some (result, addGasPool (GasLeft result) t) }"

definition transition_apply ::
  "('t, 's, 'c) World \<Rightarrow> Transaction \<Rightarrow> ('t, 'c) Transition \<Rightarrow>
   ((apply_error + ExecutionResult) \<times> ('t, 'c) Transition) go" where
  "transition_apply W tx t = do {
     (e, t) \<leftarrow> (if Tx_Type tx = StateTx
               then do { e \<leftarrow> checkAndProcessStateTx tx; Some (e, t) }
               else checkAndProcessTx W tx t);
     case e of
       Some e \<Rightarrow> Some (Inl e, t)
     | None \<Rightarrow>
         let (e, t) = subGasPool (TxGas tx) t in
         case e of
           Some e \<Rightarrow> Some (Inl (GasLimitReachedTransitionApplicationError e), t)
         | None \<Rightarrow>
             (case TransactionGasCost tx (Homestead (t_config t)) (Istanbul (t_config t)) of
                Inl e \<Rightarrow> Some (Inl (TransitionApplicationError e False), t)
              | Inr intrinsicGasCost \<Rightarrow>
                  let gasLeft = TxGas tx - intrinsicGasCost in
                  if TxGas tx < gasLeft
                  then Some (Inl (TransitionApplicationError ErrNotEnoughIntrinsicGas False), t)
                  else do {
                    b \<leftarrow> BaseFee (t_ctx t);
                    let gasPrice = GetGasPrice tx (Uint64 b);
                    val \<leftarrow> TxValue tx;
                    let t = t\<lparr>t_ctx := (t_ctx t)\<lparr>CtxGasPrice := BytesToHash (Bytes gasPrice), CtxOrigin := From tx\<rparr>\<rparr>;
                    case To tx of
                      None \<Rightarrow> do {
                        (result, t) \<leftarrow> Transition_Create2 W (From tx) (TxInput tx) val gasLeft t;
                        (result, t) \<leftarrow> settle W tx gasPrice result t;
                        Some (Inr result, t) }
                    | Some to \<Rightarrow>
                        let (e, s) = IncrNonce W (From tx) (t_state t); t = t\<lparr>t_state := s\<rparr> in
                        (case e of
                           Some e \<Rightarrow> Some (Inl (PlainError e), t)
                         | None \<Rightarrow> do {
                             (result, t) \<leftarrow> Transition_Call2 W (From tx) to (TxInput tx) val gasLeft t;
                             (result, t) \<leftarrow> settle W tx gasPrice result t;
                             Some (Inr result, t) }) }) }"

text \<open>\<open>hook\<close> is the optional hook that runs after every transaction.\<close>

definition Apply ::
  "('t, 's, 'c) World \<Rightarrow> (('t, 'c) Transition \<Rightarrow> ('t, 'c) Transition) option \<Rightarrow> Transaction \<Rightarrow> ('t, 'c) Transition \<Rightarrow>
   ((apply_error + ExecutionResult) \<times> ('t, 'c) Transition) go" where
  "Apply W hook tx t = do {
     let (snap, s) = Snapshot (t_state t);
     (r, t) \<leftarrow> transition_apply W tx (t\<lparr>t_state := s\<rparr>);
     let post = (\<lambda>t. case hook of None \<Rightarrow> t | Some f \<Rightarrow> f t);
     case r of
       Inr result \<Rightarrow> Some (r, post t)
     | Inl e \<Rightarrow>
         (case RevertToSnapshot (t_state t) snap of
            (Some re, s) \<Rightarrow> Some (Inl (PlainError re), t\<lparr>t_state := s\<rparr>)
          | (None, s) \<Rightarrow> Some (r, post (t\<lparr>t_state := s\<rparr>))) }"

end
