(* ===== verification/Block_Executor.thy ===== *)
theory Block_Executor
  imports Executor
begin

text \<open>
  The executor (\<open>state/executor.go\<close>) from a block down to its transactions: beginning a
  transition, writing transactions with their receipts, the genesis state, and the
  changes made without a transaction.
\<close>

section \<open>Headers and blocks\<close>

record Header =
  ParentHash :: hash
  Sha3Uncles :: hash
  Miner :: "byte list"
  StateRoot :: hash
  TxRoot :: hash
  ReceiptsRoot :: hash
  HdrLogsBloom :: Bloom
  HdrDifficulty :: uint64
  HdrNumber :: uint64
  HdrGasLimit :: uint64
  HdrGasUsed :: uint64
  HdrTimestamp :: uint64
  ExtraData :: "byte list"
  MixHash :: hash
  HdrNonce :: "byte list"
  HdrHash :: hash
  HdrBaseFee :: uint64

record Block =
  header :: Header
  Transactions :: "Transaction list"

section \<open>Beginning a transition\<close>

text \<open>
  \<open>newSnapshotAt\<close> opens the state at a root and \<open>getHash\<close> finds the hash of an
  earlier block; both belong to the storage layer.
\<close>

datatype begin_error = StateError error | BurnError burn_error

definition tx_context :: "ChainParams \<Rightarrow> Header \<Rightarrow> address \<Rightarrow> address \<Rightarrow> TxContext" where
  "tx_context p h coinbaseReceiver burnContract =
     \<lparr>CtxGasPrice = ZeroHash, CtxOrigin = ZeroAddress, Coinbase = coinbaseReceiver,
      Number = sint (HdrNumber h), Timestamp = sint (HdrTimestamp h), GasLimit = sint (HdrGasLimit h),
      ChainID = ParamChainID p,
      Difficulty = BytesToHash (Bytes (uint (HdrDifficulty h))), NonPayable = False,
      BaseFee = Some (uint (HdrBaseFee h)), BurnContract = burnContract\<rparr>"

definition BeginTxn ::
  "('t, 's, 'c) World \<Rightarrow> (hash \<Rightarrow> error + readSnapshot) \<Rightarrow> (Header \<Rightarrow> uint64 \<Rightarrow> hash) \<Rightarrow> ChainParams \<Rightarrow>
   hash \<Rightarrow> Header \<Rightarrow> address \<Rightarrow> begin_error + ('t, 'c) Transition" where
  "BeginTxn W newSnapshotAt getHash p parentRoot h coinbaseReceiver =
     (let forkConfig = Forks_At (ParamForks p) (HdrNumber h) in
      case newSnapshotAt parentRoot of
        Inl e \<Rightarrow> Inl (StateError e)
      | Inr snap \<Rightarrow>
          (case (if London forkConfig then CalculateBurnContract (ParamBurnContract p) (HdrNumber h)
                 else Inr ZeroAddress) of
             Inl e \<Rightarrow> Inl (BurnError e)
           | Inr burnContract \<Rightarrow>
               let ctx = tx_context p h coinbaseReceiver burnContract;
                   enabled = (\<lambda>conf addr. case conf of None \<Rightarrow> None | Some _ \<Rightarrow> Some addr)
               in Inr \<lparr>t_config = forkConfig, t_state = newTxn W snap, t_getHash = getHash h, t_ctx = ctx,
                    t_gasPool = word_of_int (GasLimit ctx), executor = Some p, t_receipts = [], t_totalGas = 0,
                    deploymentAllowList = enabled (ContractDeployerAllowList p) AllowListContractsAddr,
                    deploymentBlockList = enabled (ContractDeployerBlockList p) BlockListContractsAddr,
                    txnAllowList = enabled (TransactionsAllowList p) AllowListTransactionsAddr,
                    txnBlockList = enabled (TransactionsBlockList p) BlockListTransactionsAddr,
                    bridgeAllowList = enabled (BridgeAllowList p) AllowListBridgeAddr,
                    bridgeBlockList = enabled (BridgeBlockList p) BlockListBridgeAddr\<rparr>))"

section \<open>Writing transactions\<close>

text \<open>The sender of a signed transaction that does not carry one yet.\<close>

definition with_sender ::
  "('t, 's, 'c) World \<Rightarrow> Transaction \<Rightarrow> ('t, 'c) Transition \<Rightarrow> (apply_error + Transaction) go" where
  "with_sender W tx0 t =
     (if From tx0 = ZeroAddress \<and> (Tx_Type tx0 = LegacyTx \<or> Tx_Type tx0 = DynamicFeeTx)
      then do {
        r \<leftarrow> Sender (prims W) (NewSigner (t_config t) (word_of_int (ChainID (t_ctx t)))) tx0;
        Some (case r of
                Inl e \<Rightarrow> Inl (TransitionApplicationError ErrSender False)
              | Inr a \<Rightarrow> Inr (tx0\<lparr>From := a\<rparr>)) }
      else Some (Inr tx0))"

definition Write ::
  "('t, 's, 'c) World \<Rightarrow> (('t, 'c) Transition \<Rightarrow> ('t, 'c) Transition) option \<Rightarrow> Transaction \<Rightarrow> ('t, 'c) Transition \<Rightarrow>
   (apply_error option \<times> ('t, 'c) Transition) go" where
  "Write W hook tx0 t = do {
     r \<leftarrow> with_sender W tx0 t;
     case r of
       Inl e \<Rightarrow> Some (Some e, t)
     | Inr tx0 \<Rightarrow> do {
         let tx = Transaction_Copy tx0;
         (r, t) \<leftarrow> Apply W hook tx t;
         case r of
           Inl e \<Rightarrow> Some (Some e, t)
         | Inr result \<Rightarrow> do {
             let t = t\<lparr>t_totalGas := t_totalGas t + GasUsed result\<rparr>;
             let (logs, s) = Txn_Logs W (t_state t);
             let s = CleanDeleteObjects W True s;
             let receipt = \<lparr>CumulativeGasUsed = t_totalGas t, LogsBloom = [], Logs = logs,
               Status = Some (if Failed result then ReceiptFailed else ReceiptSuccess),
               ReceiptGasUsed = GasUsed result,
               ContractAddress = (if To tx = None
                  then Some (tx_CreateAddress W (From tx) (TxNonce tx0)) else None),
               ReceiptTxHash = TxHash tx0, TransactionType = Tx_Type tx0\<rparr>;
             bloom \<leftarrow> CreateBloom (keccak W) [receipt];
             Some (None, t\<lparr>t_state := s, t_receipts := t_receipts t @ [receipt\<lparr>LogsBloom := bloom\<rparr>]\<rparr>) } } }"

fun write_all ::
  "('t, 's, 'c) World \<Rightarrow> (('t, 'c) Transition \<Rightarrow> ('t, 'c) Transition) option \<Rightarrow> uint64 \<Rightarrow> Transaction list \<Rightarrow>
   ('t, 'c) Transition \<Rightarrow> (apply_error option \<times> ('t, 'c) Transition) go" where
  "write_all W hook limit [] t = Some (None, t)"
| "write_all W hook limit (x # xs) t =
     (if limit < TxGas x then write_all W hook limit xs t
      else do {
        (e, t) \<leftarrow> Write W hook x t;
        case e of Some e \<Rightarrow> Some (Some e, t) | None \<Rightarrow> write_all W hook limit xs t })"

definition ProcessBlock ::
  "('t, 's, 'c) World \<Rightarrow> (hash \<Rightarrow> error + readSnapshot) \<Rightarrow> (Header \<Rightarrow> uint64 \<Rightarrow> hash) \<Rightarrow> ChainParams \<Rightarrow>
   (('t, 'c) Transition \<Rightarrow> ('t, 'c) Transition) option \<Rightarrow> hash \<Rightarrow> Block \<Rightarrow> address \<Rightarrow>
   ((begin_error + apply_error) + ('t, 'c) Transition) go" where
  "ProcessBlock W newSnapshotAt getHash p hook parentRoot block blockCreator =
     (case BeginTxn W newSnapshotAt getHash p parentRoot (header block) blockCreator of
        Inl e \<Rightarrow> Some (Inl (Inl e))
      | Inr t \<Rightarrow> do {
          (e, t) \<leftarrow> write_all W hook (HdrGasLimit (header block)) (Transactions block) t;
          Some (case e of Some e \<Rightarrow> Inl (Inr e) | None \<Rightarrow> Inr t) })"

definition Transition_Commit :: "('t, 's, 'c) World \<Rightarrow> ('t, 'c) Transition \<Rightarrow> Object list \<times> ('t, 'c) Transition" where
  "Transition_Commit W t =
     (let (objs, s) = Txn_Commit W (EIP155 (t_config t)) (t_state t) in (objs, t\<lparr>t_state := s\<rparr>))"

section \<open>The genesis state\<close>

record GenesisEntry =
  ge_Balance :: "int option"
  ge_Nonce :: uint64
  ge_Code :: "byte list"
  ge_Storage :: "(hash \<times> hash) list"

definition write_account ::
  "('t, 's, 'c) World \<Rightarrow> address \<times> GenesisEntry \<Rightarrow> ('t, 'c) Txn \<Rightarrow> ('t, 'c) Txn" where
  "write_account W e s =
     (let (addr, account) = e;
          s = (case ge_Balance account of Some b \<Rightarrow> AddBalance W addr b s | None \<Rightarrow> s);
          s = (if ge_Nonce account \<noteq> 0 then SetNonce W addr (ge_Nonce account) s else s);
          s = (if ge_Code account \<noteq> [] then SetCode W addr (ge_Code account) s else s)
      in fold (\<lambda>(k, v). Txn_SetState W addr k v) (ge_Storage account) s)"

text \<open>The objects that are committed; \<open>snap\<close> is the initial state.\<close>

definition WriteGenesis ::
  "('t, 's, 'c) World \<Rightarrow> readSnapshot \<Rightarrow> (address \<times> GenesisEntry) list \<Rightarrow> Object list \<times> ('t, 'c) Txn" where
  "WriteGenesis W snap alloc = Txn_Commit W False (fold (write_account W) alloc (newTxn W snap))"

section \<open>Changes without a transaction\<close>

definition SetAccountDirectly ::
  "('t, 's, 'c) World \<Rightarrow> address \<Rightarrow> GenesisEntry \<Rightarrow> ('t, 'c) Transition \<Rightarrow> (bool \<times> ('t, 'c) Transition) go" where
  "SetAccountDirectly W addr account t =
     (if Exist W (t_state t) addr then Some (False, t)
      else do {
        let s = SetCode W addr (ge_Code account) (t_state t);
        let s = fold (\<lambda>(k, v) s. snd (Txn_SetStorage W addr k v (t_config t) s)) (ge_Storage account) s;
        b \<leftarrow> ge_Balance account;
        let s = SetBalance W addr b s;
        Some (True, t\<lparr>t_state := SetNonce W addr (ge_Nonce account) s\<rparr>) })"

definition SetCodeDirectly ::
  "('t, 's, 'c) World \<Rightarrow> address \<Rightarrow> byte list \<Rightarrow> ('t, 'c) Transition \<Rightarrow> bool \<times> ('t, 'c) Transition" where
  "SetCodeDirectly W addr cd t =
     (if \<not> Exist W (t_state t) addr then (False, t) else (True, upd_state (SetCode W addr cd) t))"

definition SetNonPayable :: "bool \<Rightarrow> ('t, 'c) Transition \<Rightarrow> ('t, 'c) Transition" where
  "SetNonPayable b t = t\<lparr>t_ctx := (t_ctx t)\<lparr>NonPayable := b\<rparr>\<rparr>"

record OverrideAccount =
  ov_Nonce :: "uint64 option"
  ov_Code :: "byte list option"
  ov_Balance :: "int option"
  ov_State :: "(hash \<times> hash) list option"
  ov_StateDiff :: "(hash \<times> hash) list option"

fun WithStateOverride ::
  "('t, 's, 'c) World \<Rightarrow> (address \<times> OverrideAccount) list \<Rightarrow> ('t, 'c) Transition \<Rightarrow> bool \<times> ('t, 'c) Transition" where
  "WithStateOverride W [] t = (True, t)"
| "WithStateOverride W ((addr, ov) # rest) t =
     (if ov_State ov \<noteq> None \<and> ov_StateDiff ov \<noteq> None then (False, t)
      else
        let s = t_state t;
            s = (case ov_Nonce ov of Some n \<Rightarrow> SetNonce W addr n s | None \<Rightarrow> s);
            s = (case ov_Balance ov of Some b \<Rightarrow> SetBalance W addr b s | None \<Rightarrow> s);
            s = (case ov_Code ov of Some cd \<Rightarrow> SetCode W addr cd s | None \<Rightarrow> s);
            s = (case ov_State ov of Some st \<Rightarrow> SetFullStorage W addr st s | None \<Rightarrow> s);
            s = (case ov_StateDiff ov of
                   Some st \<Rightarrow> fold (\<lambda>(k, v). Txn_SetState W addr k v) st s | None \<Rightarrow> s)
        in WithStateOverride W rest (t\<lparr>t_state := s\<rparr>))"

end
