(* ===== verification/State_Laws.thy ===== *)
theory State_Laws
  imports State_Txn
begin

text \<open>
  What the operations of the state do, seen through \<open>getStateObject\<close>: the radix tree
  over the snapshot refines a map from addresses to accounts.  The laws of the
  containers are the assumptions of the locale; balances, the total supply and the
  code lengths follow from them.
\<close>

section \<open>The abstract state\<close>

text \<open>Code that can be executed: the interpreter's offsets do not overflow in it.\<close>

definition short :: "byte list \<Rightarrow> bool" where
  "short cd \<longleftrightarrow> length cd < 2 ^ 62"

text \<open>The account at an address, a fresh one if there is none.\<close>

definition object_at :: "('t, 's, 'c, 'x) Lib_scheme \<Rightarrow> ('t, 'c) Txn \<Rightarrow> address \<Rightarrow> 's StateObject" where
  "object_at L t a = (case getStateObject L t a of None \<Rightarrow> new_object | Some o' \<Rightarrow> o')"

text \<open>The sum of all balances.\<close>

definition total_supply :: "('t, 's, 'c, 'x) Lib_scheme \<Rightarrow> ('t, 'c) Txn \<Rightarrow> int" where
  "total_supply L t = (\<Sum>a \<in> UNIV. Txn_GetBalance L t a)"

text \<open>The code a call can load from the state is shorter than \<open>2 ^ 62\<close> bytes.\<close>

definition dirty_ok :: "('t, 's, 'c, 'x) Lib_scheme \<Rightarrow> ('t, 'c) Txn \<Rightarrow> bool" where
  "dirty_ok L t \<longleftrightarrow> (\<forall>a. DirtyCode (object_at L t a) \<longrightarrow> short (ObjCode (object_at L t a)))"

definition code_ok :: "('t, 's, 'c, 'x) Lib_scheme \<Rightarrow> ('t, 'c) Txn \<Rightarrow> bool" where
  "code_ok L t \<longleftrightarrow> (\<forall>h. short (fst (snap_GetCode (snapshot t) h))) \<and>
     (\<forall>cd \<in> cached (cache L) (codeCache t). short cd)"

text \<open>The supply stays below a bound and the code short: what a call has to keep.\<close>

definition state_ok :: "('t, 's, 'c, 'x) Lib_scheme \<Rightarrow> int \<Rightarrow> ('t, 'c) Txn \<Rightarrow> bool" where
  "state_ok L S t \<longleftrightarrow> total_supply L t \<le> S \<and> dirty_ok L t"

lemma short_Nil [simp]: "short []"
  by (simp add: short_def)

section \<open>Copies\<close>

lemma StateObject_Copy_simps [simp]:
  "AccBalance (ObjAccount (StateObject_Copy o')) = \<bar>AccBalance (ObjAccount o')\<bar>"
  "AccNonce (ObjAccount (StateObject_Copy o')) = AccNonce (ObjAccount o')"
  "AccRoot (ObjAccount (StateObject_Copy o')) = AccRoot (ObjAccount o')"
  "AccCodeHash (ObjAccount (StateObject_Copy o')) = AccCodeHash (ObjAccount o')"
  "ObjCode (StateObject_Copy o') = ObjCode o'" "Suicide (StateObject_Copy o') = Suicide o'"
  "Deleted (StateObject_Copy o') = Deleted o'" "DirtyCode (StateObject_Copy o') = DirtyCode o'"
  "ObjTxn (StateObject_Copy o') = ObjTxn o'" "withFakeStorage (StateObject_Copy o') = withFakeStorage o'"
  by (simp_all add: StateObject_Copy_def Account_Copy_def SetBytes_Bytes)

lemma set_balance_simps [simp]:
  "AccBalance (ObjAccount (set_balance f o')) = f (AccBalance (ObjAccount o'))"
  "AccNonce (ObjAccount (set_balance f o')) = AccNonce (ObjAccount o')"
  "AccRoot (ObjAccount (set_balance f o')) = AccRoot (ObjAccount o')"
  "AccCodeHash (ObjAccount (set_balance f o')) = AccCodeHash (ObjAccount o')"
  "ObjCode (set_balance f o') = ObjCode o'" "Suicide (set_balance f o') = Suicide o'"
  "Deleted (set_balance f o') = Deleted o'" "DirtyCode (set_balance f o') = DirtyCode o'"
  "ObjTxn (set_balance f o') = ObjTxn o'"
  by (simp_all add: set_balance_def)

lemma new_object_simps [simp]:
  "AccBalance (ObjAccount new_object) = 0" "AccNonce (ObjAccount new_object) = 0"
  "AccRoot (ObjAccount new_object) = emptyStateHash" "\<not> Deleted new_object" "\<not> DirtyCode new_object"
  "\<not> Suicide new_object" "ObjTxn new_object = None" "\<not> withFakeStorage new_object"
  by (simp_all add: new_object_def)

lemma AccBalance_object_at: "AccBalance (ObjAccount (object_at L t a)) = Txn_GetBalance L t a"
  by (simp add: object_at_def Txn_GetBalance_def split: option.split)

lemma getStateObject_Some:
  assumes "getStateObject L t a = Some o'"
  shows "\<not> Deleted o'" and "0 \<le> AccBalance (ObjAccount o')"
  using assms
  by (auto simp: getStateObject_def Let_def Account_Copy_def split: option.splits sum.splits if_splits)

lemma Deleted_object_at [simp]: "\<not> Deleted (object_at L t a)"
  by (simp add: object_at_def getStateObject_Some(1) split: option.split)

lemma Txn_GetBalance_nonneg [simp]: "0 \<le> Txn_GetBalance L t a"
  by (simp add: Txn_GetBalance_def getStateObject_Some(2) split: option.split)

lemma Txn_GetBalance_le_total_supply: "Txn_GetBalance L t a \<le> total_supply L t"
  unfolding total_supply_def by (rule member_le_sum) simp_all

text \<open>Only the tree and the snapshot matter for the accounts.\<close>

lemma getStateObject_cong:
  assumes "txn t' = txn t" "snapshot t' = snapshot t"
  shows "getStateObject L t' = getStateObject L t"
  unfolding fun_eq_iff getStateObject_def assms by simp

lemma state_ok_cong:
  assumes "txn t' = txn t" "snapshot t' = snapshot t"
  shows "state_ok L S t' = state_ok L S t" and "total_supply L t' = total_supply L t"
  by (simp_all add: state_ok_def total_supply_def dirty_ok_def object_at_def Txn_GetBalance_def
      getStateObject_cong [OF assms])

text \<open>An operation that changes nothing but the tree.\<close>

definition tree_step :: "('t, 'c) Txn \<Rightarrow> ('t, 'c) Txn \<Rightarrow> bool" where
  "tree_step t t' \<longleftrightarrow> snapshot t' = snapshot t \<and> snapshots t' = snapshots t \<and> codeCache t' = codeCache t"

lemma tree_step_refl [simp]: "tree_step t t"
  by (simp add: tree_step_def)

lemma tree_step_trans: "tree_step t t' \<Longrightarrow> tree_step t' t'' \<Longrightarrow> tree_step t t''"
  by (simp add: tree_step_def)

lemma tree_step_upsert [simp]: "tree_step t (upsertAccount L a c f t)"
  by (simp add: tree_step_def upsertAccount_def Let_def split: option.split)

lemma tree_step_ops [simp]:
  "tree_step t (AddBalance L a v t)" "tree_step t (SetBalance L a v t)" "tree_step t (AddSealingReward L a v t)"
  "tree_step t (Txn_EmitLog L a ts d t)" "tree_step t (AddRefund L g t)" "tree_step t (SubRefund L g t)"
  "tree_step t (Txn_SetState L a k w t)" "tree_step t (SetNonce L a n t)" "tree_step t (SetCode L a cd t)"
  "tree_step t (TouchAccount L a t)" "tree_step t (CreateAccount L a t)"
  "tree_step t (snd (SubBalance L a v t))" "tree_step t (snd (IncrNonce L a t))"
  "tree_step t (snd (Txn_Suicide L a t))"
  by (simp_all add: AddBalance_def SetBalance_def AddSealingReward_def Txn_SetState_def SetNonce_def
      SetCode_def TouchAccount_def SubBalance_def IncrNonce_def Txn_Suicide_def Let_def)
    (simp_all add: tree_step_def Txn_EmitLog_def AddRefund_def SubRefund_def CreateAccount_def Let_def)

lemma tree_step_SetStorage [simp]: "tree_step t (snd (Txn_SetStorage L a k v f t))"
proof -
  have "tree_step t (AddRefund L g (SubRefund L h (Txn_SetState L a k v t)))"
    "tree_step t (AddRefund L g (AddRefund L h (Txn_SetState L a k v t)))"
    "tree_step t (AddRefund L g (Txn_SetState L a k v t))"
    "tree_step t (SubRefund L g (Txn_SetState L a k v t))" for g h
    by (meson tree_step_trans tree_step_ops)+
  then show ?thesis by (auto simp: Txn_SetStorage_def Let_def)
qed

text \<open>Looking code up changes nothing but the cache.\<close>

lemma Txn_GetCode_frame [simp]:
  "snapshot (snd (Txn_GetCode L t a)) = snapshot t" "snapshots (snd (Txn_GetCode L t a)) = snapshots t"
  "txn (snd (Txn_GetCode L t a)) = txn t"
  by (simp_all add: Txn_GetCode_def Let_def case_prod_beta split: option.split)

lemma sum_fun_upd:
  fixes f g :: "'a::finite \<Rightarrow> int"
  assumes "\<And>b. b \<noteq> a \<Longrightarrow> f b = g b"
  shows "sum f UNIV = sum g UNIV - g a + f a"
proof -
  have "sum f (UNIV - {a}) = sum g (UNIV - {a})" by (rule sum.cong) (use assms in auto)
  then show ?thesis
    by (simp add: sum.remove [of UNIV a f] sum.remove [of UNIV a g])
qed

section \<open>The operations\<close>

locale state_lib =
  fixes L :: "('t, 's, 'c, 'x) Lib_scheme"
  assumes tree_laws: "radix_laws (tree L)" and storage_laws: "radix_laws (storage L)"
    and cache_laws: "lru_laws (cache L)" and keccak_length: "length (keccak L bs) = 32"

sublocale state_lib \<subseteq> tr: radix_laws "tree L"
  by (rule tree_laws)

sublocale state_lib \<subseteq> st: radix_laws "storage L"
  by (rule storage_laws)

sublocale state_lib \<subseteq> cc: lru_laws "cache L"
  by (rule cache_laws)

context state_lib
begin

lemma getStateObject_Insert:
  "getStateObject L (t\<lparr>txn := radix_Insert (tree L) (txn t) (Address_Bytes a) (StateEntry o')\<rparr>) b =
   (if b = a then (if Deleted o' then None else Some (StateObject_Copy o')) else getStateObject L t b)"
  by (simp add: getStateObject_def tr.Get_Insert Address_Bytes_inject cong: option.case_cong)

lemma getStateObject_other:
  "length k \<noteq> 20 \<Longrightarrow> getStateObject L (t\<lparr>txn := radix_Insert (tree L) (txn t) k v\<rparr>) b = getStateObject L t b"
  "length k \<noteq> 20 \<Longrightarrow> getStateObject L (t\<lparr>txn := radix_Delete (tree L) (txn t) k\<rparr>) b = getStateObject L t b"
  by (auto simp: getStateObject_def tr.Get_Insert tr.Get_Delete cong: option.case_cong)

text \<open>The common case of an update: the callback changes the object it is given.\<close>

lemma getStateObject_upsert:
  assumes "\<not> Deleted (g (object_at L t a))"
  shows "getStateObject L (upsertAccount L a True (map_option g) t) b =
    (if b = a then Some (StateObject_Copy (g (object_at L t a))) else getStateObject L t b)"
  using assms
  by (auto simp: upsertAccount_def object_at_def getStateObject_Insert split: option.splits)

lemma object_at_upsert:
  assumes "\<not> Deleted (g (object_at L t a))"
  shows "object_at L (upsertAccount L a True (map_option g) t) b =
    (if b = a then StateObject_Copy (g (object_at L t a)) else object_at L t b)"
  using assms
  by (simp add: object_at_def [of L "upsertAccount L a True (map_option g) t"] getStateObject_upsert)
    (simp add: object_at_def)

lemma Txn_GetBalance_upsert:
  assumes "\<not> Deleted (g (object_at L t a))"
  shows "Txn_GetBalance L (upsertAccount L a True (map_option g) t) b =
    (if b = a then \<bar>AccBalance (ObjAccount (g (object_at L t a)))\<bar> else Txn_GetBalance L t b)"
  using assms by (simp add: AccBalance_object_at [symmetric] object_at_upsert)

lemma total_supply_upsert:
  assumes "\<not> Deleted (g (object_at L t a))"
  shows "total_supply L (upsertAccount L a True (map_option g) t) =
    total_supply L t - Txn_GetBalance L t a + \<bar>AccBalance (ObjAccount (g (object_at L t a)))\<bar>"
  unfolding total_supply_def using assms
  by (subst sum_fun_upd [where a = a and g = "Txn_GetBalance L t"]) (simp_all add: Txn_GetBalance_upsert)

lemma dirty_ok_upsert:
  assumes "dirty_ok L t" and "\<not> Deleted (g (object_at L t a))"
    and "DirtyCode (g (object_at L t a)) \<Longrightarrow> short (ObjCode (g (object_at L t a)))"
  shows "dirty_ok L (upsertAccount L a True (map_option g) t)"
  using assms by (simp add: dirty_ok_def object_at_upsert)

lemma dirty_okD: "dirty_ok L t \<Longrightarrow> DirtyCode (object_at L t a) \<Longrightarrow> short (ObjCode (object_at L t a))"
  by (simp add: dirty_ok_def)

lemma state_okD: "state_ok L S t \<Longrightarrow> DirtyCode (object_at L t a) \<Longrightarrow> short (ObjCode (object_at L t a))"
  by (simp add: state_ok_def dirty_okD)

text \<open>A change of an account that keeps its balance and its code.\<close>

lemma state_ok_upsert:
  assumes "state_ok L S t" and "\<not> Deleted (g (object_at L t a))"
    and "AccBalance (ObjAccount (g (object_at L t a))) = Txn_GetBalance L t a"
    and "DirtyCode (g (object_at L t a)) \<Longrightarrow> short (ObjCode (g (object_at L t a)))"
  shows "state_ok L S (upsertAccount L a True (map_option g) t)"
  using assms by (simp add: state_ok_def total_supply_upsert dirty_ok_upsert)

lemma state_ok_other:
  "length k \<noteq> 20 \<Longrightarrow>
     state_ok L S (t\<lparr>txn := radix_Insert (tree L) (txn t) k v\<rparr>) = state_ok L S t"
  "length k \<noteq> 20 \<Longrightarrow>
     state_ok L S (t\<lparr>txn := radix_Delete (tree L) (txn t) k\<rparr>) = state_ok L S t"
  by (simp_all add: state_ok_def total_supply_def dirty_ok_def Txn_GetBalance_def object_at_def
      getStateObject_other)

text \<open>Balances.\<close>

lemma Txn_GetBalance_AddBalance:
  assumes "0 \<le> Txn_GetBalance L t a + v"
  shows "Txn_GetBalance L (AddBalance L a v t) b =
    (if b = a then Txn_GetBalance L t a + v else Txn_GetBalance L t b)"
  using assms by (simp add: AddBalance_def Txn_GetBalance_upsert AccBalance_object_at)

lemma total_supply_AddBalance:
  assumes "0 \<le> Txn_GetBalance L t a + v"
  shows "total_supply L (AddBalance L a v t) = total_supply L t + v"
  using assms by (simp add: AddBalance_def total_supply_upsert AccBalance_object_at)

lemma SubBalance_None:
  assumes "SubBalance L a v t = (None, t')"
  shows "total_supply L t' = total_supply L t - v"
    and "Txn_GetBalance L t' b = (if b = a then Txn_GetBalance L t a - v else Txn_GetBalance L t b)"
  using assms
  by (auto simp: SubBalance_def total_supply_upsert Txn_GetBalance_upsert AccBalance_object_at
      split: if_splits)

lemma SubBalance_Some: "SubBalance L a v t = (Some e, t') \<Longrightarrow> t' = t \<and> e = ErrNotEnoughFunds"
  by (auto simp: SubBalance_def split: if_splits)

lemma dirty_ok_ops:
  assumes "dirty_ok L t"
  shows "dirty_ok L (AddBalance L a v t)" and "dirty_ok L (snd (SubBalance L a v t))"
    and "dirty_ok L (upsertAccount L a True (map_option (set_balance f)) t)"
  using assms by (auto simp: AddBalance_def SubBalance_def intro!: dirty_ok_upsert dest: dirty_okD)

text \<open>Everything else an execution does to the state keeps the supply.\<close>

lemma CreateAccount_upsert:
  "CreateAccount L a = upsertAccount L a True (map_option (\<lambda>o'.
     set_balance (\<lambda>_. SetBytes (Bytes (AccBalance (ObjAccount o')))) new_object))"
  by (auto simp: CreateAccount_def upsertAccount_def fun_eq_iff Let_def set_balance_def new_object_def
      SetBytes_Bytes split: option.splits)

lemma TouchAccount_upsert: "TouchAccount L a = upsertAccount L a True (map_option (\<lambda>o'. o'))"
  by (simp add: TouchAccount_def option.map_ident [abs_def] fun_eq_iff)

lemma state_ok_ops:
  assumes "state_ok L S t"
  shows "state_ok L S (Txn_EmitLog L a ts d t)" and "state_ok L S (AddRefund L g t)"
    and "state_ok L S (SubRefund L g t)" and "state_ok L S (Txn_SetState L a k v t)"
    and "state_ok L S (SetNonce L a n t)" and "state_ok L S (TouchAccount L a t)"
    and "state_ok L S (CreateAccount L a t)" and "state_ok L S (snd (IncrNonce L a t))"
    and "short cd \<Longrightarrow> state_ok L S (SetCode L a cd t)"
  using assms
  by (auto simp: Txn_EmitLog_def AddRefund_def SubRefund_def logIndex_def refundIndex_def Let_def
      state_ok_other Txn_SetState_def SetNonce_def TouchAccount_upsert CreateAccount_upsert IncrNonce_def
      SetCode_def set_nonce_def AccBalance_object_at SetBytes_Bytes state_okD intro!: state_ok_upsert
      split: if_splits)

lemma state_ok_SetStorage:
  "state_ok L S t \<Longrightarrow> state_ok L S (snd (Txn_SetStorage L a k v f t))"
  by (simp add: Txn_SetStorage_def Let_def state_ok_ops)

text \<open>Destroying an account takes its balance out of the supply.\<close>

lemma upsert_no_create:
  "upsertAccount L a False (map_option g) t =
   (if getStateObject L t a = None then t else upsertAccount L a True (map_option g) t)"
  by (auto simp: upsertAccount_def split: option.split)

lemma Txn_Suicide_supply:
  "Txn_GetBalance L (snd (Txn_Suicide L a t)) b = (if b = a then 0 else Txn_GetBalance L t b)"
  "total_supply L (snd (Txn_Suicide L a t)) = total_supply L t - Txn_GetBalance L t a"
  by (simp_all add: Txn_Suicide_def upsert_no_create Txn_GetBalance_upsert total_supply_upsert)
    (auto simp: Txn_GetBalance_def)

lemma dirty_ok_Suicide: "dirty_ok L t \<Longrightarrow> dirty_ok L (snd (Txn_Suicide L a t))"
  by (auto simp: Txn_Suicide_def upsert_no_create intro!: dirty_ok_upsert dest: dirty_okD)

text \<open>Code.\<close>

lemma Txn_GetCode_short:
  assumes "dirty_ok L t" and "code_ok L t"
  shows "short (fst (Txn_GetCode L t a))" and "code_ok L (snd (Txn_GetCode L t a))"
proof -
  have dirty: "short (ObjCode o')" if "getStateObject L t a = Some o'" "DirtyCode o'" for o'
    using dirty_okD [OF assms(1), of a] that by (simp add: object_at_def)
  have hit: "short cd" if "fst (lru_Get (cache L) (codeCache t) a) = Some cd" for cd
    using assms(2) cc.cached_mem [OF that] by (simp add: code_ok_def)
  have miss: "short (fst (snap_GetCode (snapshot t) h))" for h
    using assms(2) by (simp add: code_ok_def)
  have add: "short cd" if "cd \<in> cached (cache L) (lru_Add (cache L) (snd (lru_Get (cache L) (codeCache t) a)) a cd')"
    and "short cd'" for cd cd'
    using that assms(2) cc.cached_Add by (fastforce simp: code_ok_def)
  show "short (fst (Txn_GetCode L t a))"
    using dirty hit miss by (auto simp: Txn_GetCode_def Let_def case_prod_beta split: option.split)
  show "code_ok L (snd (Txn_GetCode L t a))"
    using assms(2) add miss
    by (auto simp: Txn_GetCode_def Let_def case_prod_beta code_ok_def split: option.split)
qed

text \<open>A slot holds what was written last.\<close>

lemma Txn_GetState_SetState:
  assumes "\<And>a k. snap_GetStorage (snapshot t) a emptyStateHash k = ZeroHash"
  shows "Txn_GetState L (Txn_SetState L a k v t) a' k' = (if a' = a \<and> k' = k then v else Txn_GetState L t a' k')"
proof -
  have "snapshot (Txn_SetState L a k v t) = snapshot t"
    by (simp add: tree_step_ops(7) [unfolded tree_step_def])
  then show ?thesis
    using assms
    by (auto simp: Txn_GetState_def Txn_SetState_def getStateObject_upsert object_at_def Let_def
        st.Get_Insert st.Get_New Hash_Bytes_inject ZeroHash_def getStateObject_Some split: option.splits)
qed

text \<open>Touching an account shows in no balance, nonce or slot.\<close>

lemma Txn_GetState_object:
  assumes "\<And>a k. snap_GetStorage (snapshot t) a emptyStateHash k = ZeroHash"
  shows "Txn_GetState L t a k =
    (case Option.bind (ObjTxn (object_at L t a)) (\<lambda>s. radix_Get (storage L) s (Hash_Bytes k)) of
       Some None \<Rightarrow> ZeroHash
     | Some (Some val) \<Rightarrow> BytesToHash val
     | None \<Rightarrow> if withFakeStorage (object_at L t a) then ZeroHash
               else snap_GetStorage (snapshot t) a (AccRoot (ObjAccount (object_at L t a))) k)"
  using assms by (simp add: Txn_GetState_def object_at_def split: option.split)

lemma AccNonce_object_at: "AccNonce (ObjAccount (object_at L t a)) = Txn_GetNonce L t a"
  by (simp add: object_at_def Txn_GetNonce_def split: option.split)

lemma TouchAccount_observed:
  "Txn_GetBalance L (TouchAccount L a t) b = Txn_GetBalance L t b"
  "Txn_GetNonce L (TouchAccount L a t) b = Txn_GetNonce L t b"
  "(\<And>a k. snap_GetStorage (snapshot t) a emptyStateHash k = ZeroHash) \<Longrightarrow>
     Txn_GetState L (TouchAccount L a t) b k = Txn_GetState L t b k"
proof -
  show "Txn_GetBalance L (TouchAccount L a t) b = Txn_GetBalance L t b"
    by (simp add: TouchAccount_upsert Txn_GetBalance_upsert AccBalance_object_at)
  show "Txn_GetNonce L (TouchAccount L a t) b = Txn_GetNonce L t b"
    by (simp add: TouchAccount_upsert AccNonce_object_at [symmetric] object_at_upsert)
  assume e: "\<And>a k. snap_GetStorage (snapshot t) a emptyStateHash k = ZeroHash"
  have snap: "snapshot (TouchAccount L a t) = snapshot t" by (simp add: tree_step_ops(10) [unfolded tree_step_def])
  have same: "ObjTxn (object_at L (TouchAccount L a t) b) = ObjTxn (object_at L t b)"
      "withFakeStorage (object_at L (TouchAccount L a t) b) = withFakeStorage (object_at L t b)"
      "AccRoot (ObjAccount (object_at L (TouchAccount L a t) b)) = AccRoot (ObjAccount (object_at L t b))"
    by (simp_all add: TouchAccount_upsert object_at_upsert)
  have "Txn_GetState L t b k = (case Option.bind (ObjTxn (object_at L t b)) (\<lambda>s. radix_Get (storage L) s (Hash_Bytes k)) of
       Some None \<Rightarrow> ZeroHash
     | Some (Some val) \<Rightarrow> BytesToHash val
     | None \<Rightarrow> if withFakeStorage (object_at L t b) then ZeroHash
               else snap_GetStorage (snapshot t) b (AccRoot (ObjAccount (object_at L t b))) k)"
    using e by (rule Txn_GetState_object)
  with e show "Txn_GetState L (TouchAccount L a t) b k = Txn_GetState L t b k"
    by (subst Txn_GetState_object) (simp_all only: snap same)
qed

end

lemma observed_cong:
  assumes "txn t' = txn t" "snapshot t' = snapshot t"
  shows "Txn_GetBalance L t' a = Txn_GetBalance L t a" and "Txn_GetNonce L t' a = Txn_GetNonce L t a"
    and "Txn_GetState L t' a k = Txn_GetState L t a k"
  by (simp_all only: Txn_GetBalance_def Txn_GetNonce_def Txn_GetState_def getStateObject_cong [OF assms] assms(2))

end
