(* ===== verification/Precompiled_Safety.thy ===== *)
theory Precompiled_Safety
  imports Precompiled EVM_Host_Safety
begin

text \<open>
  A precompiled contract never panics, returns no more gas than it was given and a
  short result, whatever its input, provided that the cryptographic packages keep
  their documented promises.
\<close>

section \<open>What the contracts rely on\<close>

locale prims_laws =
  fixes P :: Prims
  assumes keccak256_length: "length (keccak256 P bs) = 32"
    and ripemd160_length: "length (ripemd160_Sum P bs) = 20"
    and recover_key: "RecoverCompact P sig h = Some key \<Longrightarrow> key \<noteq> []"
    and bn_Add_length: "bn_Add P a b = Some c \<Longrightarrow> length c = 64"
    and bn_ScalarMult_length: "bn_ScalarMult P a k = Some c \<Longrightarrow> length c = 64"
    and abiBool_length: "length (abiBoolTrue P) = 32" "length (abiBoolFalse P) = 32"

section \<open>Reading the input\<close>

lemma p_get_Some:
  assumes "0 \<le> n"
  obtains a b where "p_get input n = Some (a, b)" and "length a = nat n"
  using assms by (simp add: p_get_def Let_def)

lemma p_getUint64_get:
  assumes "p_get input 32 = Some (a, b)"
  shows "p_getUint64 input = Some (word_of_int (SetBytes a), b)"
proof -
  have len: "length a = 32" using assms by (auto simp: p_get_def Let_def)
  then have "SetBytes (drop 24 a) = SetBytes a mod 256 ^ 8"
    using SetBytes_drop_mod [of 8 a] by simp
  moreover have "(word_of_int (x mod 256 ^ 8) :: uint64) = word_of_int x" for x
    using word_of_int_mod_2p [where 'a = 64, of x] by simp
  ultimately show ?thesis using assms len by (simp add: p_getUint64_def)
qed

lemma length_nat_Bytes: "n < 256 ^ k \<Longrightarrow> length (nat_Bytes n) \<le> k"
proof (induction n arbitrary: k rule: nat_Bytes.induct)
  case (1 n)
  show ?case
  proof (cases "n = 0")
    case False
    with 1(2) obtain k' where k: "k = Suc k'" by (cases k) auto
    have "n div 256 < 256 ^ k'" using 1(2) by (simp add: k less_mult_imp_div_less mult.commute)
    with 1(1) False k show ?thesis by (simp add: nat_Bytes.simps [of n])
  qed (simp add: nat_Bytes.simps)
qed

lemma length_Bytes: "0 \<le> x \<Longrightarrow> x < 256 ^ k \<Longrightarrow> length (Bytes x) \<le> k"
  by (simp add: Bytes_def length_nat_Bytes nat_less_iff)

lemma length_leftPad: "length (leftPad b n) = max (length b) (nat n)"
  by (auto simp: leftPad_def)

section \<open>Modular exponentiation\<close>

lemma multComplexity_lower:
  assumes "0 \<le> x"
  shows "x * x div 16 \<le> multComplexity x" and "0 < x \<Longrightarrow> 1 \<le> multComplexity x"
proof -
  have div: "x * x div 16 \<le> x * x div 4" "x * x div 16 \<le> x * x" "0 \<le> x * x div 16"
    using zdiv_mono2 [of "x * x" 4 16] zdiv_mono2 [of "x * x" 1 16]
    by (simp_all add: pos_imp_zdiv_nonneg_iff)
  consider "x \<le> 64" | "64 < x" "x \<le> 1024" | "1024 < x" by linarith
  then have "x * x div 16 \<le> multComplexity x \<and> (0 < x \<longrightarrow> 1 \<le> multComplexity x)"
  proof cases
    case 1
    have "1 * 1 \<le> x * x" if "0 < x" using that by (intro mult_mono) auto
    with 1 div show ?thesis by (simp add: multComplexity_def)
  next
    case 2
    have "multComplexity x = x * 96 - 3072 + x * x div 4"
      using 2 by (simp add: multComplexity_def subMul_def big_Div_def)
    with 2 div show ?thesis by linarith
  next
    case 3
    have "multComplexity x = x * 480 - 199680 + x * x div 16"
      using 3 by (simp add: multComplexity_def subMul_def big_Div_def)
    with 3 div show ?thesis by linarith
  qed
  then show "x * x div 16 \<le> multComplexity x" and "0 < x \<Longrightarrow> 1 \<le> multComplexity x" by simp_all
qed

lemma adjustedExponentLength_lower: "(e - 32) * 8 \<le> adjustedExponentLength e h"
proof -
  have "1 \<le> BitLen h" if "h \<noteq> 0" using that by (cases "BitLen h") auto
  then show ?thesis by (auto simp: adjustedExponentLength_def Let_def)
qed

lemma sint_small: "0 \<le> x \<Longrightarrow> x < 2 ^ 63 \<Longrightarrow> sint (word_of_int x :: uint64) = x"
  by (simp add: sint_uint unsigned_of_int take_bit_int_eq_self signed_take_bit_int_eq_self)

text \<open>The price, as a function of the three lengths and the head of the exponent.\<close>

definition modExp_price :: "int \<Rightarrow> int \<Rightarrow> int \<Rightarrow> int \<Rightarrow> uint64" where
  "modExp_price b e m h =
     (let c = multComplexity (max b m) * max 1 (adjustedExponentLength e h) div 20
      in if IsUint64 c then Uint64 c else - 1)"

lemma modExp_gas_price:
  assumes "p_get input 32 = Some (b, i1)" "p_get i1 32 = Some (e, i2)" "p_get i2 32 = Some (m, i3)"
  shows "\<exists>h. modExp_gas input = Some (modExp_price (SetBytes b) (SetBytes e) (SetBytes m) h)"
proof -
  let ?n = "if SetBytes e < 32 then Uint64 (SetBytes e) else 32"
  have "0 \<le> sint ?n" using sint_small [of "SetBytes e"] by (simp add: Uint64_def)
  then have "\<exists>a b. p_get i (sint ?n) = Some (a, b)" for i using p_get_Some by metis
  then obtain hd tl where "\<And>i. p_get i (sint ?n) = Some (hd i, tl i)" by metis
  moreover have "(if b \<le> m then m else b) = max b m" "(if 1 \<le> a then a else 1) = max 1 a" for a b m :: int
    by simp_all
  ultimately show ?thesis using assms
    by (simp add: modExp_gas_def modExp_price_def Let_def big_Div_def del: One_nat_def) blast
qed

text \<open>An affordable price bounds the lengths.\<close>

lemma modExp_price_bounds:
  assumes "0 \<le> b" "0 \<le> m" "unat (modExp_price b e m h) < gas_cap"
  shows "max b m < 2 ^ 61" and "max b m \<noteq> 0 \<Longrightarrow> e < 2 ^ 63"
proof -
  define a where "a = max 1 (adjustedExponentLength e h)"
  define x where "x = max b m"
  define c where "c = multComplexity x * a div 20"
  have x: "0 \<le> x" using assms by (simp add: x_def)
  have a: "1 \<le> a" "(e - 32) * 8 \<le> a" using adjustedExponentLength_lower [of e h] by (auto simp: a_def)
  have mult: "0 \<le> multComplexity x" "x * x div 16 \<le> multComplexity x"
    using multComplexity_lower(1) [OF x] pos_imp_zdiv_nonneg_iff [of 16 "x * x"]
    by (simp_all, linarith?)
  have c0: "0 \<le> c" using mult a by (simp add: c_def pos_imp_zdiv_nonneg_iff)
  have small: "c < 2 ^ 61"
  proof (cases "IsUint64 c")
    case True
    then show ?thesis using assms(3) c0
      by (simp add: modExp_price_def Let_def flip: c_def x_def a_def) (simp add: unat_Uint64 nat_less_iff)
  next
    case False
    then show ?thesis using assms(3)
      by (simp add: modExp_price_def Let_def unsigned_minus_1_eq_mask mask_eq_exp_minus_1 flip: c_def x_def a_def)
  qed
  have prod: "multComplexity x * a < 20 * 2 ^ 61" using small by (simp add: c_def)
  show "max b m < 2 ^ 61"
  proof (rule ccontr)
    assume "\<not> max b m < 2 ^ 61"
    then have "2 ^ 61 * 2 ^ 61 \<le> x * x" by (intro mult_mono) (auto simp: x_def)
    then have "2 ^ 118 \<le> x * x div 16" by simp
    then have "2 ^ 118 * 1 \<le> multComplexity x * a" using mult a by (intro mult_mono) auto
    with prod show False by simp
  qed
  assume "max b m \<noteq> 0"
  then have "1 \<le> multComplexity x" using multComplexity_lower(2) [OF x] x by (simp add: x_def)
  then have "1 * a \<le> multComplexity x * a" using a by (intro mult_mono) auto
  with prod a(2) show "e < 2 ^ 63" by simp
qed

lemma modExp_run_safe:
  assumes "modExp_gas input = Some g" and "unat g < gas_cap"
  shows "\<exists>r. modExp_run input = Some r \<and> length r < 2 ^ 62"
proof -
  obtain b i1 where b: "p_get input 32 = Some (b, i1)" by (rule p_get_Some [of 32]) auto
  obtain e i2 where e: "p_get i1 32 = Some (e, i2)" by (rule p_get_Some [of 32]) auto
  obtain m i3 where m: "p_get i2 32 = Some (m, i3)" by (rule p_get_Some [of 32]) auto
  let ?B = "SetBytes b" and ?E = "SetBytes e" and ?M = "SetBytes m"
  obtain h where "g = modExp_price ?B ?E ?M h" using modExp_gas_price [OF b e m] assms(1) by auto
  with assms(2) have bnd: "max ?B ?M < 2 ^ 61" "max ?B ?M \<noteq> 0 \<Longrightarrow> ?E < 2 ^ 63"
    using modExp_price_bounds [of ?B ?M ?E h] by simp_all
  have len: "sint (word_of_int ?B :: uint64) = ?B" "sint (word_of_int ?M :: uint64) = ?M"
    using bnd(1) sint_small [of ?B] sint_small [of ?M] by simp_all
  note get = p_getUint64_get [OF b] p_getUint64_get [OF e] p_getUint64_get [OF m]
  show ?thesis
  proof (cases "max ?B ?M = 0")
    case True
    then have "?B = 0" "?M = 0" using SetBytes_nonneg [of b] SetBytes_nonneg [of m] by linarith+
    then show ?thesis by (simp add: modExp_run_def get)
  next
    case False
    have E: "sint (word_of_int ?E :: uint64) = ?E" using bnd(2) [OF False] sint_small [of ?E] by simp
    obtain v1 j1 where v1: "p_get i3 ?B = Some (v1, j1)" by (rule p_get_Some [of ?B]) auto
    obtain v2 j2 where v2: "p_get j1 ?E = Some (v2, j2)" by (rule p_get_Some [of ?E]) auto
    obtain v3 j3 where v3: "p_get j2 ?M = Some (v3, j3)" "length v3 = nat ?M" by (rule p_get_Some [of ?M]) auto
    have "length (Bytes (x mod SetBytes v3)) \<le> nat ?M" if "SetBytes v3 \<noteq> 0" for x
    proof (rule length_Bytes)
      have pos: "0 < SetBytes v3" using that SetBytes_nonneg [of v3] by linarith
      then show "0 \<le> x mod SetBytes v3" by simp
      have "x mod SetBytes v3 < SetBytes v3" using pos by simp
      also have "\<dots> < 256 ^ nat ?M" using SetBytes_less [of v3] v3(2) by simp
      finally show "x mod SetBytes v3 < 256 ^ nat ?M" .
    qed
    then have "length (if SetBytes v3 \<noteq> 0 then Bytes (x mod SetBytes v3) else []) \<le> nat ?M" for x by simp
    moreover have "nat ?M < 2 ^ 62" using bnd(1) by (simp add: nat_less_iff)
    ultimately have "length (leftPad (if SetBytes v3 \<noteq> 0 then Bytes (x mod SetBytes v3) else []) ?M) < 2 ^ 62" for x
      unfolding length_leftPad by (simp only: max_less_iff_conj) (meson le_less_trans)
    moreover have "modExp_run input =
        Some (leftPad (if SetBytes v3 \<noteq> 0 then Bytes (SetBytes v1 ^ nat (SetBytes v2) mod SetBytes v3) else []) ?M)"
      if "\<not> (word_of_int ?B = (0 :: uint64) \<and> word_of_int ?M = (0 :: uint64))"
      using v1 v2 v3 len E that by (auto simp: modExp_run_def get Let_def)
    moreover have "modExp_run input = Some []" if "word_of_int ?B = (0 :: uint64) \<and> word_of_int ?M = (0 :: uint64)"
      using that by (simp add: modExp_run_def get)
    ultimately show ?thesis by (metis length_0_conv zero_less_numeral zero_less_power)
  qed
qed

section \<open>Every contract\<close>

lemma pairing_points_Some: "\<exists>ps. pairing_points n input = Some ps"
proof (induction n arbitrary: input)
  case (Suc n)
  obtain a i where "p_get input 64 = Some (a, i)" by (rule p_get_Some [of 64]) auto
  moreover obtain b j where "p_get i 128 = Some (b, j)" by (rule p_get_Some [of 128]) auto
  moreover obtain ps where "pairing_points n j = Some ps" using Suc by blast
  ultimately show ?case by simp
qed simp

lemma length_blake_F: "length (blake_F h m c f r) = 8"
  by (simp add: blake_F_def Let_def)

lemma length_blake2f_run: "blake2f_run input = Inr r \<Longrightarrow> length r = 64"
  by (auto simp: blake2f_run_def Let_def length_concat_const [where n = 8] put_le_uint64_def length_blake_F
      split: if_splits)

context prims_laws
begin

lemma ecrecover_safe: "\<exists>r e. ecrecover_run P input = Some (r, e) \<and> length r \<le> 32"
proof -
  obtain a i where a: "p_get input 128 = Some (a, i)" by (rule p_get_Some [of 128]) auto
  have "\<exists>b. ValidateSignatureValues (Some v) (Some r) (Some s) False = Some b" for v r s
    by (cases "r < 1 \<or> s < 1"; cases "v < 0 \<or> 1 < v") (auto simp: ValidateSignatureValues_def)
  then obtain valid where valid: "\<And>v r s. ValidateSignatureValues (Some v) (Some r) (Some s) False = Some (valid v r s)"
    by metis
  have key: "key \<noteq> []" if "Ecrecover P h sig = Some key" for h sig key
    using that recover_key by (auto simp: Ecrecover_def RecoverPubkey_def split: if_splits)
  show ?thesis
    using key by (simp add: ecrecover_run_def a Let_def valid keccak256_length length_leftPad split: option.split)
qed

lemma precompile_gas_Some: "\<exists>g. precompile_gas p input f = Some g"
proof -
  obtain b i1 where b: "p_get input 32 = Some (b, i1)" by (rule p_get_Some [of 32]) auto
  obtain e i2 where e: "p_get i1 32 = Some (e, i2)" by (rule p_get_Some [of 32]) auto
  obtain m i3 where m: "p_get i2 32 = Some (m, i3)" by (rule p_get_Some [of 32]) auto
  show ?thesis using modExp_gas_price [OF b e m] by (cases p) (auto simp: precompile_gas_def)
qed

lemma precompile_run_safe:
  assumes "length input < 2 ^ 62" and "precompile_gas p input f = Some g" and "unat g < gas_cap"
    and "J h" and "\<And>from to v. 0 \<le> v \<Longrightarrow> v < 2 ^ 256 \<Longrightarrow> J (snd (transfer h from to (Some v)))"
  shows "\<exists>r e h'. precompile_run P transfer p input caller h = Some ((r, e), h') \<and> J h' \<and> length r < 2 ^ 62"
proof (cases p)
  case ecrecover
  then show ?thesis using ecrecover_safe [of input] assms(4) by (auto simp: precompile_run_def)
next
  case modExp
  then show ?thesis using modExp_run_safe [of input g] assms by (auto simp: precompile_run_def precompile_gas_def)
next
  case bn256Add
  obtain a i where "p_get input 64 = Some (a, i)" by (rule p_get_Some [of 64]) auto
  moreover obtain b j where "p_get i 64 = Some (b, j)" by (rule p_get_Some [of 64]) auto
  ultimately show ?thesis using bn256Add assms(4) bn_Add_length
    by (auto simp: precompile_run_def bn256Add_run_def split: option.split)
next
  case bn256Mul
  obtain a i where "p_get input 64 = Some (a, i)" by (rule p_get_Some [of 64]) auto
  moreover obtain b j where "p_get i 32 = Some (b, j)" by (rule p_get_Some [of 32]) auto
  ultimately show ?thesis using bn256Mul assms(4) bn_ScalarMult_length
    by (auto simp: precompile_run_def bn256Mul_run_def split: option.split)
next
  case bn256Pairing
  obtain ps where "pairing_points (length input div 192) input = Some ps" using pairing_points_Some by blast
  then show ?thesis using bn256Pairing assms(4) abiBool_length
    by (auto simp: precompile_run_def bn256Pairing_run_def split: option.split)
next
  case blake2f
  then show ?thesis using assms(4) length_blake2f_run [of input]
    by (auto simp: precompile_run_def blake2f_contract_run_def split: sum.split blake_error.split)
next
  case nativeTransfer
  have "0 \<le> SetBytes (take 32 bs)" "SetBytes (take 32 bs) < 2 ^ 256" for bs
    using SetBytes_less [of "take 32 bs"] power_increasing [of "length (take 32 bs)" 32 "256 :: int"] by auto
  moreover obtain e h' where e: "transfer h (BytesToAddress (take 32 input))
      (BytesToAddress (take 32 (drop 32 input))) (Some (SetBytes (take 32 (drop 64 input)))) = (e, h')"
    by fastforce
  ultimately have "J h'" using assms(5) by (metis snd_conv)
  then show ?thesis using nativeTransfer assms(4) e abiBool_length
    by (auto simp: precompile_run_def nativeTransfer_run_def Let_def split: option.split)
qed (use assms abiBool_length ripemd160_length in \<open>auto simp: precompile_run_def ripemd160h_run_def leftPad_def
      blsAggSignsVerification_run_def split: option.split\<close>)

lemma Precompiled_Run_safe:
  assumes "Precompiled_CanRun c f" and "contract_ok c" and "unat (Gas c) < gas_cap" and "J h"
    and "\<And>from to v. 0 \<le> v \<Longrightarrow> v < 2 ^ 256 \<Longrightarrow> J (snd (transfer h from to (Some v)))"
  shows "\<exists>r h'. Precompiled_Run P transfer c h f = Some (r, h') \<and> J h' \<and> GasLeft r \<le> Gas c \<and>
    length (ReturnValue r) < 2 ^ 62"
proof -
  obtain p where p: "precompile_contracts (CodeAddress c) = Some p"
    using assms(1) by (auto simp: Precompiled_CanRun_def split: if_splits)
  obtain g where g: "precompile_gas p (Input c) f = Some g" using precompile_gas_Some by blast
  show ?thesis
  proof (cases "Gas c < g")
    case True
    then show ?thesis using p g assms(4) by (simp add: Precompiled_Run_def no_result_def)
  next
    case False
    then have "unat g < gas_cap" using assms(3) by (simp add: word_less_nat_alt)
    then obtain r e h' where "precompile_run P transfer p (Input c) (Caller c) h = Some ((r, e), h')"
      "J h'" "length r < 2 ^ 62"
      using precompile_run_safe [where J = J and h = h and transfer = transfer and caller = "Caller c", OF _ g _ assms(4,5)] assms(2) by (auto simp: contract_ok_def)
    then show ?thesis using p g False word_sub_le [of g "Gas c"]
      by (auto simp: Precompiled_Run_def no_result_def)
  qed
qed

end

end
