(* ===== verification/Transition_Safety.thy ===== *)
theory Transition_Safety
  imports Executor State_Laws Precompiled_Safety EVM_Run_Safety "HOL-Library.Sublist"
begin

text \<open>
  The transition keeps the promises the interpreter needs of its host, at every call
  depth: calls return, never create money, and never give back more gas than they
  were given.
\<close>

section \<open>The invariant of a transition during a call\<close>

text \<open>
  During a call that started at \<open>t0\<close> only the state changes, and of the state only the
  tree, the code cache and the list of snapshots, which grows.
\<close>

definition frame :: "('t, 'c) Transition \<Rightarrow> ('t, 'c) Transition \<Rightarrow> bool" where
  "frame t0 t \<longleftrightarrow> t\<lparr>t_state := t_state t0\<rparr> = t0 \<and> snapshot (t_state t) = snapshot (t_state t0) \<and>
     prefix (snapshots (t_state t0)) (snapshots (t_state t))"

text \<open>The trees a revert during the call can go reverted to.\<close>

definition new_snapshots :: "('t, 'c) Transition \<Rightarrow> ('t, 'c) Transition \<Rightarrow> 't list" where
  "new_snapshots t0 t = drop (length (snapshots (t_state t0))) (snapshots (t_state t))"

definition trans_inv ::
  "('t, 's, 'c) World \<Rightarrow> int \<Rightarrow> ('t, 'c) Transition \<Rightarrow> ('t, 'c) Transition \<Rightarrow> bool" where
  "trans_inv W S t0 t \<longleftrightarrow> frame t0 t \<and> context_ok (t_ctx t) \<and> code_ok W (t_state t) \<and>
     state_ok W S (t_state t) \<and> (\<forall>x \<in> set (new_snapshots t0 t). state_ok W S ((t_state t)\<lparr>txn := x\<rparr>))"

lemma frame_refl [simp]: "frame t t"
  by (simp add: frame_def)

lemma frame_trans: "frame t0 t1 \<Longrightarrow> frame t1 t2 \<Longrightarrow> frame t0 t2"
  unfolding frame_def
  by (metis (no_types, lifting) Transition.surjective Transition.update_convs(2) prefix_order.trans)

text \<open>A step that changes only the tree.\<close>

lemma trans_inv_tree:
  assumes "trans_inv W S t0 t" and "tree_step (t_state t) s" and "state_ok W S s"
  shows "trans_inv W S t0 (t\<lparr>t_state := s\<rparr>)"
proof -
  have "state_ok W S (s\<lparr>txn := x\<rparr>) = state_ok W S ((t_state t)\<lparr>txn := x\<rparr>)" for x
    using assms(2) by (intro state_ok_cong) (simp_all add: tree_step_def)
  then show ?thesis
    using assms by (auto simp: trans_inv_def frame_def tree_step_def code_ok_def new_snapshots_def)
qed

lemma trans_inv_upd:
  "trans_inv W S t0 t \<Longrightarrow> tree_step (t_state t) (f (t_state t)) \<Longrightarrow> state_ok W S (f (t_state t)) \<Longrightarrow>
   trans_inv W S t0 (upd_state f t)"
  by (simp add: upd_state_def trans_inv_tree)

text \<open>A step that changes only the code cache.\<close>

lemma trans_inv_cache:
  assumes "trans_inv W S t0 t" and "snapshot s = snapshot (t_state t)" and "snapshots s = snapshots (t_state t)"
    and "txn s = txn (t_state t)" and "code_ok W s"
  shows "trans_inv W S t0 (t\<lparr>t_state := s\<rparr>)"
proof -
  have "state_ok W S (s\<lparr>txn := x\<rparr>) = state_ok W S ((t_state t)\<lparr>txn := x\<rparr>)" for x
    using assms(2) by (intro state_ok_cong) simp_all
  moreover have "state_ok W S s = state_ok W S (t_state t)" using assms(2,4) by (rule state_ok_cong [rotated])
  ultimately show ?thesis
    using assms by (auto simp: trans_inv_def frame_def new_snapshots_def)
qed

lemma new_snapshots_trans:
  assumes "frame t0 t1" and "frame t1 t2"
  shows "new_snapshots t0 t2 = new_snapshots t0 t1 @ new_snapshots t1 t2"
  using assms by (auto simp: frame_def new_snapshots_def prefix_def)

text \<open>Taking a snapshot, and what holds when the call that took it has returned.\<close>

lemma trans_inv_nested:
  assumes "trans_inv W S t0 t" and "snapshots s = snapshots (t_state t) @ [txn (t_state t)]"
    and "snapshot s = snapshot (t_state t)" and "trans_inv W S (t\<lparr>t_state := s\<rparr>) t'"
  shows "trans_inv W S t0 t'"
proof -
  have f: "frame t (t\<lparr>t_state := s\<rparr>)" using assms(2,3) by (simp add: frame_def)
  have f': "frame (t\<lparr>t_state := s\<rparr>) t'" and f0: "frame t0 t" using assms(1,4) by (simp_all add: trans_inv_def)
  have "new_snapshots t0 t' = new_snapshots t0 t @ [txn (t_state t)] @ new_snapshots (t\<lparr>t_state := s\<rparr>) t'"
    using new_snapshots_trans [OF f0 frame_trans [OF f f']] new_snapshots_trans [OF f f'] assms(2)
    by (simp add: new_snapshots_def)
  moreover have "state_ok W S ((t_state t')\<lparr>txn := x\<rparr>) = state_ok W S ((t_state t)\<lparr>txn := x\<rparr>)" for x
    using f' assms(3) by (intro state_ok_cong) (simp_all add: frame_def)
  moreover have "frame t0 t'" using f0 f f' by (meson frame_trans)
  ultimately show ?thesis using assms(1,4) by (auto simp: trans_inv_def)
qed

text \<open>What a run hands reverted.\<close>

definition run_ok ::
  "('t, 's, 'c) World \<Rightarrow> int \<Rightarrow> ('t, 'c) Transition \<Rightarrow> Contract \<Rightarrow>
   (ExecutionResult \<times> ('t, 'c) Transition) go \<Rightarrow> bool" where
  "run_ok W S t0 c m \<longleftrightarrow>
     (\<exists>r t. m = Some (r, t) \<and> trans_inv W S t0 t \<and> GasLeft r \<le> Gas c \<and> length (ReturnValue r) < 2 ^ 62)"

section \<open>The steps of a transition\<close>

locale world =
  fixes W :: "('t, 's, 'c) World"
  assumes lib: "state_lib W" and prims_ok: "prims_laws (prims W)"

sublocale world \<subseteq> sl: state_lib W
  by (rule lib)

sublocale world \<subseteq> pl: prims_laws "prims W"
  by (rule prims_ok)

text \<open>The storage of the transition keeps the law the address lists need.\<close>

definition empty_root_ok :: "('t, 'c) Transition \<Rightarrow> bool" where
  "empty_root_ok t \<longleftrightarrow> (\<forall>a k. snap_GetStorage (snapshot (t_state t)) a emptyStateHash k = ZeroHash)"

sublocale world \<subseteq> rs: role_store "transition_ref W" empty_root_ok
proof
  fix t :: "('t, 'c) Transition" and a a' k k' v
  assume ok: "empty_root_ok t"
  then show "ref_GetStorage (transition_ref W) (ref_SetState (transition_ref W) t a k v) a' k' =
      (if a' = a \<and> k' = k then v else ref_GetStorage (transition_ref W) t a' k')"
    by (simp add: transition_ref_def upd_state_def empty_root_ok_def sl.Txn_GetState_SetState)
  show "empty_root_ok (ref_SetState (transition_ref W) t a k v)"
    using ok by (simp add: transition_ref_def upd_state_def empty_root_ok_def
        tree_step_ops(7) [unfolded tree_step_def])
qed

context world
begin

text \<open>A transfer moves money and creates none.\<close>

lemma Transition_Transfer_cases:
  assumes "0 \<le> v"
  shows "\<exists>e s. Transition_Transfer W t from to (Some v) = (e, t\<lparr>t_state := s\<rparr>) \<and> tree_step (t_state t) s \<and>
    total_supply W s = total_supply W (t_state t) \<and> (dirty_ok W (t_state t) \<longrightarrow> dirty_ok W s)"
proof (cases "SubBalance W from v (t_state t)")
  case (Pair e s)
  show ?thesis
  proof (cases e)
    case None
    have s: "tree_step (t_state t) s" "total_supply W s = total_supply W (t_state t) - v"
      using Pair None tree_step_ops(12) [of "t_state t" W "from" v] sl.SubBalance_None(1) by force+
    have "dirty_ok W s" if "dirty_ok W (t_state t)" using sl.dirty_ok_ops(2) [OF that, of "from" v] Pair by simp
    then show ?thesis
      using Pair None s assms
      by (auto simp: Transition_Transfer_def sl.total_supply_AddBalance sl.dirty_ok_ops
          intro: tree_step_trans [OF s(1) tree_step_ops(1)])
  next
    case (Some x)
    then have "s = t_state t" using Pair sl.SubBalance_Some by blast
    then show ?thesis using Pair Some
      by (auto simp: Transition_Transfer_def intro!: exI [of _ "t_state t"])
  qed
qed

lemma Transition_Transfer_inv:
  assumes "trans_inv W S t0 t" and "\<And>v. amount = Some v \<Longrightarrow> 0 \<le> v"
  shows "trans_inv W S t0 (snd (Transition_Transfer W t from to amount))"
proof (cases amount)
  case None
  then show ?thesis using assms(1) by (simp add: Transition_Transfer_def)
next
  case (Some v)
  with assms(2) have "0 \<le> v" by simp
  from Transition_Transfer_cases [OF this, of t "from" to] obtain e s where
    "Transition_Transfer W t from to (Some v) = (e, t\<lparr>t_state := s\<rparr>)" "tree_step (t_state t) s"
    "total_supply W s = total_supply W (t_state t)" "dirty_ok W (t_state t) \<longrightarrow> dirty_ok W s"
    by blast
  then show ?thesis using assms(1) Some trans_inv_tree [OF assms(1)]
    by (simp add: trans_inv_def state_ok_def)
qed

lemma Transition_Selfdestruct_inv:
  assumes "trans_inv W S t0 t"
  shows "trans_inv W S t0 (Transition_Selfdestruct W t a b)"
proof -
  define s where "s = (if \<not> HasSuicided W (t_state t) a then AddRefund W 24000 (t_state t) else t_state t)"
  define s' where "s' = AddBalance W b (Txn_GetBalance W s a) s"
  have s: "tree_step (t_state t) s" "state_ok W S s"
    using assms sl.state_ok_ops(2) by (auto simp: s_def trans_inv_def)
  have "total_supply W s' = total_supply W s + Txn_GetBalance W s a"
      "Txn_GetBalance W s a \<le> Txn_GetBalance W s' a"
    by (simp_all add: s'_def sl.total_supply_AddBalance sl.Txn_GetBalance_AddBalance)
  then have "state_ok W S (snd (Txn_Suicide W a s'))"
    using s(2) sl.dirty_ok_Suicide sl.dirty_ok_ops(1) by (simp add: state_ok_def sl.Txn_Suicide_supply s'_def)
  moreover have "tree_step (t_state t) (snd (Txn_Suicide W a s'))"
    unfolding s'_def by (meson s(1) tree_step_trans tree_step_ops)
  ultimately show ?thesis
    using trans_inv_tree [OF assms] by (simp add: Transition_Selfdestruct_def Let_def flip: s_def s'_def)
qed

lemma Txn_GetCode_inv:
  assumes "trans_inv W S t0 t"
  shows "trans_inv W S t0 (t\<lparr>t_state := snd (Txn_GetCode W (t_state t) a)\<rparr>)"
    and "short (fst (Txn_GetCode W (t_state t) a))"
proof -
  have "dirty_ok W (t_state t)" "code_ok W (t_state t)"
    using assms by (simp_all add: trans_inv_def state_ok_def)
  note short = sl.Txn_GetCode_short [OF this, of a]
  show "trans_inv W S t0 (t\<lparr>t_state := snd (Txn_GetCode W (t_state t) a)\<rparr>)"
    using short(2) by (intro trans_inv_cache [OF assms]) simp_all
  show "short (fst (Txn_GetCode W (t_state t) a))" by (rule short(1))
qed

lemma AddressList_Run_inv:
  assumes "trans_inv W S t0 t" and "AddressList_Run A (transition_ref W) l c t = (r, t')"
  shows "trans_inv W S t0 t'" and "GasLeft r \<le> Gas c" and "length (ReturnValue r) < 2 ^ 62"
proof -
  obtain ret used e where run: "runInputCall A (transition_ref W) l (Caller c) (Input c) (Gas c) (Static c) t =
      ((ret, used, e), t')" and r: "r = no_result\<lparr>ReturnValue := ret, GasUsed := used, GasLeft := Gas c - used, Err := e\<rparr>"
    using assms(2) by (auto simp: AddressList_Run_def split: prod.splits)
  show "trans_inv W S t0 t'"
    using runInputCall_state [OF run] assms(1) sl.state_ok_ops(4)
    by (auto simp: SetRole_def transition_ref_def trans_inv_def [of _ _ _ t] intro!: trans_inv_upd)
  show "GasLeft r \<le> Gas c" using runInputCall_gas [OF run] by (simp add: r word_sub_le)
  show "length (ReturnValue r) < 2 ^ 62" using runInputCall_ret [OF run] by (simp add: r)
qed

lemma transition_run_safe:
  assumes E: "evm_host E (trans_inv W S t0) (Depth c)" and inv: "trans_inv W S t0 t"
    and c: "contract_ok c" "unat (Gas c) < gas_cap"
  shows "run_ok W S t0 c (transition_run W E c t)"
proof (cases "handleAllowBlockListsUpdate W c t")
  case (Some x)
  obtain r t' where x: "x = (r, t')" by (cases x)
  then have "AddressList_Run (selectors W) (transition_ref W) (CodeAddress c) c t = (r, t')"
    using Some by (auto simp: handleAllowBlockListsUpdate_def split: list.splits)
  from AddressList_Run_inv [OF inv this] show ?thesis
    using Some x by (simp add: transition_run_def run_ok_def)
next
  case None
  have pre: "run_ok W S t0 c (Precompiled_Run (prims W) (Transition_Transfer W) c t (t_config t))"
    if "Precompiled_CanRun c (t_config t)"
    using pl.Precompiled_Run_safe [where J = "trans_inv W S t0" and transfer = "Transition_Transfer W",
        OF that c inv Transition_Transfer_inv [OF inv]]
    by (auto simp: run_ok_def)
  have "vm_reset (new_machine t c (t_config t)) = new_machine t c (t_config t)"
    by (simp add: vm_reset_def new_machine_def bm_reset_def)
  then have evm: "run_ok W S t0 c (EVM_Run E (new_machine t c (t_config t)) c t (t_config t))"
    using evm_host.EVM_Run_safe [OF E c(1) refl c(2) inv, of "new_machine t c (t_config t)" "t_config t"]
    by (auto simp: run_ok_def)
  show ?thesis
    using None pre evm inv by (auto simp: transition_run_def EVM_CanRun_def run_ok_def no_result_def)
qed

text \<open>Reverting to the snapshot taken before the run.\<close>

lemma revert_inv:
  assumes base: "trans_inv W S t0 t" and s: "snapshots s = snapshots (t_state t) @ [txn (t_state t)]"
      "snapshot s = snapshot (t_state t)"
    and run: "trans_inv W S (t\<lparr>t_state := s\<rparr>) t'"
  shows "RevertToSnapshot (t_state t') (length (snapshots (t_state t))) = (None, (t_state t')\<lparr>txn := txn (t_state t)\<rparr>)"
    and "trans_inv W S t0 (t'\<lparr>t_state := (t_state t')\<lparr>txn := txn (t_state t)\<rparr>\<rparr>)"
proof -
  have f: "snapshot (t_state t') = snapshot (t_state t)" "prefix (snapshots s) (snapshots (t_state t'))"
    using run s(2) by (simp_all add: trans_inv_def frame_def)
  then have "snapshots (t_state t') ! length (snapshots (t_state t)) = txn (t_state t)"
      "length (snapshots (t_state t)) < length (snapshots (t_state t'))"
    using s(1) by (auto simp: prefix_def)
  then show "RevertToSnapshot (t_state t') (length (snapshots (t_state t))) =
      (None, (t_state t')\<lparr>txn := txn (t_state t)\<rparr>)"
    by (simp add: RevertToSnapshot_def)
  have "state_ok W S ((t_state t')\<lparr>txn := txn (t_state t)\<rparr>) = state_ok W S (t_state t)"
    using f(1) by (intro state_ok_cong) simp_all
  then show "trans_inv W S t0 (t'\<lparr>t_state := (t_state t')\<lparr>txn := txn (t_state t)\<rparr>\<rparr>)"
    using base by (intro trans_inv_tree [OF trans_inv_nested [OF base s run]])
      (simp_all add: trans_inv_def tree_step_def)
qed

section \<open>Calls and creations\<close>

lemma Snapshot_base:
  assumes "trans_inv W S t0 t"
  shows "trans_inv W S (t\<lparr>t_state := snd (Snapshot (t_state t))\<rparr>) (t\<lparr>t_state := snd (Snapshot (t_state t))\<rparr>)"
    and "snapshots (snd (Snapshot (t_state t))) = snapshots (t_state t) @ [txn (t_state t)]"
    and "snapshot (snd (Snapshot (t_state t))) = snapshot (t_state t)"
    and "fst (Snapshot (t_state t)) = length (snapshots (t_state t))"
proof -
  have "state_ok W S (snd (Snapshot (t_state t))) = state_ok W S (t_state t)"
    by (rule state_ok_cong) (simp_all add: Snapshot_def)
  then show "trans_inv W S (t\<lparr>t_state := snd (Snapshot (t_state t))\<rparr>) (t\<lparr>t_state := snd (Snapshot (t_state t))\<rparr>)"
    using assms by (simp add: trans_inv_def new_snapshots_def code_ok_def) (simp add: Snapshot_def)
qed (simp_all add: Snapshot_def)

lemma applyCall_safe:
  assumes E: "\<And>t0. Depth c \<le> 1025 \<Longrightarrow> evm_host E (trans_inv W S t0) (Depth c)"
    and inv: "trans_inv W S t0 t" and c: "contract_ok c" "unat (Gas c) < gas_cap"
  shows "run_ok W S t0 c (applyCall W E c ty t)"
proof (cases "1025 < Depth c")
  case True
  then show ?thesis using inv by (simp add: applyCall_def run_ok_def no_result_def)
next
  case False
  define s where "s = snd (Snapshot (t_state t))"
  note base = Snapshot_base [OF inv, folded s_def]
  let ?tb = "t\<lparr>t_state := s\<rparr>"
  have "trans_inv W S ?tb (t\<lparr>t_state := TouchAccount W (Address c) s\<rparr>)"
    using trans_inv_tree [OF base(1), of "TouchAccount W (Address c) s"] base(1) sl.state_ok_ops(6)
    by (simp add: trans_inv_def)
  moreover obtain e t3 where t3: "(if ty = Call
      then Transition_Transfer W (t\<lparr>t_state := TouchAccount W (Address c) s\<rparr>) (Caller c) (Address c) (Value c)
      else (None, t\<lparr>t_state := TouchAccount W (Address c) s\<rparr>)) = (e, t3)" by fastforce
  ultimately have inv3: "trans_inv W S ?tb t3"
    using Transition_Transfer_inv [of S ?tb "t\<lparr>t_state := TouchAccount W (Address c) s\<rparr>" "Value c" "Caller c" "Address c"] c(1)
    by (auto simp: contract_ok_def in_range_def split: if_splits)
  have "run_ok W S ?tb c (transition_run W E c t3)"
    using transition_run_safe [OF E inv3 c] False by simp
  then obtain r t4 where run: "transition_run W E c t3 = Some (r, t4)" "trans_inv W S ?tb t4"
      "GasLeft r \<le> Gas c" "length (ReturnValue r) < 2 ^ 62"
    by (auto simp: run_ok_def)
  note reverted = revert_inv [OF inv base(2,3) run(2)]
  have "Snapshot (t_state t) = (length (snapshots (t_state t)), s)"
    using base(4) by (simp add: s_def prod_eq_iff)
  then show ?thesis
    using False t3 run reverted trans_inv_nested [OF inv base(2,3)] inv3
    by (auto simp: applyCall_def Let_def run_ok_def no_result_def split: option.split)
qed

lemma store_code_safe:
  assumes inv: "trans_inv W S t0 t" and s: "snapshots s = snapshots (t_state t) @ [txn (t_state t)]"
      "snapshot s = snapshot (t_state t)"
    and run: "trans_inv W S (t\<lparr>t_state := s\<rparr>) t'" and r: "GasLeft r \<le> Gas c" "length (ReturnValue r) < 2 ^ 62"
  shows "run_ok W S t0 c (Some (store_code W c (length (snapshots (t_state t))) r t'))"
proof -
  note reverted = revert_inv [OF inv s run] and inv' = trans_inv_nested [OF inv s run]
  have "trans_inv W S t0 (upd_state (SetCode W (Address c) (ReturnValue r)) t')"
    using inv' r(2) sl.state_ok_ops(9) by (intro trans_inv_upd) (simp_all add: trans_inv_def short_def)
  moreover have "GasLeft r - g \<le> Gas c" if "\<not> GasLeft r < g" for g
    using that r(1) word_sub_le [of g "GasLeft r"] by (simp add: not_less)
  ultimately show ?thesis
    using reverted inv' r by (auto simp: store_code_def revert_with_def Let_def run_ok_def no_result_def)
qed

lemma applyCreate_safe:
  assumes E: "\<And>t0. Depth c \<le> 1025 \<Longrightarrow> evm_host E (trans_inv W S t0) (Depth c)"
    and inv: "trans_inv W S t0 t" and c: "contract_ok c" "unat (Gas c) < gas_cap"
  shows "run_ok W S t0 c (applyCreate W E c t)"
proof (cases "1025 < Depth c")
  case True
  then show ?thesis using inv by (simp add: applyCreate_def run_ok_def no_result_def)
next
  case False
  obtain e1 s1 where s1: "IncrNonce W (Caller c) (t_state t) = (e1, s1)" by fastforce
  define t1 where "t1 = t\<lparr>t_state := s1\<rparr>"
  have inv1: "trans_inv W S t0 t1"
    using trans_inv_tree [OF inv, of s1] tree_step_ops(13) [of "t_state t" W "Caller c"] inv
      sl.state_ok_ops(8) [of S "t_state t" "Caller c"] s1
    by (simp add: trans_inv_def t1_def)
  define s where "s = snd (Snapshot (t_state t1))"
  note base = Snapshot_base [OF inv1, folded s_def]
  let ?tb = "t1\<lparr>t_state := s\<rparr>"
  obtain e2 s2 where s2: "(if EIP158 (t_config t) then IncrNonce W (Address c) (CreateAccount W (Address c) s)
      else (None, s)) = (e2, s2)" by fastforce
  have "tree_step s (snd (IncrNonce W (Address c) (CreateAccount W (Address c) s)))"
    by (rule tree_step_trans [OF tree_step_ops(11) tree_step_ops(13)])
  then have "tree_step s s2 \<and> state_ok W S s2"
    using s2 base(1) sl.state_ok_ops(8) [OF sl.state_ok_ops(7), of S s "Address c" "Address c"]
    by (cases "EIP158 (t_config t)") (auto simp: trans_inv_def)
  then have inv2: "trans_inv W S ?tb (t1\<lparr>t_state := s2\<rparr>)"
    using trans_inv_tree [OF base(1), of s2] by simp
  obtain e3 t3 where t3: "Transition_Transfer W (t1\<lparr>t_state := s2\<rparr>) (Caller c) (Address c) (Value c) = (e3, t3)"
    by fastforce
  have inv3: "trans_inv W S ?tb t3"
    using Transition_Transfer_inv [OF inv2, of "Value c" "Caller c" "Address c"] c(1) t3
    by (auto simp: contract_ok_def in_range_def)
  have "run_ok W S ?tb c (transition_run W E c t3)"
    using transition_run_safe [OF E inv3 c] False by simp
  then obtain r t4 where run: "transition_run W E c t3 = Some (r, t4)" "trans_inv W S ?tb t4"
      "GasLeft r \<le> Gas c" "length (ReturnValue r) < 2 ^ 62"
    by (auto simp: run_ok_def)
  have "Snapshot (t_state t1) = (length (snapshots (t_state t1)), s)"
    using base(4) by (simp add: s_def prod_eq_iff)
  moreover have "t1\<lparr>t_state := x\<rparr> = t\<lparr>t_state := x\<rparr>" "t_config t1 = t_config t" "t_state t1 = s1" for x
    by (simp_all add: t1_def)
  ultimately show ?thesis
    using False s1 s2 t3 run store_code_safe [OF inv1 base(2,3) run(2-4)] inv1
      trans_inv_nested [OF inv1 base(2,3) inv2] trans_inv_nested [OF inv1 base(2,3) inv3]
    by (simp add: applyCreate_def Let_def t1_def [symmetric]) (auto simp: run_ok_def no_result_def)
qed

lemma Transition_Callx_safe:
  assumes "\<And>t0. Depth c \<le> 1025 \<Longrightarrow> evm_host E (trans_inv W S t0) (Depth c)"
    and "trans_inv W S t0 t" and "contract_ok c" "unat (Gas c) < gas_cap"
  shows "run_ok W S t0 c (Transition_Callx W E t c)"
  using applyCreate_safe [OF assms] applyCall_safe [OF assms] by (simp add: Transition_Callx_def)

section \<open>The host of the interpreter\<close>

text \<open>The transition with \<open>n\<close> more levels of calls, as the host of a contract at depth \<open>D\<close>.\<close>

lemma transition_env_simps [simp]:
  "GetBalance (transition_env W cx) = (\<lambda>t a. Txn_GetBalance W (t_state t) a)"
  "GetTxContext (transition_env W cx) = t_ctx" "Callx (transition_env W cx) = cx"
  "Keccak256 (transition_env W cx) = keccak W" "Selfdestruct (transition_env W cx) = Transition_Selfdestruct W"
  "EmitLog (transition_env W cx) = (\<lambda>t a ts d. upd_state (Txn_EmitLog W a ts d) t)"
  "SetStorage (transition_env W cx) = (\<lambda>t a k v f.
     let (st, s) = Txn_SetStorage W a k v f (t_state t) in (st, t\<lparr>t_state := s\<rparr>))"
  "GetCode (transition_env W cx) = (\<lambda>t a. let (cd, s) = Txn_GetCode W (t_state t) a in (cd, t\<lparr>t_state := s\<rparr>))"
  "GetCodeSize (transition_env W cx) = (\<lambda>t a.
     let (n, s) = Txn_GetCodeSize W (t_state t) a in (n, t\<lparr>t_state := s\<rparr>))"
  by (simp_all add: transition_env_def)

lemma transition_env_host:
  assumes S: "S < 2 ^ 256"
    and callx: "\<And>t c. trans_inv W S t0 t \<Longrightarrow> contract_ok c \<Longrightarrow> Depth c = D + 1 \<Longrightarrow> unat (Gas c) < gas_cap \<Longrightarrow>
      run_ok W S t0 c (cx t c)"
  shows "evm_host (transition_env W cx) (trans_inv W S t0) D"
proof
  fix t a k v f b ts d c
  assume inv: "trans_inv W S t0 t"
  have st: "state_ok W S (t_state t)" using inv by (simp add: trans_inv_def)
  show "in_range (GetBalance (transition_env W cx) t a)"
    using st S Txn_GetBalance_le_total_supply [of W "t_state t" a] by (simp add: in_range_def state_ok_def)
  show "trans_inv W S t0 (snd (SetStorage (transition_env W cx) t a k v f))"
    using trans_inv_tree [OF inv tree_step_SetStorage sl.state_ok_SetStorage [OF st]] by (simp add: case_prod_beta)
  show "trans_inv W S t0 (snd (GetCodeSize (transition_env W cx) t a))"
    and "trans_inv W S t0 (snd (GetCode (transition_env W cx) t a))"
    and "length (fst (GetCode (transition_env W cx) t a)) < 2 ^ 62"
    using Txn_GetCode_inv [OF inv, of a] by (simp_all add: case_prod_beta Txn_GetCodeSize_def short_def)
  show "trans_inv W S t0 (Selfdestruct (transition_env W cx) t a b)"
    using Transition_Selfdestruct_inv [OF inv] by simp
  show "trans_inv W S t0 (EmitLog (transition_env W cx) t a ts d)"
    using trans_inv_upd [OF inv] sl.state_ok_ops(1) [OF st] by simp
  show "context_ok (GetTxContext (transition_env W cx) t)" using inv by (simp add: trans_inv_def)
  show "\<exists>r h'. Callx (transition_env W cx) t c = Some (r, h') \<and> trans_inv W S t0 h' \<and> GasLeft r \<le> Gas c \<and>
      length (ReturnValue r) < 2 ^ 62" if "contract_ok c" "Depth c = D + 1" "unat (Gas c) < gas_cap"
    using callx [OF inv that] by (simp add: run_ok_def)
next
  show "length (Keccak256 (transition_env W cx) bs) = 32" for bs by (simp add: sl.keccak_length)
qed

lemma transition_callx_host:
  assumes "S < 2 ^ 256" and "1 \<le> n" and "1026 \<le> D + int n"
  shows "evm_host (transition_env W (transition_callx W n)) (trans_inv W S t0) D"
  using assms(2,3)
proof (induction n arbitrary: t0 D)
  case (Suc n)
  show ?case
  proof (rule transition_env_host [OF assms(1)])
    fix t c
    assume "trans_inv W S t0 t" and c: "contract_ok c" "Depth c = D + 1" "unat (Gas c) < gas_cap"
    moreover have "evm_host (transition_env W (transition_callx W n)) (trans_inv W S t1) (Depth c)"
      if "Depth c \<le> 1025" for t1
      using that c(2) Suc.prems by (intro Suc.IH) auto
    ultimately show "run_ok W S t0 c (transition_callx W (Suc n) t c)"
      by (simp add: Transition_Callx_safe)
  qed
qed simp

lemma transition_host_safe: "S < 2 ^ 256 \<Longrightarrow> 1 \<le> D \<Longrightarrow> evm_host (transition_host W) (trans_inv W S t0) D"
  unfolding transition_host_def by (rule transition_callx_host) simp_all

text \<open>A failed call: the tree is the one from before, or an account was touched.\<close>

lemma applyCall_failed:
  assumes E: "\<And>t0. Depth c \<le> 1025 \<Longrightarrow> evm_host E (trans_inv W S t0) (Depth c)"
    and inv: "trans_inv W S t0 t" and c: "contract_ok c" "unat (Gas c) < gas_cap"
    and run: "applyCall W E c ty t = Some (r, t')" "Failed r"
  shows "snapshot (t_state t') = snapshot (t_state t) \<and>
    (txn (t_state t') = txn (t_state t) \<or> txn (t_state t') = txn (TouchAccount W (Address c) (t_state t)))"
proof (cases "1025 < Depth c")
  case True
  then show ?thesis using run by (simp add: applyCall_def)
next
  case False
  define s where "s = snd (Snapshot (t_state t))"
  note base = Snapshot_base [OF inv, folded s_def]
  let ?tb = "t\<lparr>t_state := s\<rparr>" and ?t2 = "t\<lparr>t_state := TouchAccount W (Address c) s\<rparr>"
  have touch: "trans_inv W S ?tb ?t2"
    using trans_inv_tree [OF base(1), of "TouchAccount W (Address c) s"] base(1) sl.state_ok_ops(6)
    by (simp add: trans_inv_def)
  obtain e t3 where t3: "(if ty = Call then Transition_Transfer W ?t2 (Caller c) (Address c) (Value c)
      else (None, ?t2)) = (e, t3)" by fastforce
  have inv3: "trans_inv W S ?tb t3"
    using Transition_Transfer_inv [OF touch, of "Value c" "Caller c" "Address c"] touch t3 c(1)
    by (auto simp: contract_ok_def in_range_def split: if_splits)
  have s: "txn s = txn (t_state t)" "snapshot s = snapshot (t_state t)" by (simp_all add: s_def Snapshot_def)
  have touched: "txn (TouchAccount W (Address c) s) = txn (TouchAccount W (Address c) (t_state t))"
      "snapshot (TouchAccount W (Address c) s) = snapshot (t_state t)"
    using s by (simp_all add: TouchAccount_def upsertAccount_def getStateObject_cong [OF s] split: option.split)
  have snap: "Snapshot (t_state t) = (length (snapshots (t_state t)), s)"
    using base(4) by (simp add: s_def prod_eq_iff)
  show ?thesis
  proof (cases e)
    case (Some x)
    then have "t3 = ?t2"
      using t3 sl.SubBalance_Some by (auto simp: Transition_Transfer_def split: if_splits option.splits prod.splits)
    then show ?thesis using run False t3 Some snap touched by (auto simp: applyCall_def Let_def)
  next
    case None
    obtain r4 t4 where t4: "transition_run W E c t3 = Some (r4, t4)" "trans_inv W S ?tb t4"
      using transition_run_safe [OF E inv3 c] False by (auto simp: run_ok_def)
    have "snapshot (t_state t4) = snapshot (t_state t)"
      using t4(2) base(3) by (simp add: trans_inv_def frame_def)
    then show ?thesis using run False t3 None snap t4(1) revert_inv(1) [OF inv base(2,3) t4(2)]
      by (auto simp: applyCall_def Let_def split: if_splits)
  qed
qed

end

text \<open>The transition as the host of the contracts that a transaction runs.\<close>

locale bounded_world = world W for W :: "('t, 's, 'c) World" +
  fixes S :: int and t0 :: "('t, 'c) Transition"
  assumes bound: "S < 2 ^ 256"

sublocale bounded_world \<subseteq> top: evm_host "transition_host W" "trans_inv W S t0" 1
  using bound by (rule transition_host_safe) simp

end
