(* ===== verification/Transition_Properties.thy ===== *)
theory Transition_Properties
  imports Transition_Safety
begin

text \<open>
  What the transition promises for message calls and contract creations, and an
  instance of the third-party packages that keeps their promises.
\<close>

section \<open>An instance of the third-party packages\<close>

text \<open>
  Association lists stand for the containers and SHA-256 for Keccak-256; recovering a
  key and the curve operations always fail.
\<close>

definition list_prims :: Prims where
  "list_prims =
     \<lparr>keccak256 = sha256_Sum, rlp_Marshal = (\<lambda>_. []), SignCompact = (\<lambda>_ _. None), MarshalPublicKey = (\<lambda>_. []),
      ripemd160_Sum = (\<lambda>m. take 20 (sha256_Sum m)), RecoverCompact = (\<lambda>_ _. None), bn_Add = (\<lambda>_ _. None),
      bn_ScalarMult = (\<lambda>_ _. None), bn_PairingCheck = (\<lambda>_. None), abi_DecodeBLSInput = (\<lambda>_. None),
      abi_DecodeBLSKeys = (\<lambda>_. None), bls_ValidSignature = (\<lambda>_. False), bls_ValidPublicKey = (\<lambda>_. False),
      bls_VerifyAggregated = (\<lambda>_ _ _. False), abiBoolTrue = replicate 31 0 @ [1], abiBoolFalse = replicate 32 0\<rparr>"

type_synonym list_storage = "(byte list \<times> byte list option) list"

type_synonym list_tree = "(byte list \<times> list_storage entry) list"

type_synonym list_cache = "nat \<times> (address \<times> byte list) list"

definition list_world :: "(list_tree, list_storage, list_cache) World" where
  "list_world =
     \<lparr>tree = list_radix, storage = list_radix, cache = list_lru, keccak = sha256_Sum, prims = list_prims,
      selectors = \<lparr>SetAdminID = [1, 0, 0, 0], SetEnabledID = [2, 0, 0, 0], SetNoneID = [3, 0, 0, 0],
        ReadAddressListID = [4, 0, 0, 0]\<rparr>,
      manager = empty_manager\<rparr>"

interpretation list_world: world list_world
proof (rule world.intro)
  show "state_lib list_world"
    by (rule state_lib.intro)
      (simp_all add: list_world_def list_radix.radix_laws_axioms list_lru.lru_laws_axioms)
  show "prims_laws (prims list_world)"
    by unfold_locales (simp_all add: list_world_def list_prims_def)
qed

interpretation list_host: bounded_world list_world "2 ^ 256 - 1" t0 for t0
  by unfold_locales simp

text \<open>A state without accounts.\<close>

definition empty_snapshot :: readSnapshot where
  "empty_snapshot = \<lparr>snap_GetStorage = (\<lambda>_ _ _. ZeroHash), snap_GetAccount = (\<lambda>_. Inr None),
     snap_GetCode = (\<lambda>_. ([], False))\<rparr>"

definition empty_context :: TxContext where
  "empty_context = \<lparr>CtxGasPrice = 0, CtxOrigin = 0, Coinbase = 0, Number = 1, Timestamp = 1, GasLimit = 1000000,
     ChainID = 1, Difficulty = 0, NonPayable = False, BaseFee = Some 7, BurnContract = 0\<rparr>"

definition list_transition ::
  "ForksInTime \<Rightarrow> (list_tree, list_cache) Txn \<Rightarrow> (list_tree, list_cache) Transition" where
  "list_transition f s = \<lparr>t_config = f, t_state = s, t_getHash = (\<lambda>_. 0), t_ctx = empty_context,
     t_gasPool = 1000000, executor = None, t_receipts = [], t_totalGas = 0, deploymentAllowList = None,
     deploymentBlockList = None, txnAllowList = None, txnBlockList = None, bridgeAllowList = None,
     bridgeBlockList = None\<rparr>"

definition all_forks :: ForksInTime where
  "all_forks = \<lparr>Homestead = True, Byzantium = True, Constantinople = True, Petersburg = True, Istanbul = True,
     London = True, EIP150 = True, EIP158 = True, EIP155 = True, QuorumCalcAlignment = True,
     TxHashWithType = True, LondonFix = True\<rparr>"

definition empty_transition :: "(list_tree, list_cache) Transition" where
  "empty_transition = list_transition all_forks (newTxn list_world empty_snapshot)"

section \<open>Well-formed transitions\<close>

text \<open>What a transition has to satisfy before a call.\<close>

definition transition_ok :: "('t, 's, 'c) World \<Rightarrow> ('t, 'c) Transition \<Rightarrow> bool" where
  "transition_ok W t \<longleftrightarrow> context_ok (t_ctx t) \<and> code_ok W (t_state t) \<and> dirty_ok W (t_state t) \<and>
     total_supply W (t_state t) < 2 ^ 256"

lemma transition_ok_inv:
  "transition_ok W t \<Longrightarrow> trans_inv W (total_supply W (t_state t)) t t"
  by (simp add: transition_ok_def trans_inv_def state_ok_def new_snapshots_def)

lemma trans_inv_ok:
  "trans_inv W S t0 t \<Longrightarrow> S < 2 ^ 256 \<Longrightarrow> transition_ok W t"
  by (auto simp: transition_ok_def trans_inv_def state_ok_def)

lemma empty_object: "getStateObject list_world (newTxn list_world empty_snapshot) a = None"
  by (simp add: getStateObject_def newTxn_def empty_snapshot_def list_world_def list_radix_def)

lemma empty_transition_ok: "transition_ok list_world empty_transition"
proof -
  have "total_supply list_world (newTxn list_world empty_snapshot) = 0"
    by (simp add: total_supply_def Txn_GetBalance_def empty_object)
  moreover have "dirty_ok list_world (newTxn list_world empty_snapshot)"
    by (simp add: dirty_ok_def object_at_def empty_object)
  moreover have "cached (cache list_world) (codeCache (newTxn list_world empty_snapshot)) = {}"
    by (simp add: newTxn_def list_world.sl.cc.cached_New)
  ultimately show ?thesis
    by (simp add: transition_ok_def empty_transition_def list_transition_def context_ok_def empty_context_def
        in_range_def code_ok_def) (simp add: newTxn_def empty_snapshot_def)
qed

text \<open>The same state with one account that owns \<open>n\<close>.\<close>

definition funded_transition :: "address \<Rightarrow> int \<Rightarrow> (list_tree, list_cache) Transition" where
  "funded_transition a n =
     list_transition all_forks (AddBalance list_world a n (newTxn list_world empty_snapshot))"

lemma funded_transition_ok:
  assumes "in_range n"
  shows "transition_ok list_world (funded_transition a n)"
    and "total_supply list_world (t_state (funded_transition a n)) = n"
proof -
  let ?s = "newTxn list_world empty_snapshot"
  have e: "code_ok list_world ?s" "dirty_ok list_world ?s" "context_ok empty_context"
    using empty_transition_ok by (simp_all add: transition_ok_def empty_transition_def list_transition_def)
  have zero: "total_supply list_world ?s = 0" by (simp add: total_supply_def Txn_GetBalance_def empty_object)
  with assms show total: "total_supply list_world (t_state (funded_transition a n)) = n"
    by (simp add: funded_transition_def list_transition_def list_world.sl.total_supply_AddBalance in_range_def)
  have "code_ok list_world (AddBalance list_world a n ?s)"
    using e(1) tree_step_ops(1) [of ?s list_world a n] by (simp add: code_ok_def tree_step_def)
  then show "transition_ok list_world (funded_transition a n)"
    using e total list_world.sl.dirty_ok_ops(1) [OF e(2), of a n] assms
    by (simp add: transition_ok_def in_range_def) (simp add: funded_transition_def list_transition_def)
qed

section \<open>Properties\<close>

context world
begin

lemma call_run_ok:
  assumes "transition_ok W t" and "contract_ok c" and "1 \<le> Depth c" and "unat (Gas c) < gas_cap"
  shows "run_ok W (total_supply W (t_state t)) t c (Transition_Callx W (transition_host W) t c)"
  using assms transition_ok_inv [OF assms(1)]
  by (intro Transition_Callx_safe transition_host_safe) (simp_all add: transition_ok_def)

end



text \<open>
  C2. No call creates money: after a call or a creation, and all the calls it makes, the
  sum of all balances is at most what it was before.
\<close>

theorem call_no_inflation:
  assumes "world W" and "transition_ok W t" and "contract_ok c" and "1 \<le> Depth c"
    and "unat (Gas c) < 2 ^ 61" and "Transition_Callx W (transition_host W) t c = Some (r, t')"
  shows "total_supply W (t_state t') \<le> total_supply W (t_state t)"
  using world.call_run_ok [OF assms(1-5)] assms(6) by (auto simp: run_ok_def trans_inv_def state_ok_def)

theorem call_no_inflation_witness:
  "\<exists>r t'. Transition_Callx list_world (transition_host list_world) empty_transition
       (NewContractCreation 1 0 0 5 (Some 0) 100000 [0x60, 0, 0x60, 0, 0xf3]) = Some (r, t') \<and>
     total_supply list_world (t_state t') \<le> total_supply list_world (t_state empty_transition)"
proof -
  let ?c = "NewContractCreation 1 0 0 5 (Some 0) 100000 [0x60, 0, 0x60, 0, 0xf3]"
  have c: "contract_ok ?c" "1 \<le> Depth ?c" "unat (Gas ?c) < 2 ^ 61"
    by (simp_all add: contract_ok_def NewContractCreation_def NewContract_def in_range_def)
  obtain r t' where "Transition_Callx list_world (transition_host list_world) empty_transition ?c = Some (r, t')"
    using list_world.call_run_ok [OF empty_transition_ok c] by (auto simp: run_ok_def)
  with call_no_inflation [OF list_world.world_axioms empty_transition_ok c this] show ?thesis by blast
qed

text \<open>
  C4. A message call that fails leaves no trace in the accounts: every balance, every
  nonce and every storage slot is what it was before the call, whatever the called
  contracts did before they failed.
\<close>

theorem failed_call_reverts:
  assumes "world W" and "transition_ok W t" and "empty_root_ok t" and "contract_ok c" and "1 \<le> Depth c"
    and "unat (Gas c) < 2 ^ 61" and "Type c \<noteq> Create"
    and "Transition_Callx W (transition_host W) t c = Some (r, t')" and "Failed r"
  shows "Txn_GetBalance W (t_state t') a = Txn_GetBalance W (t_state t) a \<and>
    Txn_GetNonce W (t_state t') a = Txn_GetNonce W (t_state t) a \<and>
    Txn_GetState W (t_state t') a k = Txn_GetState W (t_state t) a k"
proof -
  have host: "evm_host (transition_host W) (trans_inv W (total_supply W (t_state t)) t0) (Depth c)" for t0
    using world.transition_host_safe [OF assms(1)] assms(2,5) by (simp add: transition_ok_def)
  have "applyCall W (transition_host W) c (Type c) t = Some (r, t')"
    using assms(7,8) by (simp add: Transition_Callx_def)
  note * = world.applyCall_failed [OF assms(1) host transition_ok_inv [OF assms(2)] assms(4,6) this assms(9)]
  from assms(1) have L: "state_lib W" by (rule world.lib)
  have root: "\<And>a k. snap_GetStorage (snapshot (t_state t)) a emptyStateHash k = ZeroHash"
    using assms(3) by (simp add: empty_root_ok_def)
  let ?s = "TouchAccount W (Address c) (t_state t)"
  have "snapshot ?s = snapshot (t_state t)" by (simp add: tree_step_ops(10) [unfolded tree_step_def])
  with * consider "txn (t_state t') = txn (t_state t)" "snapshot (t_state t') = snapshot (t_state t)"
    | "txn (t_state t') = txn ?s" "snapshot (t_state t') = snapshot ?s" by auto
  then show ?thesis
  proof cases
    case 1
    show ?thesis by (simp add: observed_cong [OF 1])
  next
    case 2
    show ?thesis
      unfolding observed_cong [OF 2] using state_lib.TouchAccount_observed [OF L] root by simp
  qed
qed

theorem failed_call_reverts_witness:
  "\<exists>r t'. Transition_Callx list_world (transition_host list_world) empty_transition
       (NewContractCall 1 0 7 5 (Some 3) 100000 [0] []) = Some (r, t') \<and> Err r = Some ErrInsufficientBalance \<and>
     Txn_GetBalance list_world (t_state t') 5 = Txn_GetBalance list_world (t_state empty_transition) 5"
proof -
  let ?c = "NewContractCall 1 0 7 5 (Some 3) 100000 [0] []"
  have c: "contract_ok ?c" "1 \<le> Depth ?c" "unat (Gas ?c) < 2 ^ 61" "Type ?c \<noteq> Create"
    by (simp_all add: contract_ok_def NewContractCall_def NewContract_def in_range_def)
  have root: "empty_root_ok empty_transition"
    by (simp add: empty_root_ok_def empty_transition_def list_transition_def newTxn_def empty_snapshot_def)
  obtain r t' where run: "Transition_Callx list_world (transition_host list_world) empty_transition ?c = Some (r, t')"
      "Err r = Some ErrInsufficientBalance"
    by (simp add: Transition_Callx_def NewContractCall_def NewContract_def applyCall_def Let_def Snapshot_def
        Transition_Transfer_def SubBalance_def Txn_GetBalance_def getStateObject_def TouchAccount_def
        upsertAccount_def empty_transition_def list_transition_def newTxn_def list_world_def list_radix_def
        empty_snapshot_def no_result_def Address_Bytes_inject)
  then have "Failed r" by (simp add: Failed_def)
  from failed_call_reverts [OF list_world.world_axioms empty_transition_ok root c run(1) this] run
  show ?thesis by blast
qed

end
