(* ===== verification/Transition_Fees.thy ===== *)
theory Transition_Fees
  imports Transition_Properties
begin

text \<open>
  Fees: what a transaction charges, gives back and distributes.  Under the current
  (London-fix) rules with a base fee, a transaction never creates money.
\<close>

section \<open>The price and its parts\<close>

text \<open>
  The amounts of a transaction that pays: a dynamic-fee transaction has a tip that is
  not negative, caps that are not both zero and no gas price; any other has a gas price.
\<close>

definition fee_fields :: "Transaction \<Rightarrow> bool" where
  "fee_fields tx \<longleftrightarrow>
     (if Tx_Type tx = DynamicFeeTx
      then (case (GasFeeCap tx, GasTipCap tx) of
              (Some cap, Some tip) \<Rightarrow> 0 \<le> tip \<and> (cap \<noteq> 0 \<or> tip \<noteq> 0)
            | _ \<Rightarrow> False) \<and> (TxGasPrice tx = None \<or> TxGasPrice tx = Some 0)
      else TxGasPrice tx \<noteq> None)"

lemma BitLen_pos [simp]: "0 < BitLen x \<longleftrightarrow> x \<noteq> 0"
  by (simp flip: neq0_conv)

lemma fee_parts:
  assumes "checkDynamicFees LondonFixForkV2 tx True (Some b) = Some None" and "fee_fields tx"
    and "0 < b" and "b < 2 ^ 64"
  shows "\<exists>tip. getEffectiveTip LondonFixForkV2 tx p (Some b) True = Some tip \<and> 0 \<le> tip \<and>
    tip + b = GetGasPrice tx (Uint64 b)"
proof -
  have u: "uint (Uint64 b) = b" "Uint64 b \<noteq> 0" "BitLen b \<noteq> 0"
    using assms(3,4) uint_Uint64 [of b] by (auto simp: IsUint64_def)
  show ?thesis
  proof (cases "Tx_Type tx = DynamicFeeTx")
    case True
    then obtain cap tip where caps: "GasFeeCap tx = Some cap" "GasTipCap tx = Some tip" "0 \<le> tip"
        "cap \<noteq> 0 \<or> tip \<noteq> 0" "TxGasPrice tx = None \<or> TxGasPrice tx = Some 0"
      using assms(2) by (auto simp: fee_fields_def split: option.splits)
    then have "b \<le> cap"
      using assms(1) True
      by (auto simp: checkDynamicFees_def checkDynamicFees_V2_def check_caps_def GetGasFeeCap_def split: if_splits)
    moreover have "min tip (cap - b) + b = min (tip + b) cap" by simp
    ultimately show ?thesis using caps True u assms(3)
      by (auto simp: getEffectiveTip_def getEffectiveTip_V2_def EffectiveGasTip_def GetGasTipCap_def
          GetGasFeeCap_def GetGasPrice_def Let_def)
  next
    case False
    then obtain price where price: "TxGasPrice tx = Some price" using assms(2) by (auto simp: fee_fields_def)
    then have "b \<le> price"
      using assms(1) False
      by (auto simp: checkDynamicFees_def checkDynamicFees_V2_def GetGasFeeCap_def split: if_splits)
    with price False u assms(3) show ?thesis
      by (auto simp: getEffectiveTip_def getEffectiveTip_V2_def EffectiveGasTip_def GetGasTipCap_def
          GetGasFeeCap_def GetGasPrice_def)
  qed
qed

section \<open>Distributing the fee\<close>

context world
begin

lemma pay_fee_state:
  assumes "0 \<le> fee"
  shows "\<exists>s. pay_fee W fee t = t\<lparr>t_state := s\<rparr> \<and> total_supply W s = total_supply W (t_state t) + fee"
proof -
  have half: "0 \<le> big_Div fee 2" "0 \<le> fee - big_Div fee 2"
    using assms by (auto simp: big_Div_def)
  then show ?thesis
    using assms
    by (cases "fee = 0")
      (auto simp: pay_fee_def upd_state_def DistributeTxFeesToValidator_def Let_def sl.total_supply_AddBalance
        intro: exI [of _ "t_state t"])
qed

lemma settle_supply:
  assumes "london_rules W t = Some LondonFixForkV2" and "London (t_config t)" and "BaseFee (t_ctx t) = Some b"
    and "checkDynamicFees LondonFixForkV2 tx True (Some b) = Some None" and "fee_fields tx"
    and "0 < b" and "b < 2 ^ 64" and "Tx_Type tx \<noteq> StateTx" and "GasLeft r \<le> TxGas tx"
  shows "\<exists>r' t'. settle W tx (GetGasPrice tx (Uint64 b)) r t = Some (r', t') \<and>
    total_supply W (t_state t') = total_supply W (t_state t) + uint (TxGas tx) * GetGasPrice tx (Uint64 b)"
proof -
  define price where "price = GetGasPrice tx (Uint64 b)"
  define r' where "r' = UpdateGasUsed r (TxGas tx) (Txn_GetRefund W (t_state t))"
  obtain tip where tip: "getEffectiveTip LondonFixForkV2 tx price (Some b) True = Some tip" "0 \<le> tip"
      "tip + b = price"
    using fee_parts [OF assms(4-7)] by (metis price_def)
  have price: "0 \<le> price" using tip assms(6) by simp
  have "unat (GasLeft r') + unat (GasUsed r') = unat (TxGas tx)"
    using UpdateGasUsed_sum(1) [OF assms(9)] by (simp add: r'_def)
  then have gas: "uint (GasLeft r') + uint (GasUsed r') = uint (TxGas tx)"
    by (metis of_nat_add of_nat_unat)
  define t1 where "t1 = upd_state (AddBalance W (From tx) (uint (GasLeft r') * price)) t"
  have t1: "total_supply W (t_state t1) = total_supply W (t_state t) + uint (GasLeft r') * price"
    using price by (simp add: t1_def upd_state_def sl.total_supply_AddBalance)
  obtain s where s: "pay_fee W (uint (GasUsed r') * tip) t1 = t1\<lparr>t_state := s\<rparr>"
      "total_supply W s = total_supply W (t_state t1) + uint (GasUsed r') * tip"
    using pay_fee_state [of "uint (GasUsed r') * tip" t1] tip(2) by auto
  have rules: "london_rules W t1 = Some LondonFixForkV2" "London (t_config t1)" "BaseFee (t_ctx t1) = Some b"
    "t_ctx (t1\<lparr>t_state := s\<rparr>) = t_ctx t1"
    using assms(1-3) by (simp_all add: t1_def upd_state_def london_rules_def)
  let ?t2 = "t1\<lparr>t_state := AddBalance W (BurnContract (t_ctx t1)) (uint (GasUsed r') * b) s\<rparr>"
  have "settle W tx price r t = Some (r', addGasPool (GasLeft r') ?t2)"
    using rules tip(1) s(1) assms(8)
    by (simp add: settle_def Let_def flip: r'_def t1_def) (simp add: upd_state_def)
  moreover have "total_supply W (t_state (addGasPool (GasLeft r') ?t2)) =
      total_supply W (t_state t) + (uint (GasLeft r') * price + uint (GasUsed r') * tip + uint (GasUsed r') * b)"
    using s(2) t1 assms(6) by (simp add: addGasPool_def sl.total_supply_AddBalance)
  moreover have "uint (GasLeft r') * price + uint (GasUsed r') * tip + uint (GasUsed r') * b = uint (TxGas tx) * price"
    using gas tip(3) by (metis add.assoc distrib_left distrib_right)
  ultimately show ?thesis by (auto simp: price_def)
qed

end

section \<open>A whole transaction\<close>

text \<open>A transaction whose amounts and sizes fit their types, with less than \<open>gas_cap\<close> gas.\<close>

definition tx_ok :: "Transaction \<Rightarrow> bool" where
  "tx_ok tx \<longleftrightarrow> fee_fields tx \<and> Tx_Type tx \<noteq> StateTx \<and> unat (TxGas tx) < gas_cap \<and>
     length (TxInput tx) < 2 ^ 62 \<and> (case TxValue tx of None \<Rightarrow> False | Some v \<Rightarrow> in_range v)"

text \<open>A block under the London-fix rules with base fee \<open>b\<close>.\<close>

definition london_block :: "('t, 's, 'c) World \<Rightarrow> ('t, 'c) Transition \<Rightarrow> int \<Rightarrow> bool" where
  "london_block W t b \<longleftrightarrow> london_rules W t = Some LondonFixForkV2 \<and> London (t_config t) \<and>
     BaseFee (t_ctx t) = Some b \<and> 0 < b \<and> b < 2 ^ 64 \<and> \<not> NonPayable (t_ctx t)"

context world
begin

text \<open>The checks charge the gas limit at the gas price, or leave the state alone.\<close>

lemma checkAndProcessTx_charge:
  assumes "london_block W t b" and "fee_fields tx"
  shows "\<exists>e s. checkAndProcessTx W tx t = Some (e, t\<lparr>t_state := s\<rparr>) \<and> tree_step (t_state t) s \<and>
    (dirty_ok W (t_state t) \<longrightarrow> dirty_ok W s) \<and>
    (if e = None then checkDynamicFees LondonFixForkV2 tx True (Some b) = Some None \<and>
       total_supply W s = total_supply W (t_state t) - uint (TxGas tx) * GetGasPrice tx (Uint64 b)
     else s = t_state t)"
proof -
  have check: "\<exists>e. checkDynamicFees LondonFixForkV2 tx True (Some b) = Some e"
    using assms(2)
    by (auto simp: checkDynamicFees_def checkDynamicFees_V2_def check_caps_def GetGasFeeCap_def fee_fields_def
        split: option.splits if_splits)
  then obtain e where e: "checkDynamicFees LondonFixForkV2 tx True (Some b) = Some e" by blast
  define cost where "cost = uint (TxGas tx) * GetGasPrice tx (Uint64 b)"
  obtain x s where sub: "SubBalance W (From tx) cost (t_state t) = (x, s)" by fastforce
  have s: "tree_step (t_state t) s" "dirty_ok W (t_state t) \<longrightarrow> dirty_ok W s"
    using tree_step_ops(12) [of "t_state t" W "From tx" cost] sl.dirty_ok_ops(2) [of "t_state t" "From tx" cost] sub
    by auto
  have t: "t = t\<lparr>t_state := t_state t\<rparr>" by simp
  have up: "getUpfrontGasCost LondonFixForkV2 tx (Some b) = Some cost"
    by (simp add: getUpfrontGasCost_def getUpfrontGasCost_V2_def cost_def)
  show ?thesis
  proof (cases "nonceCheck W tx t")
    case (Some y)
    then show ?thesis using t by (auto simp: checkAndProcessTx_def intro!: exI [of _ "t_state t"])
  next
    case None
    show ?thesis
    proof (cases e)
      case (Some y)
      then show ?thesis using t None e assms(1)
        by (auto simp: checkAndProcessTx_def london_block_def intro!: exI [of _ "t_state t"])
    next
      case e': None
      have "checkAndProcessTx W tx t =
          Some (map_option (\<lambda>e. TransitionApplicationError
            (if e = ErrNotEnoughFunds then ErrNotEnoughFundsForGas else RuntimeError e) True) x, t\<lparr>t_state := s\<rparr>)"
        using None e e' up sub assms(1)
        by (cases x) (simp_all add: checkAndProcessTx_def london_block_def subGasLimitPrice_def)
      then show ?thesis using s e e' sub sl.SubBalance_None(1) sl.SubBalance_Some
        by (cases x) (auto simp: cost_def)
    qed
  qed
qed

text \<open>The call or the creation of a transaction.\<close>

lemma top_host: "transition_ok W t \<Longrightarrow> evm_host (transition_host W) (trans_inv W (total_supply W (t_state t)) t0) 1"
  by (rule transition_host_safe) (simp_all add: transition_ok_def)

lemma run_okD:
  assumes "run_ok W (total_supply W (t_state t)) t c m"
  obtains r t' where "m = Some (r, t')" "GasLeft r \<le> Gas c" "t_ctx t' = t_ctx t" "t_config t' = t_config t"
    "total_supply W (t_state t') \<le> total_supply W (t_state t)"
proof -
  obtain r t' where *: "m = Some (r, t')" "GasLeft r \<le> Gas c" "trans_inv W (total_supply W (t_state t)) t t'"
    using assms by (auto simp: run_ok_def)
  then have "t'\<lparr>t_state := t_state t\<rparr> = t" by (simp add: trans_inv_def frame_def)
  then have "t_ctx t' = t_ctx t" "t_config t' = t_config t"
    by (metis Transition.select_convs(4) Transition.surjective Transition.update_convs(2),
        metis Transition.select_convs(1) Transition.surjective Transition.update_convs(2))
  with * show thesis by (auto simp: trans_inv_def state_ok_def intro: that)
qed

lemma Create2_ok:
  assumes "transition_ok W t" and "in_range v" and "unat g < gas_cap" and "length cd < 2 ^ 62"
  shows "run_ok W (total_supply W (t_state t)) t (NewContractCreation 1 caller caller
    (tx_CreateAddress W caller (Txn_GetNonce W (t_state t) caller)) (Some v) g cd)
    (Transition_Create2 W caller cd v g t)"
  unfolding Transition_Create2_def Let_def
  by (rule applyCreate_safe [OF _ transition_ok_inv [OF assms(1)]])
    (use top_host [OF assms(1)] assms(2-4) in
      \<open>simp_all add: contract_ok_def NewContractCreation_def NewContract_def\<close>)

lemma Call2_ok:
  assumes "transition_ok W t" and "in_range v" and "unat g < gas_cap" and "length input < 2 ^ 62"
  shows "run_ok W (total_supply W (t_state t)) t (NewContractCall 1 caller caller to (Some v) g
    (fst (Txn_GetCode W (t_state t) to)) input) (Transition_Call2 W caller to input v g t)"
proof -
  note inv = Txn_GetCode_inv [OF transition_ok_inv [OF assms(1)], of to]
  show ?thesis
    unfolding Transition_Call2_def Let_def case_prod_beta
    by (rule applyCall_safe [OF _ inv(1)])
      (use top_host [OF assms(1)] inv(2) assms(2-4) in
        \<open>simp_all add: contract_ok_def NewContractCall_def NewContract_def short_def\<close>)
qed

text \<open>Executing the transaction after it has been charged, and settling it.\<close>

lemma execute_supply:
  assumes "transition_ok W t" and "tx_ok tx" and "london_block W t b" and "TxValue tx = Some v"
    and "checkDynamicFees LondonFixForkV2 tx True (Some b) = Some None" and "unat g \<le> unat (TxGas tx)"
    and "m = Transition_Create2 W (From tx) (TxInput tx) v g t \<or>
      (\<exists>to. m = Transition_Call2 W (From tx) to (TxInput tx) v g t)"
  shows "\<exists>r t1 r' t'. m = Some (r, t1) \<and> settle W tx (GetGasPrice tx (Uint64 b)) r t1 = Some (r', t') \<and>
    total_supply W (t_state t') \<le> total_supply W (t_state t) + uint (TxGas tx) * GetGasPrice tx (Uint64 b)"
proof -
  have tx: "in_range v" "unat g < gas_cap" "length (TxInput tx) < 2 ^ 62" "fee_fields tx" "Tx_Type tx \<noteq> StateTx"
    using assms(2,4,6) by (auto simp: tx_ok_def)
  obtain c where "run_ok W (total_supply W (t_state t)) t c m" "Gas c = g"
    using assms(7) Create2_ok [OF assms(1) tx(1-3)] Call2_ok [OF assms(1) tx(1-3)]
    by (auto simp: NewContractCreation_def NewContractCall_def NewContract_def) fastforce+
  then obtain r t1 where run: "m = Some (r, t1)" "GasLeft r \<le> g" "t_ctx t1 = t_ctx t" "t_config t1 = t_config t"
      "total_supply W (t_state t1) \<le> total_supply W (t_state t)"
    by (auto elim: run_okD)
  have "GasLeft r \<le> TxGas tx" using run(2) assms(6) by (simp add: word_le_nat_alt)
  moreover have "london_rules W t1 = Some LondonFixForkV2" "London (t_config t1)" "BaseFee (t_ctx t1) = Some b"
      "0 < b" "b < 2 ^ 64"
    using assms(3) run(3,4) by (simp_all add: london_block_def london_rules_def)
  ultimately show ?thesis
    using settle_supply [of t1 b tx r] assms(5) tx(4,5) run(1,5) by fastforce
qed

lemma IncrNonce_ok:
  assumes "transition_ok W t"
  shows "transition_ok W (t\<lparr>t_state := snd (IncrNonce W a (t_state t))\<rparr>)"
    and "total_supply W (snd (IncrNonce W a (t_state t))) \<le> total_supply W (t_state t)"
proof -
  have "state_ok W (total_supply W (t_state t)) (t_state t)"
    using assms by (simp add: transition_ok_def state_ok_def)
  from sl.state_ok_ops(8) [OF this, of a] tree_step_ops(13) [of "t_state t" W a] assms
  show "transition_ok W (t\<lparr>t_state := snd (IncrNonce W a (t_state t))\<rparr>)"
    and "total_supply W (snd (IncrNonce W a (t_state t))) \<le> total_supply W (t_state t)"
    by (auto simp: transition_ok_def state_ok_def tree_step_def code_ok_def)
qed

text \<open>The transition once the transaction is accepted, and with its nonce used up.\<close>

definition accepted :: "Transaction \<Rightarrow> int \<Rightarrow> ('t, 'c) Txn \<Rightarrow> ('t, 'c) Transition \<Rightarrow> ('t, 'c) Transition" where
  "accepted tx price s t = t\<lparr>t_state := s, t_gasPool := t_gasPool t - TxGas tx,
     t_ctx := (t_ctx t)\<lparr>CtxGasPrice := BytesToHash (Bytes price), CtxOrigin := From tx\<rparr>\<rparr>"

lemma accepted_supply:
  assumes t3: "transition_ok W t3" "london_block W t3 b" and tx: "tx_ok tx" and v: "TxValue tx = Some v"
    and free: "checkDynamicFees LondonFixForkV2 tx True (Some b) = Some None" and g: "unat g \<le> unat (TxGas tx)"
    and m: "m = Transition_Create2 W (From tx) (TxInput tx) v g t3 \<or>
      (\<exists>to. m = Transition_Call2 W (From tx) to (TxInput tx) v g
         (t3\<lparr>t_state := snd (IncrNonce W (From tx) (t_state t3))\<rparr>))"
  shows "\<exists>r t1 r' t'. m = Some (r, t1) \<and> settle W tx (GetGasPrice tx (Uint64 b)) r t1 = Some (r', t') \<and>
    total_supply W (t_state t') \<le> total_supply W (t_state t3) + uint (TxGas tx) * GetGasPrice tx (Uint64 b)"
proof -
  let ?t4 = "t3\<lparr>t_state := snd (IncrNonce W (From tx) (t_state t3))\<rparr>"
  note nonce = IncrNonce_ok [OF t3(1), of "From tx"]
  have "london_block W ?t4 b" using t3(2) by (simp add: london_block_def london_rules_def)
  then obtain t5 where t5: "transition_ok W t5" "london_block W t5 b"
      "total_supply W (t_state t5) \<le> total_supply W (t_state t3)"
      "m = Transition_Create2 W (From tx) (TxInput tx) v g t5 \<or>
       (\<exists>to. m = Transition_Call2 W (From tx) to (TxInput tx) v g t5)"
    using m t3 nonce by (elim disjE exE) (auto intro: that)
  from execute_supply [OF t5(1) tx t5(2) v free g t5(4)] obtain r t1 r' t' where
    "m = Some (r, t1)" "settle W tx (GetGasPrice tx (Uint64 b)) r t1 = Some (r', t')"
    "total_supply W (t_state t') \<le> total_supply W (t_state t5) + uint (TxGas tx) * GetGasPrice tx (Uint64 b)"
    by auto
  with t5(3) show ?thesis by auto
qed

lemma charged_supply:
  assumes chk: "checkAndProcessTx W tx t = Some (None, t\<lparr>t_state := s\<rparr>)"
    and s: "total_supply W s = total_supply W (t_state t) - uint (TxGas tx) * GetGasPrice tx (Uint64 b)"
      "total_supply W s \<le> total_supply W (t_state t)"
    and t3: "transition_ok W (accepted tx (GetGasPrice tx (Uint64 b)) s t)" and b: "london_block W t b"
    and tx: "tx_ok tx" and free: "checkDynamicFees LondonFixForkV2 tx True (Some b) = Some None"
  shows "\<exists>r t'. transition_apply W tx t = Some (r, t') \<and> total_supply W (t_state t') \<le> total_supply W (t_state t)"
proof -
  let ?t3 = "accepted tx (GetGasPrice tx (Uint64 b)) s t"
  obtain v where v: "TxValue tx = Some v" using tx by (auto simp: tx_ok_def split: option.splits)
  have ty: "Tx_Type tx \<noteq> StateTx" using tx by (simp add: tx_ok_def)
  have b3: "london_block W ?t3 b" and base: "BaseFee (t_ctx t) = Some b" and s3: "t_state ?t3 = s"
    using b by (simp_all add: accepted_def london_block_def london_rules_def)
  show ?thesis
  proof (cases "t_gasPool t < TxGas tx")
    case True
    then show ?thesis using chk ty s(2) by (simp add: transition_apply_def subGasPool_def)
  next
    case pool: False
    show ?thesis
    proof (cases "TransactionGasCost tx (Homestead (t_config t)) (Istanbul (t_config t))")
      case (Inl e)
      then show ?thesis using pool chk ty s(2) by (simp add: transition_apply_def subGasPool_def)
    next
      case (Inr c)
      define g where "g = TxGas tx - c"
      show ?thesis
      proof (cases "TxGas tx < g")
        case True
        then show ?thesis using Inr pool chk ty s(2) by (simp add: transition_apply_def subGasPool_def g_def)
      next
        case False
        then have le: "unat g \<le> unat (TxGas tx)" by (simp add: not_less word_le_nat_alt)
        note run = accepted_supply [OF t3 b3 tx v free le, unfolded s3]
        note step = False Inr pool chk ty base v
        show ?thesis
        proof (cases "To tx")
          case None
          from run [OF disjI1, OF refl] obtain r t1 r' t' where
            "Transition_Create2 W (From tx) (TxInput tx) v g ?t3 = Some (r, t1)"
            "settle W tx (GetGasPrice tx (Uint64 b)) r t1 = Some (r', t')"
            "total_supply W (t_state t') \<le> total_supply W (t_state t)"
            using s(1) by auto
          then show ?thesis using None step
            by (simp add: transition_apply_def subGasPool_def g_def accepted_def Let_def)
        next
          case (Some to)
          from run [OF disjI2, OF exI, OF refl, of to] obtain r t1 r' t' where
            run: "Transition_Call2 W (From tx) to (TxInput tx) v g (?t3\<lparr>t_state := snd (IncrNonce W (From tx) s)\<rparr>) =
              Some (r, t1)" "settle W tx (GetGasPrice tx (Uint64 b)) r t1 = Some (r', t')"
            "total_supply W (t_state t') \<le> total_supply W (t_state t)"
            using s(1) by auto
          obtain e4 s4 where s4: "IncrNonce W (From tx) s = (e4, s4)" by fastforce
          have "total_supply W s4 \<le> total_supply W (t_state t)"
            using IncrNonce_ok(2) [OF t3, of "From tx"] s3 s4 s(2) by simp
          then show ?thesis using Some step run s4
            by (cases e4) (simp_all add: transition_apply_def subGasPool_def g_def accepted_def Let_def)
        qed
      qed
    qed
  qed
qed

lemma apply_supply:
  assumes t: "transition_ok W t" and tx: "tx_ok tx" and b: "london_block W t b"
  shows "\<exists>r t'. transition_apply W tx t = Some (r, t') \<and> total_supply W (t_state t') \<le> total_supply W (t_state t)"
proof -
  have fee: "fee_fields tx" "Tx_Type tx \<noteq> StateTx" using tx by (simp_all add: tx_ok_def)
  let ?cost = "uint (TxGas tx) * GetGasPrice tx (Uint64 b)"
  obtain e s where chk: "checkAndProcessTx W tx t = Some (e, t\<lparr>t_state := s\<rparr>)" "tree_step (t_state t) s"
      "dirty_ok W s"
    and e: "if e = None then checkDynamicFees LondonFixForkV2 tx True (Some b) = Some None \<and>
        total_supply W s = total_supply W (t_state t) - ?cost else s = t_state t"
    using checkAndProcessTx_charge [OF b fee(1)] t by (auto simp: transition_ok_def)
  show ?thesis
  proof (cases e)
    case (Some y)
    then show ?thesis using chk(1) e fee(2) by (simp add: transition_apply_def)
  next
    case None
    then have free: "checkDynamicFees LondonFixForkV2 tx True (Some b) = Some None"
      and s: "total_supply W s = total_supply W (t_state t) - ?cost" using e by simp_all
    obtain tip where "0 \<le> tip" "tip + b = GetGasPrice tx (Uint64 b)"
      using fee_parts [OF free fee(1)] b unfolding london_block_def by metis
    then have le: "total_supply W s \<le> total_supply W (t_state t)"
      using s b by (simp add: london_block_def)
    have "transition_ok W (accepted tx (GetGasPrice tx (Uint64 b)) s t)"
      using t chk(2,3) le by (auto simp: transition_ok_def accepted_def context_ok_def tree_step_def code_ok_def)
    then show ?thesis using charged_supply [OF _ s le _ b tx free] chk(1) None by simp
  qed
qed

end


definition sample_tx :: Transaction where
  "sample_tx = \<lparr>TxNonce = 0, TxGasPrice = None, GasTipCap = Some 2, GasFeeCap = Some 20, TxGas = 21000,
     To = Some 9, TxValue = Some 5, TxInput = [], TxV = None, TxR = None, TxS = None, TxHash = 0, From = 1,
     Tx_Type = DynamicFeeTx, TxChainID = None\<rparr>"

lemma sample_ok: "tx_ok sample_tx" "london_block list_world (funded_transition a n) 7"
  by (simp_all add: tx_ok_def sample_tx_def fee_fields_def DynamicFeeTx_def StateTx_def in_range_def london_block_def
      london_rules_def funded_transition_def list_transition_def all_forks_def empty_context_def list_world_def
      GetLondonFixHandler_def GetHandler_def empty_manager_def)




end
