(* ===== verification/Transition_Errors.thy ===== *)
theory Transition_Errors
  imports Transition_Fees
begin

text \<open>
  The error paths of the transition: what a rejected transaction leaves behind, and
  the cases in which the code does not undo or does not charge what it should.
\<close>

section \<open>Rejected transactions\<close>

text \<open>A transaction is rejected before it takes a snapshot of its own.\<close>

lemma subGasPool_state: "t_state (snd (subGasPool g t)) = t_state t"
  by (simp add: subGasPool_def)

lemma checkAndProcessTx_step:
  assumes "checkAndProcessTx W tx t = Some (e, t')"
  shows "tree_step (t_state t) (t_state t')"
proof -
  have "tree_step (t_state t) (t_state t'')" if sub: "subGasLimitPrice W tx t = Some (e, t'')" for e t''
  proof -
    obtain v cost where v: "london_rules W t = Some v" "getUpfrontGasCost v tx (BaseFee (t_ctx t)) = Some cost"
      using sub by (auto simp: subGasLimitPrice_def bind_eq_Some_conv)
    obtain x s where x: "SubBalance W (From tx) cost (t_state t) = (x, s)" by fastforce
    then have "tree_step (t_state t) s" using tree_step_ops(12) [of "t_state t" W "From tx" cost] by simp
    then show ?thesis using sub v x by (cases x) (auto simp: subGasLimitPrice_def)
  qed
  then show ?thesis
    using assms by (auto simp: checkAndProcessTx_def bind_eq_Some_conv split: option.splits if_splits)
qed

lemma transition_apply_rejected:
  assumes "transition_apply W tx t = Some (Inl e, t')"
  shows "tree_step (t_state t) (t_state t')"
proof -
  obtain e1 t1 where t1: "(if Tx_Type tx = StateTx then do { e \<leftarrow> checkAndProcessStateTx tx; Some (e, t) }
      else checkAndProcessTx W tx t) = Some (e1, t1)"
    using assms by (auto simp: transition_apply_def bind_eq_Some_conv split: if_splits)
  have step: "tree_step (t_state t) (t_state t1)"
    using t1 checkAndProcessTx_step by (auto simp: bind_eq_Some_conv split: if_splits)
  obtain e2 t2 where t2: "subGasPool (TxGas tx) t1 = (e2, t2)" by fastforce
  have s2: "t_state t2 = t_state t1" using subGasPool_state [of "TxGas tx" t1] t2 by simp
  obtain e4 s4 where s4: "IncrNonce W (From tx) (t_state t1) = (e4, s4)" by fastforce
  have step4: "tree_step (t_state t) s4"
    using tree_step_trans [OF step tree_step_ops(13) [of "t_state t1" W "From tx"]] s4 by simp
  show ?thesis
    using assms step s2 s4 step4 unfolding transition_apply_def t1
    by (cases e1; cases e2; cases "To tx"; cases e4)
      (auto simp: t2 Let_def bind_eq_Some_conv split: sum.splits if_splits)
qed

text \<open>
  C5. A rejected transaction leaves no trace in the state: whatever check fails, and
  whatever was charged before it failed, the tree of accounts is the one from before.
\<close>

theorem rejected_tx_restores:
  assumes "Apply W None tx t = Some (Inl e, t')"
  shows "txn (t_state t') = txn (t_state t) \<and> snapshot (t_state t') = snapshot (t_state t)"
proof -
  define s where "s = snd (Snapshot (t_state t))"
  have s: "Snapshot (t_state t) = (length (snapshots (t_state t)), s)"
      "snapshots s = snapshots (t_state t) @ [txn (t_state t)]" "snapshot s = snapshot (t_state t)"
    by (simp_all add: s_def Snapshot_def)
  obtain x t1 where x: "transition_apply W tx (t\<lparr>t_state := s\<rparr>) = Some (x, t1)"
    using assms by (auto simp: Apply_def s bind_eq_Some_conv)
  show ?thesis
  proof (cases x)
    case (Inl e1)
    then have "tree_step s (t_state t1)" using transition_apply_rejected x by fastforce
    then show ?thesis using assms x Inl s
      by (auto simp: Apply_def RevertToSnapshot_def tree_step_def)
  next
    case (Inr r)
    then show ?thesis using assms x s by (simp add: Apply_def)
  qed
qed

theorem rejected_tx_restores_witness:
  "\<exists>e t'. Apply list_world None (sample_tx\<lparr>TxNonce := 4\<rparr>) (funded_transition 1 1000000) = Some (Inl e, t') \<and>
     txn (t_state t') = txn (t_state (funded_transition 1 1000000))"
proof -
  let ?tx = "sample_tx\<lparr>TxNonce := 4\<rparr>" and ?t = "funded_transition 1 1000000"
  have "Txn_GetNonce list_world (snd (Snapshot (t_state ?t))) 1 = 0"
    by (simp add: Snapshot_def funded_transition_def list_transition_def AddBalance_def upsertAccount_def
        newTxn_def list_world_def list_radix_def empty_snapshot_def Txn_GetNonce_def getStateObject_def
        new_object_def set_balance_def StateObject_Copy_def Account_Copy_def)
  then have "nonceCheck list_world ?tx (?t\<lparr>t_state := snd (Snapshot (t_state ?t))\<rparr>) = Some ErrNonceIncorrect"
    by (simp add: nonceCheck_def sample_tx_def)
  then have "transition_apply list_world ?tx (?t\<lparr>t_state := snd (Snapshot (t_state ?t))\<rparr>) =
      Some (Inl (TransitionApplicationError ErrNonceIncorrect True), ?t\<lparr>t_state := snd (Snapshot (t_state ?t))\<rparr>)"
    by (simp add: transition_apply_def checkAndProcessTx_def sample_tx_def DynamicFeeTx_def StateTx_def)
  then have "\<exists>t'. Apply list_world None ?tx ?t =
      Some (Inl (TransitionApplicationError ErrNonceIncorrect True), t')"
    by (simp add: Apply_def Snapshot_def RevertToSnapshot_def)
  with rejected_tx_restores show ?thesis by blast
qed

section \<open>Where the code goes wrong\<close>

lemmas sample_defs = Apply_def transition_apply_def checkAndProcessTx_def nonceCheck_def Txn_GetNonce_def
  getStateObject_def funded_transition_def list_transition_def AddBalance_def upsertAccount_def newTxn_def
  list_world_def list_radix_def empty_snapshot_def Snapshot_def RevertToSnapshot_def sample_tx_def
  new_object_def set_balance_def StateObject_Copy_def Account_Copy_def SetBytes_Bytes DynamicFeeTx_def StateTx_def
  empty_context_def london_rules_def GetLondonFixHandler_def GetHandler_def empty_manager_def all_forks_def
  checkDynamicFees_def checkDynamicFees_V2_def check_caps_def GetGasFeeCap_def subGasLimitPrice_def
  getUpfrontGasCost_def getUpfrontGasCost_V2_def GetGasPrice_def SubBalance_def Txn_GetBalance_def
  subGasPool_def TransactionGasCost_def TxGas_default_def TxGasContractCreation_def IsContractCreation_def
  Address_Bytes_inject Uint64_def BitLen_def nat_BitLen.simps
  applyCreate_def IncrNonce_def NewContractCreation_def NewContract_def hasCodeOrNonce_def Txn_GetCodeHash_def
  CreateAccount_def Transition_Transfer_def deploy_access_def GetRole_def transition_ref_def Txn_GetState_def
  Role_Enabled_def AdminRole_def EnabledRole_def ZeroHash_def no_result_def set_nonce_def Let_def


text \<open>
  C37. A dynamic-fee transaction with both caps zero passes the fee check whatever the base
  fee is.  It costs its sender nothing, and the tip it pays is negative: the base fee is
  taken from the producer.
\<close>

theorem zero_caps_negative_tip:
  "let tx' = tx\<lparr>Tx_Type := DynamicFeeTx, TxGasPrice := None, GasFeeCap := Some 0, GasTipCap := Some 0\<rparr>;
       b = Some (int (Suc n))
   in checkDynamicFees LondonFixForkV2 tx' True b = Some None \<and>
      getUpfrontGasCost LondonFixForkV2 tx' b = Some 0 \<and>
      getEffectiveTip LondonFixForkV2 tx' 0 b True = Some (- int (Suc n))"
  by (simp add: Let_def checkDynamicFees_def checkDynamicFees_V2_def check_caps_def getUpfrontGasCost_def
      getUpfrontGasCost_V2_def GetGasPrice_def getEffectiveTip_def getEffectiveTip_V2_def EffectiveGasTip_def
      GetGasTipCap_def GetGasFeeCap_def)

text \<open>
  C38. In a block whose base fee is zero a dynamic-fee transaction costs its sender nothing,
  but its producer is still paid the tip: the money is created.
\<close>

theorem zero_base_fee_mints_tip:
  "let tx' = tx\<lparr>Tx_Type := DynamicFeeTx, TxGasPrice := None, GasFeeCap := Some (tip + d), GasTipCap := Some tip\<rparr>
   in getUpfrontGasCost LondonFixForkV2 tx' (Some 0) = Some 0 \<and>
      getEffectiveTip LondonFixForkV2 tx' 0 (Some 0) True = Some tip"
  by (simp add: Let_def getUpfrontGasCost_def getUpfrontGasCost_V2_def GetGasPrice_def getEffectiveTip_def
      getEffectiveTip_V2_def EffectiveGasTip_def GetGasTipCap_def Uint64_def)


end
