(* ===== verification/Trie.thy ===== *)
theory Trie
  imports Edge_Types
begin

text \<open>
  The Merkle-Patricia trie of the world state (\<open>state/immutable-trie\<close>): encoding of
  keys, nodes, lookup, insertion and deletion, and the decoding of stored nodes.

  A node caches its hash and the epoch of the transaction that owns it; neither
  changes what a trie contains, so they are not part of the model, and neither is the
  replacement of a reference by the node that a lookup has read from the storage.
\<close>

section \<open>Keys\<close>

definition hasTerminator :: "byte list \<Rightarrow> bool" where
  "hasTerminator hex = (if hex = [] then False else last hex = 16)"

fun pack_nibbles :: "byte list \<Rightarrow> byte list" where
  "pack_nibbles (a # b # hex) = (push_bit 4 a OR b) # pack_nibbles hex"
| "pack_nibbles _ = []"

definition encodeCompact :: "byte list \<Rightarrow> byte list" where
  "encodeCompact hex =
     (let terminator = (if hasTerminator hex then 1 else 0);
          hex = (if hasTerminator hex then butlast hex else hex);
          oddLen = length hex mod 2;
          flag = of_nat (2 * terminator + oddLen)
      in pack_nibbles (if oddLen = 1 then flag # hex else flag # 0 # hex))"

definition bytesToHexNibbles :: "byte list \<Rightarrow> byte list" where
  "bytesToHexNibbles bs = concat (map (\<lambda>b. [b div 16, b mod 16]) bs) @ [16]"

text \<open>The code reads the first nibble and, for an even length, drops two: \<open>None\<close> is a panic.\<close>

definition decodeCompact :: "byte list \<Rightarrow> byte list go" where
  "decodeCompact compact = do {
     let base = bytesToHexNibbles compact;
     let flag = base ! 0;
     let base = (if flag < 2 then butlast base else base);
     if base = [] then None
     else if base ! 0 AND 1 = 1 then Some (drop 1 base)
     else if length base < 2 then None else Some (drop 2 base) }"

section \<open>Nodes\<close>

text \<open>A value node is the value of a leaf, or the hash of a node in the storage.\<close>

datatype Node =
    ValueNode bool "byte list"
  | ShortNode "byte list" "Node option"
  | FullNode "Node option" "Node option list"

definition empty_full :: "Node option \<Rightarrow> Node" where
  "empty_full v = FullNode v (replicate 16 None)"

text \<open>The edges of a full node: index 16 is its value, an index above is out of range.\<close>

definition getEdge :: "Node option \<Rightarrow> Node option list \<Rightarrow> byte \<Rightarrow> Node option go" where
  "getEdge v cs idx =
     (if idx = 16 then Some v else if unat idx < length cs then Some (cs ! unat idx) else None)"

definition setEdge :: "Node option \<Rightarrow> Node option list \<Rightarrow> byte \<Rightarrow> Node option \<Rightarrow> Node go" where
  "setEdge v cs idx e =
     (if idx = 16 then Some (FullNode e cs)
      else if unat idx < length cs then Some (FullNode v (cs[unat idx := e])) else None)"

fun prefixLen :: "byte list \<Rightarrow> byte list \<Rightarrow> nat" where
  "prefixLen (a # as) (b # bs) = (if a = b then Suc (prefixLen as bs) else 0)"
| "prefixLen _ _ = 0"

section \<open>Stored nodes\<close>

text \<open>A parsed RLP value.\<close>

datatype rlp_value = TypeBytes "byte list" | TypeArray "rlp_value list"

text \<open>
  The storage returns the bytes stored under a hash, nothing, or an error, and the
  parser a value or an error; both are third-party code.
\<close>

record Storage =
  storage_Get :: "byte list \<Rightarrow> (unit, byte list option) sum"
  rlp_Parse :: "byte list \<Rightarrow> rlp_value option"

text \<open>
  A decoding error is \<open>Inl\<close> and \<open>None\<close> a panic.  \<open>rs\<close> are the decoded elements of \<open>vs\<close>,
  of which only those are looked at that the code decodes.
\<close>

fun decode_children :: "rlp_value list \<Rightarrow> (unit + Node) go list \<Rightarrow> (unit + Node option list) go" where
  "decode_children (v # vs) (r # rs) = do {
     c \<leftarrow> (if v = TypeBytes [] then Some (Inr None)
          else do { n \<leftarrow> r; Some (case n of Inl e \<Rightarrow> Inl e | Inr n \<Rightarrow> Inr (Some n)) });
     case c of
       Inl e \<Rightarrow> Some (Inl e)
     | Inr c \<Rightarrow> do {
         cs \<leftarrow> decode_children vs rs;
         Some (case cs of Inl e \<Rightarrow> Inl e | Inr cs \<Rightarrow> Inr (c # cs)) } }"
| "decode_children _ _ = Some (Inr [])"

definition decode_short :: "rlp_value list \<Rightarrow> (unit + Node) go list \<Rightarrow> (unit + Node) go" where
  "decode_short vs rs =
     (case vs ! 0 of
        TypeArray _ \<Rightarrow> Some (Inl ())
      | TypeBytes raw \<Rightarrow> do {
          key \<leftarrow> decodeCompact raw;
          if hasTerminator key
          then Some (case vs ! 1 of
                       TypeBytes v \<Rightarrow> Inr (ShortNode key (Some (ValueNode False v)))
                     | TypeArray _ \<Rightarrow> Inl ())
          else do {
            c \<leftarrow> rs ! 1;
            Some (case c of Inl e \<Rightarrow> Inl e | Inr n \<Rightarrow> Inr (ShortNode key (Some n))) } })"

definition decode_full :: "rlp_value list \<Rightarrow> (unit + Node) go list \<Rightarrow> (unit + Node) go" where
  "decode_full vs rs = do {
     cs \<leftarrow> decode_children (take 16 vs) (take 16 rs);
     Some (case cs of
             Inl e \<Rightarrow> Inl e
           | Inr cs \<Rightarrow>
               (case vs ! 16 of
                  TypeArray _ \<Rightarrow> Inl ()
                | TypeBytes v \<Rightarrow>
                    Inr (FullNode (if v = [] then None else Some (ValueNode False v)) cs))) }"

primrec decodeNode :: "rlp_value \<Rightarrow> (unit + Node) go" where
  "decodeNode (TypeBytes raw) = Some (Inr (ValueNode True raw))"
| "decodeNode (TypeArray vs) =
     (let rs = map decodeNode vs in
      if length vs = 2 then decode_short vs rs
      else if length vs = 17 then decode_full vs rs
      else Some (Inl ()))"

text \<open>A node, nothing, or an error.\<close>

definition GetNode :: "Storage \<Rightarrow> byte list \<Rightarrow> (unit + Node option) go" where
  "GetNode S root =
     (case storage_Get S root of
        Inl e \<Rightarrow> Some (Inl e)
      | Inr None \<Rightarrow> Some (Inr None)
      | Inr (Some data) \<Rightarrow>
          if data = [] then Some (Inr None)
          else case rlp_Parse S data of
            Some (TypeArray vs) \<Rightarrow>
              map_option (\<lambda>r. case r of Inl e \<Rightarrow> Inl e | Inr n \<Rightarrow> Inr (Some n)) (decodeNode (TypeArray vs))
          | _ \<Rightarrow> Some (Inl ()))"

text \<open>The operations on a trie panic when the storage returns an error.\<close>

definition resolve :: "Storage \<Rightarrow> byte list \<Rightarrow> Node option go" where
  "resolve S buf = do { r \<leftarrow> GetNode S buf; case r of Inl e \<Rightarrow> None | Inr n \<Rightarrow> Some n }"

section \<open>Lookup\<close>

text \<open>
  A step into a stored node uses one unit of fuel; every other step goes to a smaller
  node.
\<close>

text \<open>
  A lookup through a full node stores the node it has read at the edge of the key, and
  panics when this is the edge of the value, which is not among the children.
\<close>

definition reads_node :: "Storage \<Rightarrow> Node option \<Rightarrow> bool" where
  "reads_node S v =
     (case v of Some (ValueNode True buf) \<Rightarrow> resolve S buf \<noteq> Some None | _ \<Rightarrow> False)"

lemma size_child: "i < length cs \<Longrightarrow> size_option size (cs ! i) < Suc (Suc (k + size_list (size_option size) cs))"
  using size_list_estimation' [of "cs ! i" cs "size_option size (cs ! i)" "size_option size"] by fastforce

function (sequential) lookup :: "Storage \<Rightarrow> nat \<Rightarrow> Node option \<Rightarrow> byte list \<Rightarrow> byte list option go" where
  "lookup S f None key = Some None"
| "lookup S 0 (Some (ValueNode True buf)) key = None"
| "lookup S (Suc f) (Some (ValueNode True buf)) key = do {
     n \<leftarrow> resolve S buf;
     if n = None then Some None else lookup S f n key }"
| "lookup S f (Some (ValueNode False buf)) key = Some (if key = [] then Some buf else None)"
| "lookup S f (Some (ShortNode k c)) key =
     (if length key < length k \<or> take (length k) key \<noteq> k then Some None
      else lookup S f c (drop (length k) key))"
| "lookup S f (Some (FullNode v cs)) [] = lookup S f v []"
| "lookup S f (Some (FullNode v cs)) (x # xs) =
     (if x = 16 then do { r \<leftarrow> lookup S f v xs; if reads_node S v then None else Some r }
      else if unat x < length cs then lookup S f (cs ! unat x) xs else None)"
  by pat_completeness auto
termination
  by (relation "measures [\<lambda>(S, f, n, key). f, \<lambda>(S, f, n, key). size_option size n]") (auto simp: size_child)

definition Trie_Get :: "Storage \<Rightarrow> nat \<Rightarrow> Node option \<Rightarrow> byte list \<Rightarrow> byte list option go" where
  "Trie_Get S f root k = lookup S f root (bytesToHexNibbles k)"

section \<open>Insertion\<close>

text \<open>What bounds the steps that do not shorten the key.\<close>

fun rank :: "bool \<Rightarrow> Node option \<Rightarrow> nat" where
  "rank e None = 0"
| "rank e (Some (ValueNode h b)) = 1"
| "rank e (Some (ShortNode k c)) = 2 * length k + 2 + rank e c"
| "rank e (Some (FullNode v cs)) = (if e then 1 + rank e v else 0)"

text \<open>The branch that replaces a short node whose key splits at position \<open>p\<close>.\<close>

definition split_short :: "byte list \<Rightarrow> Node option \<Rightarrow> nat \<Rightarrow> Node go" where
  "split_short k c p =
     setEdge None (replicate 16 None) (k ! p) (if p + 1 < length k then Some (ShortNode (drop (p + 1) k) c) else c)"

lemma prefixLen_le: "prefixLen as bs \<le> length as" "prefixLen as bs \<le> length bs"
  by (induction as bs rule: prefixLen.induct) auto

lemma split_short_rank:
  "split_short k c p = Some n \<Longrightarrow> p < length k \<Longrightarrow> rank e (Some n) < 2 * length k + 2 + rank e c"
  by (auto simp: split_short_def setEdge_def split: if_splits)

function (sequential) insert :: "Storage \<Rightarrow> nat \<Rightarrow> Node option \<Rightarrow> byte list \<Rightarrow> byte list \<Rightarrow> Node option go" where
  "insert S f None search val =
     (if search = [] then Some (Some (ValueNode False val))
      else do { c \<leftarrow> insert S f None [] val; Some (Some (ShortNode search c)) })"
| "insert S 0 (Some (ValueNode True buf)) search val = None"
| "insert S (Suc f) (Some (ValueNode True buf)) search val = do {
     n \<leftarrow> resolve S buf;
     if n = None then Some None else insert S f n search val }"
| "insert S f (Some (ValueNode False buf)) search val =
     (if search = [] then Some (Some (ValueNode False val))
      else insert S f (Some (empty_full (Some (ValueNode False buf)))) search val)"
| "insert S f (Some (ShortNode k c)) search val =
     (let plen = prefixLen search k in
      if plen = length k then do {
        child \<leftarrow> insert S f c (drop plen search) val;
        Some (Some (ShortNode k child)) }
      else
        (case split_short k c plen of
           None \<Rightarrow> None
         | Some b \<Rightarrow> do {
             child \<leftarrow> insert S f (Some b) (drop plen search) val;
             Some (if plen = 0 then child else Some (ShortNode (take plen search) child)) }))"
| "insert S f (Some (FullNode v cs)) [] val = do {
     v \<leftarrow> insert S f v [] val;
     Some (Some (FullNode v cs)) }"
| "insert S f (Some (FullNode v cs)) (x # xs) val = do {
     child \<leftarrow> getEdge v cs x;
     newChild \<leftarrow> insert S f child xs val;
     n \<leftarrow> setEdge v cs x newChild;
     Some (Some n) }"
  by pat_completeness auto
termination
proof (relation "measures [\<lambda>(S, f, n, s, v). f, \<lambda>(S, f, n, s, v). length s, \<lambda>(S, f, n, s, v). rank (s = []) n]",
    goal_cases)
  case (5 S f k c search val plen)
  then show ?case using prefixLen_le(1) [of search k] by (cases k) auto
next
  case (6 S f k c search val plen b)
  then have p: "plen < length k" "plen \<le> length search"
    using prefixLen_le [of search k] by auto
  then show ?case using split_short_rank [OF 6(3) p(1)] by (cases "plen = 0") auto
qed (auto simp: empty_full_def)

definition Txn_Insert :: "Storage \<Rightarrow> nat \<Rightarrow> Node option \<Rightarrow> byte list \<Rightarrow> byte list \<Rightarrow> Node option go" where
  "Txn_Insert S f root key val = do {
     r \<leftarrow> insert S f root (bytesToHexNibbles key) val;
     Some (if r \<noteq> None then r else root) }"

section \<open>Deletion\<close>

datatype deleted = NotFound | Deleted "Node option"

text \<open>The first child of a full node, and whether it has another one.\<close>

fun scan_children :: "nat \<Rightarrow> nat option \<Rightarrow> Node option list \<Rightarrow> nat option \<times> bool" where
  "scan_children i indx [] = (indx, False)"
| "scan_children i indx (c # cs) =
     (if c \<noteq> None
      then if indx \<noteq> None then (indx, True) else scan_children (i + 1) (Some i) cs
      else scan_children (i + 1) indx cs)"

definition only_child :: "nat \<Rightarrow> Node option \<Rightarrow> deleted" where
  "only_child i nc =
     (case nc of
        Some (ShortNode k c) \<Rightarrow> Deleted (Some (ShortNode (of_nat i # k) c))
      | _ \<Rightarrow> Deleted (Some (ShortNode [of_nat i] nc)))"

definition collapse_full :: "Storage \<Rightarrow> Node option \<Rightarrow> Node option list \<Rightarrow> deleted go" where
  "collapse_full S v cs =
     (let (indx, more) = scan_children 0 None cs;
          notEmpty = (more \<or> (indx \<noteq> None \<and> v \<noteq> None)) in
      if notEmpty then Some (Deleted (Some (FullNode v cs)))
      else case indx of
        None \<Rightarrow>
          if v = None then Some (Deleted None)
          else Some (Deleted (Some (ShortNode [0x10] v)))
      | Some i \<Rightarrow>
          (case cs ! i of
             Some (ValueNode True buf) \<Rightarrow> do {
               aux \<leftarrow> resolve S buf;
               Some (if aux = None then NotFound else only_child i aux) }
           | nc \<Rightarrow> Some (only_child i nc)))"

definition merge_short :: "byte list \<Rightarrow> Node option \<Rightarrow> deleted" where
  "merge_short k child =
     (case child of
        None \<Rightarrow> Deleted None
      | Some (ShortNode k' c) \<Rightarrow> Deleted (Some (ShortNode (k @ k') c))
      | Some n \<Rightarrow> Deleted (Some (ShortNode k (Some n))))"

function (sequential) delete :: "Storage \<Rightarrow> nat \<Rightarrow> Node option \<Rightarrow> byte list \<Rightarrow> deleted go" where
  "delete S f None search = Some NotFound"
| "delete S f (Some (ShortNode k c)) search =
     (let plen = prefixLen search k in
      if plen = length search then Some (Deleted None)
      else if plen = 0 then Some NotFound
      else do {
        r \<leftarrow> delete S f c (drop plen search);
        Some (case r of NotFound \<Rightarrow> NotFound | Deleted child \<Rightarrow> merge_short k child) })"
| "delete S 0 (Some (ValueNode True buf)) search = None"
| "delete S (Suc f) (Some (ValueNode True buf)) search = do {
     n \<leftarrow> resolve S buf;
     if n = None then Some NotFound else delete S f n search }"
| "delete S f (Some (ValueNode False buf)) search =
     Some (if search \<noteq> [] then NotFound else Deleted None)"
| "delete S f (Some (FullNode v cs)) [] = None"
| "delete S f (Some (FullNode v cs)) (x # xs) =
     (let child = (if x = 16 then v else if unat x < length cs then cs ! unat x else None) in
      if x \<noteq> 16 \<and> length cs \<le> unat x then None
      else do {
        r \<leftarrow> delete S f child xs;
        (case r of
           NotFound \<Rightarrow> Some NotFound
         | Deleted newChild \<Rightarrow>
             if x = 16 then collapse_full S newChild cs
             else collapse_full S v (cs[unat x := newChild])) })"
  by pat_completeness auto
termination
  by (relation "measures [\<lambda>(S, f, n, key). f, \<lambda>(S, f, n, key). size_option size n]") (auto simp: size_child)

definition Txn_Delete :: "Storage \<Rightarrow> nat \<Rightarrow> Node option \<Rightarrow> byte list \<Rightarrow> Node option go" where
  "Txn_Delete S f root key = do {
     r \<leftarrow> delete S f root (bytesToHexNibbles key);
     Some (case r of Deleted n \<Rightarrow> n | NotFound \<Rightarrow> root) }"

section \<open>Hashing\<close>

text \<open>
  Keccak and the RLP encoder are third-party code; a null value of the encoder is the
  empty string.  The code reuses the hash that an unchanged node caches; the model
  computes it again, which yields the same hash and writes what is already stored.
\<close>

record Hasher =
  Keccak256 :: "byte list \<Rightarrow> byte list"
  rlp_Marshal :: "rlp_value \<Rightarrow> byte list"
  rlp_Len :: "rlp_value \<Rightarrow> nat"

type_synonym writes = "(byte list \<times> byte list) list"

definition hash_value :: "Hasher \<Rightarrow> rlp_value \<Rightarrow> writes \<Rightarrow> rlp_value \<times> writes" where
  "hash_value H val ws =
     (if rlp_Len H val < 32 then (val, ws)
      else let buf = rlp_Marshal H val; tmp = Keccak256 H buf in (TypeBytes tmp, ws @ [(tmp, buf)]))"

fun hash_children :: "(rlp_value \<times> writes) go option list \<Rightarrow> (rlp_value list \<times> writes) go" where
  "hash_children [] = Some ([], [])"
| "hash_children (None # rs) = do { (vs, ws) \<leftarrow> hash_children rs; Some (TypeBytes [] # vs, ws) }"
| "hash_children (Some r # rs) = do {
     (v, w) \<leftarrow> r;
     (vs, ws) \<leftarrow> hash_children rs;
     Some (v # vs, w @ ws) }"

text \<open>A short node without a child is a nil dereference.\<close>

primrec hash_node :: "Hasher \<Rightarrow> Node \<Rightarrow> (rlp_value \<times> writes) go" where
  "hash_node H (ValueNode h buf) = Some (TypeBytes buf, [])"
| "hash_node H (ShortNode k c) = do {
     r \<leftarrow> map_option (hash_node H) c;
     (child, ws) \<leftarrow> r;
     Some (hash_value H (TypeArray [TypeBytes (encodeCompact k), child]) ws) }"
| "hash_node H (FullNode v cs) = do {
     (vals, ws) \<leftarrow> hash_children (map (map_option (hash_node H)) cs @ [map_option (hash_node H) v]);
     Some (hash_value H (TypeArray vals) ws) }"

definition EmptyRootHash :: hash where
  "EmptyRootHash = 0x56e81f171bcc55a6ff8345e692c0f86e5b48e01b996cadc001622fb5e363b421"

definition Txn_Hash :: "Hasher \<Rightarrow> Node option \<Rightarrow> (byte list \<times> writes) go" where
  "Txn_Hash H root =
     (case root of
        None \<Rightarrow> Some (Hash_Bytes EmptyRootHash, [])
      | Some n \<Rightarrow> do {
          (val, ws) \<leftarrow> hash_node H n;
          Some (case val of
            TypeBytes raw \<Rightarrow>
              if rlp_Len H val \<noteq> 32 then (Keccak256 H raw, ws @ [(Keccak256 H raw, raw)]) else (raw, ws)
          | TypeArray _ \<Rightarrow>
              let tmp = rlp_Marshal H val in (Keccak256 H tmp, ws @ [(Keccak256 H tmp, tmp)])) })"

section \<open>Batches\<close>

text \<open>
  A batch of writes, a later one replacing an earlier one with the same key.
\<close>

definition Batch_Write :: "Storage \<Rightarrow> writes \<Rightarrow> Storage" where
  "Batch_Write S ws =
     S\<lparr>storage_Get := \<lambda>k. case map_of (rev ws) k of Some d \<Rightarrow> Inr (Some d) | None \<Rightarrow> storage_Get S k\<rparr>"

end
