(* ===== verification/Trie_Map.thy ===== *)
theory Trie_Map
  imports Trie
begin

text \<open>
  The trie as a map.  \<open>content\<close> is the content of a trie whose nodes are all in memory,
  \<open>canonical\<close> the shape that the operations keep; insertion and deletion are the
  updates of the map, and a canonical trie is determined by its content.
\<close>

section \<open>Keys\<close>

text \<open>The nibbles of a path, and of a whole key: nibbles and the terminator.\<close>

definition nibbles :: "byte list \<Rightarrow> bool" where
  "nibbles k = (\<forall>x \<in> set k. x < 16)"

fun term_key :: "byte list \<Rightarrow> bool" where
  "term_key [] = False"
| "term_key (x # xs) = (if xs = [] then x = 16 else x < 16 \<and> term_key xs)"

lemma nibbles_simps [simp]:
  "nibbles []" "nibbles (x # xs) \<longleftrightarrow> x < 16 \<and> nibbles xs" "nibbles (xs @ ys) \<longleftrightarrow> nibbles xs \<and> nibbles ys"
  by (auto simp: nibbles_def)

lemma term_key_nonempty: "term_key k \<Longrightarrow> k \<noteq> []"
  by auto

lemma term_key_append: "ys \<noteq> [] \<Longrightarrow> term_key (xs @ ys) \<longleftrightarrow> nibbles xs \<and> term_key ys"
  by (induction xs) auto

lemma term_key_not_nibbles: "term_key k \<Longrightarrow> nibbles k \<Longrightarrow> False"
  by (induction k) (auto split: if_splits)

lemma term_key_prefix: "term_key k \<Longrightarrow> term_key (k @ r) \<Longrightarrow> r = []"
  using term_key_append term_key_not_nibbles by blast

lemma term_key_edge: "term_key (x # xs) \<longleftrightarrow> (x = 16 \<and> xs = []) \<or> (x < 16 \<and> term_key xs)"
  by auto

lemma nibbles_bytes: "nibbles (concat (map (\<lambda>b :: byte. [b div 16, b mod 16]) bs))"
proof -
  have "unat b < 256" for b :: byte using unsigned_less [of b] by simp
  then have "b div 16 < 16 \<and> b mod 16 < 16" for b :: byte
    by (simp add: word_less_nat_alt unat_div unat_mod less_mult_imp_div_less)
  then show ?thesis by (induction bs) auto
qed

lemma term_key_bytes: "term_key (bytesToHexNibbles bs)"
  by (simp add: bytesToHexNibbles_def term_key_append nibbles_bytes)

lemma bytesToHexNibbles_eq_iff [simp]: "bytesToHexNibbles as = bytesToHexNibbles bs \<longleftrightarrow> as = bs"
proof
  assume "bytesToHexNibbles as = bytesToHexNibbles bs"
  then show "as = bs"
  proof (induction as arbitrary: bs)
    case (Cons a as)
    then obtain b bs' where bs: "bs = b # bs'" by (cases bs) (auto simp: bytesToHexNibbles_def)
    with Cons.prems have "a div 16 = b div 16" "a mod 16 = b mod 16"
      "bytesToHexNibbles as = bytesToHexNibbles bs'" by (auto simp: bytesToHexNibbles_def)
    moreover from this(1,2) have "a = b" by (metis word_mod_div_equality)
    ultimately show ?case using Cons.IH bs by simp
  qed (cases bs, auto simp: bytesToHexNibbles_def)
qed simp

lemma length_bytesToHexNibbles [simp]: "length (bytesToHexNibbles bs) = 2 * length bs + 1"
  by (induction bs) (auto simp: bytesToHexNibbles_def)

lemma prefixLen_all: "prefixLen s k = length k \<Longrightarrow> \<exists>r. s = k @ r"
  by (induction s k rule: prefixLen.induct) (auto split: if_splits)

lemma prefixLen_append [simp]: "prefixLen (q @ s) (q @ k) = length q + prefixLen s k"
  by (induction q) auto

text \<open>Two keys that part: the keys of a trie never end inside one another.\<close>

lemma prefixLen_split:
  "prefixLen s k < length k \<Longrightarrow> term_key s \<Longrightarrow> nibbles k \<or> term_key k \<Longrightarrow>
   \<exists>q x xs y ys. s = q @ x # xs \<and> k = q @ y # ys \<and> x \<noteq> y \<and> prefixLen s k = length q"
proof (induction s k rule: prefixLen.induct)
  case (1 a as b bs)
  show ?case
  proof (cases "a = b")
    case True
    with 1(2-) have "as \<noteq> []" "bs \<noteq> []" by (auto split: if_splits)
    with True 1(2-) have "prefixLen as bs < length bs" "term_key as" "nibbles bs \<or> term_key bs"
      by auto
    with 1(1) True obtain q x xs y ys
      where "as = q @ x # xs" "bs = q @ y # ys" "x \<noteq> y" "prefixLen as bs = length q" by blast
    then show ?thesis using True by (intro exI [of _ "a # q"]) auto
  next
    case False
    then show ?thesis by (intro exI [of _ "[]"]) auto
  qed
qed auto

section \<open>Content\<close>

function (sequential) content :: "Node option \<Rightarrow> byte list \<Rightarrow> byte list option" where
  "content None key = None"
| "content (Some (ValueNode h buf)) key = (if key = [] then Some buf else None)"
| "content (Some (ShortNode k c)) key =
     (if length key < length k \<or> take (length k) key \<noteq> k then None else content c (drop (length k) key))"
| "content (Some (FullNode v cs)) [] = content v []"
| "content (Some (FullNode v cs)) (x # xs) =
     (if x = 16 then content v xs else if unat x < length cs then content (cs ! unat x) xs else None)"
  by pat_completeness auto
termination
  by (relation "measure (\<lambda>(n, key). size_option size n)") (auto simp: size_child)

fun is_value :: "Node \<Rightarrow> bool" where
  "is_value (ValueNode _ _) = True"
| "is_value _ = False"

fun is_full :: "Node \<Rightarrow> bool" where
  "is_full (FullNode _ _) = True"
| "is_full _ = False"

definition occupied :: "Node option \<Rightarrow> Node option list \<Rightarrow> nat" where
  "occupied v cs = length (filter (\<lambda>c. c \<noteq> None) (v # cs))"

text \<open>
  All nodes are in memory; a leaf holds a value below a path that ends in the
  terminator, an extension holds a full node, and a full node has at least two edges.
\<close>

primrec canonical :: "Node \<Rightarrow> bool" where
  "canonical (ValueNode h b) = (\<not> h)"
| "canonical (ShortNode k c) =
     (pred_option id (map_option canonical c) \<and>
      (case c of
         Some (ValueNode h b) \<Rightarrow> term_key k
       | Some (FullNode v cs) \<Rightarrow> k \<noteq> [] \<and> nibbles k
       | _ \<Rightarrow> False))"
| "canonical (FullNode v cs) =
     (pred_option id (map_option canonical v) \<and> pred_option is_value v \<and>
      length cs = 16 \<and> list_all (pred_option id) (map (map_option canonical) cs) \<and>
      list_all (pred_option (\<lambda>n. \<not> is_value n)) cs \<and> 2 \<le> occupied v cs)"

text \<open>A trie: empty, or a canonical node that is not a bare value.\<close>

abbreviation trie_ok :: "Node option \<Rightarrow> bool" where
  "trie_ok \<equiv> pred_option (\<lambda>n. canonical n \<and> \<not> is_value n)"

definition full_ok :: "Node option \<Rightarrow> Node option list \<Rightarrow> bool" where
  "full_ok v cs \<longleftrightarrow> (\<forall>n. v = Some n \<longrightarrow> (\<exists>b. n = ValueNode False b)) \<and> length cs = 16 \<and> (\<forall>c \<in> set cs. trie_ok c)"

lemma canonical_Full: "canonical (FullNode v cs) \<longleftrightarrow> full_ok v cs \<and> 2 \<le> occupied v cs"
proof -
  have "pred_option id (map_option canonical v) \<and> pred_option is_value v
      \<longleftrightarrow> (\<forall>n. v = Some n \<longrightarrow> (\<exists>b. n = ValueNode False b))"
    by (cases v) (auto elim: is_value.elims)
  moreover have "list_all (pred_option id) (map (map_option canonical) cs) \<and> list_all (pred_option (\<lambda>n. \<not> is_value n)) cs
      \<longleftrightarrow> (\<forall>c \<in> set cs. trie_ok c)"
    by (induction cs) (auto simp: pred_option_def)
  ultimately show ?thesis by (auto simp: full_ok_def)
qed

lemma canonical_Short_cases:
  assumes "canonical (ShortNode k c)"
  obtains (leaf) b where "c = Some (ValueNode False b)" "term_key k"
    | (ext) v cs where "c = Some (FullNode v cs)" "k \<noteq> []" "nibbles k" "canonical (FullNode v cs)"
  using assms by (auto split: option.splits Node.splits)

lemma canonical_leaf [simp]: "canonical (ShortNode k (Some (ValueNode False b))) \<longleftrightarrow> term_key k"
  and canonical_ext [simp]:
    "canonical (ShortNode k (Some (FullNode v cs))) \<longleftrightarrow> k \<noteq> [] \<and> nibbles k \<and> canonical (FullNode v cs)"
  by auto

declare canonical.simps(2, 3) [simp del]

section \<open>Content of the pieces\<close>

lemma content_Short [simp]: "content (Some (ShortNode k c)) (k @ r) = content c r"
  by simp

lemma content_Short_other: "(\<nexists>r. key = k @ r) \<Longrightarrow> content (Some (ShortNode k c)) key = None"
  by (auto) (metis append_take_drop_id)

lemma content_Short_Nil [simp]: "content (Some (ShortNode [] c)) key = content c key"
  by simp

lemma content_Short_append: "content (Some (ShortNode (q @ r) c)) key = content (Some (ShortNode q (Some (ShortNode r c)))) key"
proof (cases "\<exists>s. key = q @ s")
  case True
  then obtain s where s: "key = q @ s" ..
  show ?thesis
  proof (cases "\<exists>t. s = r @ t")
    case False
    then show ?thesis using s by (auto simp: content_Short_other simp del: content.simps)
  qed (use s content_Short [of "q @ r" c] in \<open>auto simp del: content.simps\<close>)
next
  case False
  then show ?thesis by (auto simp: content_Short_other simp del: content.simps)
qed

declare content.simps(3) [simp del]

lemma content_cong_Short:
  assumes "\<And>r. term_key r \<Longrightarrow> content m r = (if r = s then w else content n r)" "term_key key" "s \<noteq> []"
    "\<And>r. key = q @ r \<Longrightarrow> r \<noteq> []"
  shows "content (Some (ShortNode q m)) key = (if key = q @ s then w else content (Some (ShortNode q n)) key)"
proof (cases "\<exists>r. key = q @ r")
  case True
  then obtain r where r: "key = q @ r" ..
  with assms have "term_key r" by (metis term_key_append)
  then show ?thesis using r assms(1) by simp
next
  case False
  then show ?thesis by (auto simp: content_Short_other)
qed

lemma nibbles_not_term: "term_key key \<Longrightarrow> nibbles q \<Longrightarrow> key = q @ r \<Longrightarrow> r \<noteq> []"
  using term_key_not_nibbles by auto

lemma unat_nibble: "x < 16 \<Longrightarrow> unat x < 16" for x :: byte
  by (simp add: word_less_nat_alt)

lemma nibble_not_16 [simp]: "x < 16 \<Longrightarrow> x \<noteq> 16" for x :: byte
  by auto

lemma full_ok_child: "full_ok v cs \<Longrightarrow> x < 16 \<Longrightarrow> trie_ok (cs ! unat x)" for x :: byte
  using unat_nibble [of x] by (auto simp: full_ok_def)

lemma content_Full_16 [simp]: "content (Some (FullNode v cs)) [16] = content v []"
  by simp

lemma content_Full_child: "full_ok v cs \<Longrightarrow> x < 16 \<Longrightarrow> content (Some (FullNode v cs)) (x # xs) = content (cs ! unat x) xs"
  by (auto simp: full_ok_def word_less_nat_alt)

lemma full_ok_set_value: "full_ok v cs \<Longrightarrow> full_ok (Some (ValueNode False b)) cs"
  and full_ok_no_value: "full_ok v cs \<Longrightarrow> full_ok None cs"
  and full_ok_set_child: "full_ok v cs \<Longrightarrow> trie_ok n \<Longrightarrow> full_ok v (cs[i := n])"
  by (auto simp: full_ok_def dest: set_update_subset_insert [THEN subsetD])

lemma content_set_child:
  assumes "full_ok v cs" "x < 16" "\<And>r. term_key r \<Longrightarrow> content n r = (if r = xs then w else content (cs ! unat x) r)"
    "term_key key"
  shows "content (Some (FullNode v (cs[unat x := n]))) key
    = (if key = x # xs then w else content (Some (FullNode v cs)) key)"
proof -
  obtain y ys where key: "key = y # ys" using assms(4) by (cases key) auto
  then consider "y = 16" "ys = []" | "y < 16" "term_key ys" using assms(4) term_key_edge by blast
  then show ?thesis
  proof cases
    case 2
    then show ?thesis using key assms unat_nibble [of x] unat_nibble [of y]
      by (auto simp: full_ok_def nth_list_update word_unat_eq_iff)
  qed (use key assms in auto)
qed

lemma content_set_value:
  "term_key key \<Longrightarrow> content (Some (FullNode w cs)) key = (if key = [16] then content w [] else content (Some (FullNode v cs)) key)"
proof (induction key)
  case (Cons x xs)
  then show ?case by (cases "x = 16"; cases "xs = []") simp_all
qed simp

lemma length_filter_update:
  "i < length cs \<Longrightarrow> length (filter P (cs[i := x])) + (if P (cs ! i) then 1 else 0)
     = length (filter P cs) + (if P x then 1 else 0)"
proof (induction cs arbitrary: i)
  case (Cons c cs)
  then show ?case by (cases i) auto
qed simp

lemma occupied_set_child:
  "i < length cs \<Longrightarrow> occupied v (cs[i := c]) + (if cs ! i \<noteq> None then 1 else 0)
     = occupied v cs + (if c \<noteq> None then 1 else 0)"
  using length_filter_update [of i cs "\<lambda>c. c \<noteq> None" c] by (auto simp: occupied_def)

lemma occupied_value: "occupied (Some n) cs = Suc (occupied None cs)"
  by (simp add: occupied_def)

section \<open>Insertion\<close>

lemma insert_new: "term_key s \<Longrightarrow> insert S f None s val = Some (Some (ShortNode s (Some (ValueNode False val))))"
  by auto

text \<open>What an insertion into a node achieves.\<close>

definition inserted :: "Node option \<Rightarrow> byte list \<Rightarrow> byte list \<Rightarrow> Node \<Rightarrow> bool" where
  "inserted n s val m \<longleftrightarrow> canonical m \<and> \<not> is_value m \<and>
     (\<forall>k. term_key k \<longrightarrow> content (Some m) k = (if k = s then Some val else content n k))"

lemma inserted_new: "term_key s \<Longrightarrow> inserted None s val (ShortNode s (Some (ValueNode False val)))"
proof -
  assume s: "term_key s"
  have "content (Some (ShortNode s (Some (ValueNode False val)))) k = (if k = s then Some val else None)"
    if "term_key k" for k
  proof (cases "\<exists>r. k = s @ r")
    case True
    then obtain r where "k = s @ r" ..
    with that s have "k = s" using term_key_prefix by auto
    then show ?thesis using content_Short [of s _ "[]"] by simp
  next
    case False
    then show ?thesis by (auto simp: content_Short_other)
  qed
  then show ?thesis using s by (simp add: inserted_def)
qed

text \<open>An insertion at an edge of a full node, which need not have two edges yet.\<close>

lemma insert_Full:
  assumes "full_ok v cs" "x < 16" "insert S f (cs ! unat x) xs val = Some (Some m)" "inserted (cs ! unat x) xs val m"
    "2 \<le> occupied v cs \<or> (cs ! unat x = None \<and> 1 \<le> occupied v cs)"
  shows "\<exists>m. insert S f (Some (FullNode v cs)) (x # xs) val = Some (Some m) \<and>
     inserted (Some (FullNode v cs)) (x # xs) val m \<and> is_full m"
proof -
  have i: "unat x < length cs" using assms(1,2) unat_nibble by (simp add: full_ok_def)
  let ?m = "FullNode v (cs[unat x := Some m])"
  have "insert S f (Some (FullNode v cs)) (x # xs) val = Some (Some ?m)"
    using assms i by (simp add: getEdge_def setEdge_def)
  moreover have "canonical ?m"
    using assms occupied_set_child [OF i, of v "Some m"]
    by (auto simp: canonical_Full inserted_def intro!: full_ok_set_child split: if_splits)
  moreover have "content (Some ?m) k = (if k = x # xs then Some val else content (Some (FullNode v cs)) k)"
    if "term_key k" for k
    using content_set_child [OF assms(1,2), of "Some m" xs "Some val"] assms(4) that by (simp add: inserted_def)
  ultimately show ?thesis by (auto simp: inserted_def)
qed

lemma insert_Full_value:
  assumes "full_ok v cs" "2 \<le> occupied v cs \<or> (v = None \<and> 1 \<le> occupied v cs)"
  shows "\<exists>m. insert S f (Some (FullNode v cs)) [16] val = Some (Some m) \<and>
     inserted (Some (FullNode v cs)) [16] val m \<and> is_full m"
proof -
  let ?m = "FullNode (Some (ValueNode False val)) cs"
  have "insert S f v [] val = Some (Some (ValueNode False val))"
    using assms(1) by (cases v) (auto simp: full_ok_def)
  then have "insert S f (Some (FullNode v cs)) [16] val = Some (Some ?m)"
    by (simp add: getEdge_def setEdge_def)
  moreover have "canonical ?m"
    using assms by (cases v) (auto simp: canonical_Full occupied_value intro: full_ok_set_value)
  moreover have "content (Some ?m) k = (if k = [16] then Some val else content (Some (FullNode v cs)) k)"
    if "term_key k" for k
    using content_set_value [OF that] by (metis content.simps(2))
  ultimately show ?thesis by (auto simp: inserted_def)
qed

text \<open>The branch node that takes the place of a short node.\<close>

lemma canonical_Short_suffix:
  assumes "canonical (ShortNode (q @ r) c)" "r \<noteq> []"
  shows "canonical (ShortNode r c)" "nibbles q"
  using assms by (auto elim!: canonical_Short_cases simp: term_key_append)

lemma full_ok_empty: "full_ok None (replicate 16 None)"
  by (simp add: full_ok_def)

lemma occupied_empty: "occupied v (replicate n None) = (if v = None then 0 else 1)"
  by (simp add: occupied_def)

lemma split_short_leaf:
  assumes "canonical (ShortNode [16] c)"
  shows "\<exists>v cs. split_short (q @ [16]) c (length q) = Some (FullNode v cs) \<and> full_ok v cs \<and> occupied v cs = 1 \<and>
     cs = replicate 16 None \<and> (\<forall>k. term_key k \<longrightarrow> content (Some (FullNode v cs)) k = content (Some (ShortNode [16] c)) k)"
proof -
  from assms obtain b where c: "c = Some (ValueNode False b)" by (auto elim!: canonical_Short_cases)
  have "content (Some (FullNode c (replicate 16 None))) k = content (Some (ShortNode [16] c)) k" if "term_key k" for k
    using that by (cases k) (auto simp: content.simps(3) c word_less_nat_alt)
  then show ?thesis using c
    by (intro exI [of _ c] exI [of _ "replicate 16 None"])
      (auto simp: split_short_def setEdge_def occupied_empty full_ok_def)
qed

lemma split_short_nibble:
  assumes "canonical (ShortNode (y # ys) c)" "y < 16"
  shows "\<exists>cs. split_short (q @ y # ys) c (length q) = Some (FullNode None cs) \<and> full_ok None cs \<and> occupied None cs = 1 \<and>
     (\<forall>x. x < 16 \<longrightarrow> x \<noteq> y \<longrightarrow> cs ! unat x = None) \<and>
     (\<forall>k. term_key k \<longrightarrow> content (Some (FullNode None cs)) k = content (Some (ShortNode (y # ys) c)) k)"
proof -
  let ?e = "if ys \<noteq> [] then Some (ShortNode ys c) else c"
  let ?cs = "(replicate 16 None)[unat y := ?e]"
  have y: "unat y < 16" using assms(2) by (rule unat_nibble)
  from assms have e: "trie_ok ?e" "?e \<noteq> None"
    by (auto elim!: canonical_Short_cases simp: canonical_Full term_key_edge)
  have "split_short (q @ y # ys) c (length q) = Some (FullNode None ?cs)"
    using y assms(2) by (auto simp: split_short_def setEdge_def nth_append)
  moreover have "full_ok None ?cs" using full_ok_set_child [OF full_ok_empty e(1)] .
  moreover have "occupied None ?cs = 1"
    using occupied_set_child [of "unat y" "replicate 16 None" None ?e] y e(2) by (auto simp: occupied_empty)
  moreover have "content (Some (FullNode None ?cs)) k = content (Some (ShortNode (y # ys) c)) k" if "term_key k" for k
  proof (cases k)
    case (Cons z zs)
    then have "z = 16 \<or> unat z < 16" using that unat_nibble by (auto split: if_splits)
    then show ?thesis using Cons assms(2) y
      by (cases "z = y") (auto simp: content.simps(3) nth_list_update word_unat_eq_iff)
  qed (use that in simp)
  moreover have "?cs ! unat x = None" if "x < 16" "x \<noteq> y" for x
    using that y unat_nibble [of x] by (auto simp: nth_list_update word_unat_eq_iff)
  ultimately show ?thesis by blast
qed

lemma insert_split:
  assumes c: "canonical (ShortNode (q @ y # ys) c)" and s: "term_key (x # xs)" and xy: "x \<noteq> y"
  shows "\<exists>b m. split_short (q @ y # ys) c (length q) = Some b \<and> insert S f (Some b) (x # xs) val = Some (Some m) \<and>
     inserted (Some (ShortNode (y # ys) c)) (x # xs) val m \<and> is_full m"
proof -
  from c have c': "canonical (ShortNode (y # ys) c)" by (rule canonical_Short_suffix) simp
  have y: "(y = 16 \<and> ys = []) \<or> y < 16" using c' by (auto elim!: canonical_Short_cases split: if_splits)
  consider (end16) "x = 16" "xs = []" | (nib) "x < 16" "term_key xs" using s term_key_edge by blast
  then show ?thesis
  proof cases
    case end16
    then have "y < 16" using y xy by auto
    then obtain cs where cs: "split_short (q @ y # ys) c (length q) = Some (FullNode None cs)" "full_ok None cs"
      "occupied None cs = 1"
      "\<forall>k. term_key k \<longrightarrow> content (Some (FullNode None cs)) k = content (Some (ShortNode (y # ys) c)) k"
      using split_short_nibble [OF c'] by blast
    then show ?thesis using insert_Full_value [OF cs(2), of S f val] end16 by (auto simp: inserted_def)
  next
    case nib
    have "\<exists>v cs. split_short (q @ y # ys) c (length q) = Some (FullNode v cs) \<and> full_ok v cs \<and> occupied v cs = 1 \<and>
       cs ! unat x = None \<and>
       (\<forall>k. term_key k \<longrightarrow> content (Some (FullNode v cs)) k = content (Some (ShortNode (y # ys) c)) k)"
    proof (cases "y < 16")
      case True
      then show ?thesis using split_short_nibble [OF c', of q] nib xy by blast
    next
      case False
      then show ?thesis using split_short_leaf [of c q] c' y nib unat_nibble [of x] by fastforce
    qed
    then obtain v cs where cs: "split_short (q @ y # ys) c (length q) = Some (FullNode v cs)" "full_ok v cs"
      "occupied v cs = 1" "cs ! unat x = None"
      "\<forall>k. term_key k \<longrightarrow> content (Some (FullNode v cs)) k = content (Some (ShortNode (y # ys) c)) k" by blast
    have "insert S f (cs ! unat x) xs val = Some (Some (ShortNode xs (Some (ValueNode False val))))"
      "inserted (cs ! unat x) xs val (ShortNode xs (Some (ValueNode False val)))"
      using nib cs(4) by (simp_all add: insert_new inserted_new del: insert.simps)
    from insert_Full [OF cs(2) nib(1) this] cs show ?thesis by (auto simp: inserted_def)
  qed
qed

lemma inserted_Short:
  assumes "inserted n s val m" "is_full m" "nibbles q" "q \<noteq> []" "s \<noteq> []"
  shows "inserted (Some (ShortNode q n)) (q @ s) val (ShortNode q (Some m))"
proof -
  have "canonical (ShortNode q (Some m))" using assms by (cases m) (auto simp: inserted_def)
  moreover have "content (Some (ShortNode q (Some m))) k = (if k = q @ s then Some val else content (Some (ShortNode q n)) k)"
    if "term_key k" for k
    using assms that nibbles_not_term by (intro content_cong_Short) (auto simp: inserted_def)
  ultimately show ?thesis by (simp add: inserted_def)
qed

lemma insert_Short_split:
  assumes "canonical (ShortNode k c)" "term_key s" "prefixLen s k \<noteq> length k"
  shows "\<exists>m. insert S f (Some (ShortNode k c)) s val = Some (Some m) \<and> inserted (Some (ShortNode k c)) s val m"
proof -
  have "nibbles k \<or> term_key k" using assms(1) by (auto elim!: canonical_Short_cases)
  moreover have "prefixLen s k < length k" using assms(3) prefixLen_le(2) [of s k] by linarith
  ultimately obtain q x xs y ys where q: "s = q @ x # xs" "k = q @ y # ys" "x \<noteq> y" "prefixLen s k = length q"
    using prefixLen_split assms(2) by blast
  have s: "term_key (x # xs)" using assms(2) q(1) term_key_append by blast
  have nq: "nibbles q" using assms(1) q(2) canonical_Short_suffix(2) by blast
  obtain b m where m: "split_short k c (length q) = Some b" "insert S f (Some b) (x # xs) val = Some (Some m)"
    "inserted (Some (ShortNode (y # ys) c)) (x # xs) val m" "is_full m"
    using insert_split [OF assms(1) [unfolded q(2)] s q(3)] q(2) by blast
  show ?thesis
  proof (cases "q = []")
    case True
    then show ?thesis using m q by simp
  next
    case False
    have "insert S f (Some (ShortNode k c)) s val = Some (Some (ShortNode q (Some m)))"
      using m q False by simp
    moreover have "inserted (Some (ShortNode k c)) s val (ShortNode q (Some m))"
      using inserted_Short [OF m(3,4) nq False] q content_Short_append [of q "y # ys" c] by (simp add: inserted_def)
    ultimately show ?thesis by blast
  qed
qed

lemma insert_node:
  "canonical n \<Longrightarrow> \<not> is_value n \<Longrightarrow> term_key s \<Longrightarrow>
   \<exists>m. insert S f (Some n) s val = Some (Some m) \<and> inserted (Some n) s val m \<and> (is_full n \<longrightarrow> is_full m)"
proof (induction n arbitrary: s)
  case (ShortNode k c)
  show ?case
  proof (cases "prefixLen s k = length k")
    case False
    then show ?thesis using insert_Short_split ShortNode.prems by fastforce
  next
    case True
    then obtain r where r: "s = k @ r" using prefixLen_all by blast
    from ShortNode.prems(1) show ?thesis
    proof (cases rule: canonical_Short_cases)
      case (leaf b)
      then have "s = k" "r = []" using term_key_prefix [of k r] r ShortNode.prems(3) by auto
      then have "insert S f (Some (ShortNode k c)) s val = Some (Some (ShortNode k (Some (ValueNode False val))))"
        using leaf True by simp
      moreover have "inserted (Some (ShortNode k c)) s val (ShortNode k (Some (ValueNode False val)))"
        using inserted_new [OF leaf(2)] \<open>s = k\<close> leaf inserted_new [OF leaf(2), of b] by (simp add: inserted_def)
      ultimately show ?thesis by auto
    next
      case (ext v cs)
      then have t: "term_key r" "r \<noteq> []"
        using nibbles_not_term [OF ShortNode.prems(3)] ShortNode.prems(3) r term_key_append by blast+
      with ext ShortNode.IH [of "FullNode v cs" r] obtain m
        where m: "insert S f c r val = Some (Some m)" "inserted c r val m" "is_full m" by auto
      then have "insert S f (Some (ShortNode k c)) s val = Some (Some (ShortNode k (Some m)))"
        using True r by simp
      then show ?thesis using inserted_Short [OF m(2,3) ext(3,2) t(2)] r by simp
    qed
  qed
next
  case (FullNode v cs)
  then have ok: "full_ok v cs" "2 \<le> occupied v cs" by (auto simp: canonical_Full)
  from FullNode.prems(3) obtain x xs where s: "s = x # xs" by (cases s) auto
  with FullNode.prems(3) consider "x = 16" "xs = []" | "x < 16" "term_key xs" using term_key_edge by blast
  then show ?case
  proof cases
    case 1
    then show ?thesis using insert_Full_value [OF ok(1)] ok(2) s by blast
  next
    case 2
    have "\<exists>m. insert S f (cs ! unat x) xs val = Some (Some m) \<and> inserted (cs ! unat x) xs val m"
    proof (cases "cs ! unat x")
      case None
      then show ?thesis using insert_new [OF 2(2)] inserted_new [OF 2(2)] by auto
    next
      case (Some n)
      moreover have "Some n \<in> set cs" using Some ok(1) unat_nibble [OF 2(1)] by (metis full_ok_def nth_mem)
      ultimately show ?thesis using FullNode.IH(2) [of "Some n" n xs] full_ok_child [OF ok(1) 2(1)] 2(2) by auto
    qed
    then show ?thesis using insert_Full [OF ok(1) 2(1)] ok(2) s by blast
  qed
qed simp

theorem insert_law:
  assumes "trie_ok t" "term_key s"
  shows "\<exists>m. insert S f t s val = Some (Some m) \<and> inserted t s val m"
proof (cases t)
  case None
  then show ?thesis using insert_new [OF assms(2)] inserted_new [OF assms(2)] by metis
next
  case (Some n)
  then show ?thesis using insert_node [of n s S f val] assms by auto
qed

end
