(* ===== verification/Trie_Delete.thy ===== *)
theory Trie_Delete
  imports Trie_Map
begin

text \<open>
  Lookup and deletion as operations on the content of a trie, and uniqueness of the
  canonical trie with a given content.
\<close>

section \<open>Lookup\<close>

lemma term_key_le_16: "term_key k \<Longrightarrow> x \<in> set k \<Longrightarrow> x \<le> 16"
  by (induction k) (auto split: if_splits)

lemma lookup_node:
  "canonical n \<Longrightarrow> \<forall>x \<in> set key. x \<le> 16 \<Longrightarrow> lookup S f (Some n) key = Some (content (Some n) key)"
proof (induction n arbitrary: key)
  case (ValueNode h b)
  then show ?case by (cases h) auto
next
  case (ShortNode k c)
  then have "\<forall>x \<in> set (drop (length k) key). x \<le> 16" by (auto dest: in_set_dropD)
  moreover obtain n where "c = Some n" "canonical n"
    using ShortNode.prems(1) by (auto elim!: canonical_Short_cases)
  ultimately show ?case using ShortNode.IH [of n "drop (length k) key"] by (simp add: content.simps(3))
next
  case (FullNode v cs)
  then have ok: "full_ok v cs" by (simp add: canonical_Full)
  then have v: "lookup S f v key = Some (content v key)" "\<not> reads_node S v" for key
    by (cases v; auto simp: full_ok_def reads_node_def)+
  show ?case
  proof (cases key)
    case Nil
    then show ?thesis using v by simp
  next
    case (Cons x xs)
    show ?thesis
    proof (cases "x = 16")
      case True
      then show ?thesis using Cons v by simp
    next
      case False
      then have x: "x < 16" "unat x < length cs" using Cons FullNode.prems(2) ok unat_nibble by (auto simp: full_ok_def)
      have "lookup S f (cs ! unat x) xs = Some (content (cs ! unat x) xs)"
      proof (cases "cs ! unat x")
        case (Some n)
        moreover have "Some n \<in> set cs" using Some x(2) by (metis nth_mem)
        ultimately show ?thesis
          using FullNode.IH(2) [of "Some n" n xs] FullNode.prems(2) full_ok_child [OF ok x(1)] Cons by auto
      qed simp
      then show ?thesis using Cons x by simp
    qed
  qed
qed

lemma lookup_law: "trie_ok t \<Longrightarrow> term_key k \<Longrightarrow> lookup S f t k = Some (content t k)"
  using lookup_node term_key_le_16 by (cases t) auto

section \<open>Edges\<close>

definition edge :: "Node option \<Rightarrow> Node option list \<Rightarrow> byte \<Rightarrow> Node option" where
  "edge v cs x = (if x = 16 then v else cs ! unat x)"

lemma content_edge: "full_ok v cs \<Longrightarrow> x \<le> 16 \<Longrightarrow> content (Some (FullNode v cs)) (x # xs) = content (edge v cs x) xs"
  using unat_nibble [of x] by (auto simp: edge_def full_ok_def)

lemma two_children:
  "2 \<le> length (filter (\<lambda>c. c \<noteq> None) cs) \<Longrightarrow> \<exists>i < length cs. \<exists>j < length cs. i \<noteq> j \<and> cs ! i \<noteq> None \<and> cs ! j \<noteq> None"
  using card_le_Suc0_iff_eq [of "{i. i < length cs \<and> cs ! i \<noteq> None}"] by (auto simp: length_filter_conv_card)

lemma nibble_of_nat: "i < 16 \<Longrightarrow> (of_nat i :: byte) < 16" "i < 16 \<Longrightarrow> unat (of_nat i :: byte) = i"
  by (simp_all add: word_less_nat_alt unat_of_nat)

lemma edge_of_nat: "i < 16 \<Longrightarrow> edge v cs (of_nat i) = cs ! i"
  using nibble_of_nat [of i] by (auto simp: edge_def)

lemma two_edges:
  assumes "full_ok v cs" "2 \<le> occupied v cs"
  shows "\<exists>x y. x \<le> 16 \<and> y \<le> 16 \<and> x \<noteq> y \<and> edge v cs x \<noteq> None \<and> edge v cs y \<noteq> None"
proof (cases "v = None")
  case True
  then have "2 \<le> length (filter (\<lambda>c. c \<noteq> None) cs)" using assms by (simp add: occupied_def)
  from two_children [OF this] obtain i j where i: "i < 16" "j < 16" "i \<noteq> j" "cs ! i \<noteq> None" "cs ! j \<noteq> None"
    using assms(1) by (auto simp: full_ok_def)
  moreover have "(of_nat i :: byte) \<noteq> of_nat j" using i nibble_of_nat(2) by metis
  ultimately show ?thesis using nibble_of_nat(1) edge_of_nat by (metis order.strict_implies_order)
next
  case False
  then have "0 < length (filter (\<lambda>c. c \<noteq> None) cs)" using assms by (auto simp: occupied_def)
  then obtain i where i: "i < 16" "cs ! i \<noteq> None" using assms(1)
    by (auto simp: full_ok_def length_filter_conv_card card_gt_0_iff)
  then show ?thesis using False nibble_of_nat(1) [of i] edge_of_nat [of i v cs]
    by (intro exI [of _ 16] exI [of _ "of_nat i"]) (auto simp: edge_def)
qed

lemma content_nonempty: "canonical n \<Longrightarrow> \<not> is_value n \<Longrightarrow> \<exists>k. term_key k \<and> content (Some n) k \<noteq> None"
proof (induction n)
  case (ShortNode k c)
  from ShortNode.prems(1) show ?case
  proof (cases rule: canonical_Short_cases)
    case (leaf b)
    then show ?thesis using content_Short [of k c "[]"] by (intro exI [of _ k]) simp
  next
    case (ext v cs)
    then obtain r where "term_key r" "content c r \<noteq> None" using ShortNode.IH [of "FullNode v cs"] by auto
    then show ?thesis using ext term_key_append [of r k] term_key_nonempty by (intro exI [of _ "k @ r"]) auto
  qed
next
  case (FullNode v cs)
  then have ok: "full_ok v cs" "2 \<le> occupied v cs" by (auto simp: canonical_Full)
  from two_edges [OF ok] obtain x where x: "x < 16" "edge v cs x \<noteq> None"
    by (metis order.strict_iff_order)
  then obtain m where m: "cs ! unat x = Some m" by (auto simp: edge_def)
  then have "Some m \<in> set cs" using ok(1) unat_nibble [OF x(1)] by (metis full_ok_def nth_mem)
  then obtain k where "term_key k" "content (Some m) k \<noteq> None"
    using FullNode.IH(2) [of "Some m" m] m full_ok_child [OF ok(1) x(1)] by auto
  then show ?case using m x(1) content_Full_child [OF ok(1) x(1), of k] term_key_edge [of x k] by metis
qed simp

lemma edge_key:
  assumes "full_ok v cs" "x \<le> 16" "edge v cs x \<noteq> None"
  shows "\<exists>xs. term_key (x # xs) \<and> content (Some (FullNode v cs)) (x # xs) \<noteq> None"
proof (cases "x = 16")
  case True
  then show ?thesis using assms by (intro exI [of _ "[]"]) (auto simp: edge_def full_ok_def)
next
  case False
  then have x: "x < 16" using assms(2) by auto
  then obtain n where n: "cs ! unat x = Some n" using assms(3) by (auto simp: edge_def)
  then obtain k where "term_key k" "content (Some n) k \<noteq> None"
    using full_ok_child [OF assms(1) x] content_nonempty [of n] by auto
  then show ?thesis using x n content_Full_child [OF assms(1) x, of k] term_key_edge [of x k] by metis
qed

section \<open>A trie is determined by its content\<close>

lemma Short_keys: "content (Some (ShortNode k c)) key \<noteq> None \<Longrightarrow> \<exists>r. key = k @ r \<and> content c r \<noteq> None"
  by (cases "\<exists>r. key = k @ r") (use content_Short_other [of key k c] in auto)

lemma Full_fork:
  assumes "canonical (FullNode v cs)"
  shows "\<exists>x y xs ys. x \<noteq> y \<and> term_key (x # xs) \<and> term_key (y # ys) \<and>
     content (Some (FullNode v cs)) (x # xs) \<noteq> None \<and> content (Some (FullNode v cs)) (y # ys) \<noteq> None"
proof -
  from assms have ok: "full_ok v cs" "2 \<le> occupied v cs" by (auto simp: canonical_Full)
  from two_edges [OF ok] obtain x y where xy: "x \<noteq> y" "x \<le> 16" "y \<le> 16" "edge v cs x \<noteq> None" "edge v cs y \<noteq> None"
    by blast
  from edge_key [OF ok(1) xy(2,4)] edge_key [OF ok(1) xy(3,5)] xy(1) show ?thesis by blast
qed

text \<open>The keys below an extension share exactly its path.\<close>

lemma ext_fork:
  assumes "canonical (ShortNode k (Some (FullNode v cs)))"
  shows "\<exists>x y xs ys. x \<noteq> y \<and> term_key (k @ x # xs) \<and> term_key (k @ y # ys) \<and>
     content (Some (ShortNode k (Some (FullNode v cs)))) (k @ x # xs) \<noteq> None \<and>
     content (Some (ShortNode k (Some (FullNode v cs)))) (k @ y # ys) \<noteq> None"
proof -
  have t: "term_key (k @ x # xs) \<longleftrightarrow> term_key (x # xs)" for x xs
    using assms term_key_append [of "x # xs" k] by simp
  show ?thesis unfolding t content_Short by (rule Full_fork) (use assms in simp)
qed

definition same_content :: "Node \<Rightarrow> Node \<Rightarrow> bool" where
  "same_content n m \<longleftrightarrow> (\<forall>k. term_key k \<longrightarrow> content (Some n) k = content (Some m) k)"

lemma same_contentD: "same_content n m \<Longrightarrow> term_key k \<Longrightarrow> content (Some n) k = content (Some m) k"
  by (simp add: same_content_def)

lemma same_content_sym: "same_content n m \<Longrightarrow> same_content m n"
  by (simp add: same_content_def)

lemma Short_Full_differ:
  assumes "canonical (ShortNode k c)" "canonical (FullNode v cs)"
  shows "\<not> same_content (FullNode v cs) (ShortNode k c)"
proof
  assume eq: "same_content (FullNode v cs) (ShortNode k c)"
  from Full_fork [OF assms(2)] obtain x y xs ys where f: "x \<noteq> y" "term_key (x # xs)" "term_key (y # ys)"
    "content (Some (FullNode v cs)) (x # xs) \<noteq> None" "content (Some (FullNode v cs)) (y # ys) \<noteq> None" by blast
  then have "content (Some (ShortNode k c)) (x # xs) \<noteq> None" "content (Some (ShortNode k c)) (y # ys) \<noteq> None"
    using eq by (simp_all add: same_content_def del: content.simps term_key.simps)
  then obtain r s where "x # xs = k @ r" "y # ys = k @ s" using Short_keys by metis
  moreover have "k \<noteq> []" using assms(1) by (auto elim!: canonical_Short_cases)
  ultimately show False using f(1) by (cases k) auto
qed

lemma leaf_content: "term_key k \<Longrightarrow> term_key key \<Longrightarrow>
    content (Some (ShortNode k (Some (ValueNode False b)))) key = (if key = k then Some b else None)"
  using inserted_new [of k b] unfolding inserted_def by (metis content.simps(1))

lemma leaf_ext_differ:
  assumes "term_key k" "canonical (ShortNode l (Some (FullNode v cs)))"
  shows "\<not> same_content (ShortNode l (Some (FullNode v cs))) (ShortNode k (Some (ValueNode False b)))"
proof
  assume eq: "same_content (ShortNode l (Some (FullNode v cs))) (ShortNode k (Some (ValueNode False b)))"
  from ext_fork [OF assms(2)] obtain x y xs ys where f: "x \<noteq> y" "term_key (l @ x # xs)" "term_key (l @ y # ys)"
    "content (Some (ShortNode l (Some (FullNode v cs)))) (l @ x # xs) \<noteq> None"
    "content (Some (ShortNode l (Some (FullNode v cs)))) (l @ y # ys) \<noteq> None" by (elim exE conjE)
  have "key = k" if "term_key key" "content (Some (ShortNode l (Some (FullNode v cs)))) key \<noteq> None" for key
    using that(2) unfolding same_contentD [OF eq that(1)] leaf_content [OF assms(1) that(1)] by (simp split: if_splits)
  from this [OF f(2,4)] this [OF f(3,5)] have "l @ x # xs = l @ y # ys" by simp
  then show False using f(1) by auto
qed

lemma ext_path_le:
  assumes "canonical (ShortNode k (Some (FullNode v cs)))"
    "same_content (ShortNode k (Some (FullNode v cs))) (ShortNode l d)"
  shows "\<exists>r. k = l @ r"
proof -
  from ext_fork [OF assms(1)] obtain x y xs ys where f: "x \<noteq> y" "term_key (k @ x # xs)" "term_key (k @ y # ys)"
    "content (Some (ShortNode k (Some (FullNode v cs)))) (k @ x # xs) \<noteq> None"
    "content (Some (ShortNode k (Some (FullNode v cs)))) (k @ y # ys) \<noteq> None" by (elim exE conjE)
  have "\<exists>r. key = l @ r" if "term_key key" "content (Some (ShortNode k (Some (FullNode v cs)))) key \<noteq> None" for key
    using that(2) Short_keys unfolding same_contentD [OF assms(2) that(1)] by blast
  from this [OF f(2,4)] this [OF f(3,5)] obtain r s where "k @ x # xs = l @ r" "k @ y # ys = l @ s" by blast
  then show ?thesis using f(1) by (auto simp: append_eq_append_conv2 Cons_eq_append_conv)
qed

lemma same_content_Short:
  assumes "same_content (ShortNode k (Some n)) (ShortNode k (Some m))" "nibbles k"
  shows "same_content n m"
proof -
  have "content (Some n) r = content (Some m) r" if "term_key r" for r
    using same_contentD [OF assms(1), of "k @ r"] assms(2) that term_key_append [of r k] term_key_nonempty by simp
  then show ?thesis by (simp add: same_content_def)
qed

lemma Short_unique:
  assumes "canonical (ShortNode k c)" "canonical (ShortNode l d)" "same_content (ShortNode k c) (ShortNode l d)"
    "\<And>n m. c = Some n \<Longrightarrow> d = Some m \<Longrightarrow> \<not> is_value n \<Longrightarrow> canonical m \<Longrightarrow> \<not> is_value m \<Longrightarrow> same_content n m \<Longrightarrow> n = m"
  shows "ShortNode k c = ShortNode l d"
  using assms(1)
proof (cases rule: canonical_Short_cases)
  case (leaf b)
  from assms(2) obtain b' where d: "d = Some (ValueNode False b')" "term_key l"
    by (cases rule: canonical_Short_cases) (use leaf_ext_differ leaf assms(2,3) same_content_sym in blast)+
  have "content (Some (ShortNode l d)) k = Some b" using assms(3) leaf leaf_content [of k k b] by (simp add: same_content_def)
  then show ?thesis using leaf d leaf_content [of l k b'] by (auto split: if_splits)
next
  case (ext v cs)
  from assms(2) obtain w ds where d: "d = Some (FullNode w ds)"
    by (cases rule: canonical_Short_cases) (use leaf_ext_differ ext assms(1,3) in blast)+
  obtain r s where "k = l @ r" "l = k @ s"
    using ext_path_le [OF assms(1) [unfolded ext] assms(3) [unfolded ext]]
      ext_path_le [OF assms(2) [unfolded d]] same_content_sym [OF assms(3)] d by blast
  then have kl: "k = l" by auto
  have "canonical (FullNode w ds)" using assms(2) d by simp
  moreover have "same_content (FullNode v cs) (FullNode w ds)"
    by (rule same_content_Short [of k]) (use assms(3) ext d kl in simp_all)
  ultimately show ?thesis using assms(4) [OF ext(1) d] ext(1) d kl by simp
qed

lemma same_content_Full:
  assumes "full_ok v cs" "full_ok w ds" "same_content (FullNode v cs) (FullNode w ds)" "x < 16" "term_key r"
  shows "content (cs ! unat (x :: byte)) r = content (ds ! unat x) r"
  using same_contentD [OF assms(3), of "x # r"] content_Full_child [OF assms(1,4), of r] content_Full_child [OF assms(2,4), of r]
    assms(4,5) term_key_edge [of x r] by simp

lemma content_not_None: "trie_ok t \<Longrightarrow> (\<And>k. term_key k \<Longrightarrow> content t k = None) \<Longrightarrow> t = None"
  using content_nonempty by (cases t) (simp, metis option.pred_inject(2) option.simps(3))

lemma Full_unique:
  assumes ok: "full_ok v cs" "full_ok w ds" and eq: "same_content (FullNode v cs) (FullNode w ds)"
    and IH: "\<And>n m. Some n \<in> set cs \<Longrightarrow> canonical n \<Longrightarrow> \<not> is_value n \<Longrightarrow> canonical m \<Longrightarrow> \<not> is_value m \<Longrightarrow> same_content n m \<Longrightarrow> n = m"
  shows "FullNode v cs = FullNode w ds"
proof -
  have "content v [] = content w []"
    using same_contentD [OF eq, of "[16]"] by simp
  then have "v = w" using ok by (cases v; cases w) (auto simp: full_ok_def)
  moreover have "cs = ds"
  proof (rule nth_equalityI)
    show "length cs = length ds" using ok by (simp add: full_ok_def)
    fix i assume "i < length cs"
    then have i: "i < 16" using ok by (simp add: full_ok_def)
    let ?x = "of_nat i :: byte"
    have x: "?x < 16" "unat ?x = i" using nibble_of_nat i by auto
    have c: "content (cs ! i) r = content (ds ! i) r" if "term_key r" for r
      using same_content_Full [OF ok eq x(1) that] x(2) by simp
    have t: "trie_ok (cs ! i)" "trie_ok (ds ! i)" using full_ok_child [OF ok(1) x(1)] full_ok_child [OF ok(2) x(1)] x(2) by auto
    show "cs ! i = ds ! i"
    proof (cases "cs ! i = None \<or> ds ! i = None")
      case True
      then show ?thesis using content_not_None [OF t(1)] content_not_None [OF t(2)] c by auto
    next
      case False
      then obtain n m where "cs ! i = Some n" "ds ! i = Some m" by auto
      then show ?thesis using IH [of n m] c t \<open>i < length cs\<close> nth_mem [of i cs] by (simp add: same_content_def)
    qed
  qed
  ultimately show ?thesis by simp
qed

theorem canonical_unique:
  "canonical n \<Longrightarrow> \<not> is_value n \<Longrightarrow> canonical m \<Longrightarrow> \<not> is_value m \<Longrightarrow> same_content n m \<Longrightarrow> n = m"
proof (induction n arbitrary: m)
  case (ShortNode k c)
  show ?case
  proof (cases m)
    case m: (ShortNode l d)
    have c: "canonical n" if "c = Some n" for n using ShortNode.prems(1) that by (auto elim: canonical_Short_cases)
    show ?thesis unfolding m
    proof (rule Short_unique)
      fix n n' assume "c = Some n" "\<not> is_value n" "canonical n'" "\<not> is_value n'" "same_content n n'"
      then show "n = n'" using ShortNode.IH [of n n'] c by simp
    qed (use ShortNode.prems m in simp_all)
    next
    case (FullNode w ds)
    then show ?thesis using ShortNode.prems Short_Full_differ [of k c w ds] same_content_sym by blast
  qed (use ShortNode.prems(4) in simp)
next
  case (FullNode v cs)
  show ?case
  proof (cases m)
    case m: (FullNode w ds)
    have ok: "full_ok v cs" "full_ok w ds" "same_content (FullNode v cs) (FullNode w ds)"
      using FullNode.prems(1,3,5) unfolding m canonical_Full by blast+
    show ?thesis unfolding m using ok
    proof (rule Full_unique)
      fix n n' assume "Some n \<in> set cs" "canonical n" "\<not> is_value n" "canonical n'" "\<not> is_value n'" "same_content n n'"
      then show "n = n'" using FullNode.IH(2) [of "Some n" n n'] by (meson option.set_intros)
    qed
    next
    case (ShortNode k c)
    then show ?thesis using FullNode.prems Short_Full_differ [of k c v cs] by blast
  qed (use FullNode.prems(4) in simp)
qed simp

lemma trie_unique:
  assumes "trie_ok t" "trie_ok u" "\<And>k. term_key k \<Longrightarrow> content t k = content u k"
  shows "t = u"
proof (cases "t = None \<or> u = None")
  case True
  then show ?thesis using content_not_None [OF assms(1)] content_not_None [OF assms(2)] assms(3) by auto
next
  case False
  then obtain n m where "t = Some n" "u = Some m" by auto
  then show ?thesis using assms canonical_unique [of n m] by (simp add: same_content_def)
qed

section \<open>Deletion\<close>

lemma scan_children_second: "scan_children i (Some j) cs = (Some j, \<exists>c \<in> set cs. c \<noteq> None)"
  by (induction cs arbitrary: i) auto

lemma scan_children_cases:
  obtains (none) "scan_children i None cs = (None, False)" "\<forall>c \<in> set cs. c = None"
  | (one) j n where "scan_children i None cs = (Some (i + j), False)" "j < length cs" "cs ! j = Some n"
      "\<forall>l < length cs. l \<noteq> j \<longrightarrow> cs ! l = None"
  | (more) j where "scan_children i None cs = (Some (i + j), True)" "2 \<le> length (filter (\<lambda>c. c \<noteq> None) cs)"
proof (induction cs arbitrary: i thesis)
  case (Cons c cs)
  show ?case
  proof (cases c)
    case None
    show ?thesis
    proof (rule Cons.IH [of "i + 1"], goal_cases)
      case 1
      then show ?thesis using Cons.prems(1) None by simp
    next
      case (2 j n)
      moreover have "(c # cs) ! l = None" if "l < length (c # cs)" "l \<noteq> j + 1" for l
        using 2(4) that None by (cases l) auto
      ultimately show ?thesis using Cons.prems(2) [of "j + 1" n] None by simp
    next
      case (3 j)
      then show ?thesis using Cons.prems(3) [of "j + 1"] None by simp
    qed
  next
    case (Some n)
    show ?thesis
    proof (cases "\<exists>c \<in> set cs. c \<noteq> None")
      case True
      then have "filter (\<lambda>c. c \<noteq> None) cs \<noteq> []" by (auto simp: filter_empty_conv)
      then have "1 \<le> length (filter (\<lambda>c. c \<noteq> None) cs)" by (cases "filter (\<lambda>c. c \<noteq> None) cs") auto
      then show ?thesis using Cons.prems(3) [of 0] Some True by (simp add: scan_children_second)
    next
      case False
      then have "(c # cs) ! l = None" if "l < length (c # cs)" "l \<noteq> 0" for l
        using that by (cases l) auto
      then show ?thesis using Cons.prems(2) [of 0 n] Some False by (simp add: scan_children_second)
    qed
  qed
qed simp

text \<open>A full node that lost an edge keeps its content when it collapses.\<close>

lemma only_child_canonical:
  assumes "canonical n" "\<not> is_value n" "i < 16"
  shows "\<exists>m. only_child i (Some n) = Deleted (Some m) \<and> canonical m \<and> \<not> is_value m \<and>
     (\<forall>key. content (Some m) key = content (Some (ShortNode [of_nat i] (Some n))) key)"
proof (cases n)
  case (ShortNode k c)
  have "canonical (ShortNode (of_nat i # k) c)"
    using assms(1) nibble_of_nat(1) [OF assms(3)] term_key_nonempty unfolding ShortNode
    by (auto elim!: canonical_Short_cases)
  then show ?thesis using ShortNode content_Short_append [of "[of_nat i]" k c] by (simp add: only_child_def)
next
  case (FullNode v cs)
  then show ?thesis using assms nibble_of_nat(1) [OF assms(3)] by (simp add: only_child_def)
qed (use assms in simp)

lemma content_only_child:
  assumes "full_ok None cs" "i < 16" "cs ! i = Some n" "\<forall>l < 16. l \<noteq> i \<longrightarrow> cs ! l = None" "term_key key"
  shows "content (Some (FullNode None cs)) key = content (Some (ShortNode [of_nat i] (Some n))) key"
proof (cases key)
  case (Cons x xs)
  have i: "(of_nat i :: byte) < 16" "unat (of_nat i :: byte) = i" using nibble_of_nat [OF assms(2)] by auto
  have x: "x \<le> 16" using term_key_le_16 [OF assms(5)] Cons by simp
  have e: "content (Some (FullNode None cs)) (x # xs) = content (edge None cs x) xs" by (rule content_edge [OF assms(1) x])
  show ?thesis
  proof (cases "x = of_nat i")
    case True
    then show ?thesis using Cons e i assms(3) content_Short [of "[of_nat i]" "Some n" xs] by (simp add: edge_def)
  next
    case False
    then have "unat x \<noteq> i" using i(2) by (metis word_unat_eq_iff)
    then have "edge None cs x = None" using assms(4) unat_nibble [of x] x by (auto simp: edge_def)
    moreover have "content (Some (ShortNode [of_nat i] (Some n))) key = None"
      by (rule content_Short_other) (use Cons False in auto)
    ultimately show ?thesis using e Cons by simp
  qed
qed (use assms(5) in simp)

lemma content_value_only:
  assumes "full_ok v cs" "\<forall>c \<in> set cs. c = None" "term_key key"
  shows "content (Some (FullNode v cs)) key = content (Some (ShortNode [16] v)) key"
proof (cases key)
  case (Cons x xs)
  have x: "x \<le> 16" using term_key_le_16 [OF assms(3)] Cons by simp
  have e: "content (Some (FullNode v cs)) (x # xs) = content (edge v cs x) xs" by (rule content_edge [OF assms(1) x])
  show ?thesis
  proof (cases "x = 16")
    case True
    then show ?thesis using Cons e content_Short [of "[16]" v xs] by (simp add: edge_def)
  next
    case False
    then have "unat x < length cs" using x unat_nibble [of x] assms(1) by (auto simp: full_ok_def)
    then have "edge v cs x = None" using assms(2) False nth_mem by (auto simp: edge_def)
    moreover have "content (Some (ShortNode [16] v)) key = None"
      by (rule content_Short_other) (use Cons False in auto)
    ultimately show ?thesis using e Cons by simp
  qed
qed (use assms(3) in simp)

lemma collapse_full_canonical:
  assumes "full_ok v cs" "1 \<le> occupied v cs"
  shows "\<exists>m. collapse_full S v cs = Some (Deleted (Some m)) \<and> canonical m \<and> \<not> is_value m \<and>
     (\<forall>key. term_key key \<longrightarrow> content (Some m) key = content (Some (FullNode v cs)) key)"
proof (cases rule: scan_children_cases [of 0 cs])
  case none
  then have "occupied v cs = (if v = None then 0 else 1)" by (simp add: occupied_def)
  then obtain b where v: "v = Some (ValueNode False b)" using assms by (auto simp: full_ok_def split: if_splits)
  then have "collapse_full S v cs = Some (Deleted (Some (ShortNode [16] v)))" using none by (simp add: collapse_full_def)
  then show ?thesis using v content_value_only [OF assms(1) none(2)] by simp
next
  case (one j n)
  then have j: "j < 16" using assms(1) by (simp add: full_ok_def)
  then have n: "canonical n" "\<not> is_value n"
    using full_ok_child [OF assms(1) nibble_of_nat(1)] nibble_of_nat(2) one(3) by fastforce+
  show ?thesis
  proof (cases v)
    case None
    then have "collapse_full S v cs = Some (only_child j (Some n))"
      using one n by (cases n) (simp_all add: collapse_full_def)
    moreover from only_child_canonical [OF n j] obtain m where "only_child j (Some n) = Deleted (Some m)" "canonical m"
      "\<not> is_value m" "\<forall>key. content (Some m) key = content (Some (ShortNode [of_nat j] (Some n))) key" by blast
    moreover have "term_key key \<Longrightarrow> content (Some (FullNode v cs)) key = content (Some (ShortNode [of_nat j] (Some n))) key" for key
      using content_only_child [of cs j n key] assms(1) one j None by (simp add: full_ok_def)
    ultimately show ?thesis by auto
  next
    case (Some b)
    have "filter (\<lambda>c. c \<noteq> None) cs \<noteq> []" using one nth_mem [of j cs] by (auto simp: filter_empty_conv)
    then have "2 \<le> occupied v cs" using Some by (cases "filter (\<lambda>c. c \<noteq> None) cs") (auto simp: occupied_def)
    then show ?thesis using one Some assms(1) by (simp add: collapse_full_def canonical_Full)
  qed
next
  case (more j)
  then have "2 \<le> occupied v cs" by (simp add: occupied_def)
  then show ?thesis using more assms(1) by (simp add: collapse_full_def canonical_Full)
qed

text \<open>A search key longer than all keys is not found.\<close>

lemma drop_term_key: "term_key s \<Longrightarrow> p < length s \<Longrightarrow> term_key (drop p s)"
  using term_key_append [of "drop p s" "take p s"] by simp

lemma delete_longer:
  "canonical n \<Longrightarrow> \<not> is_value n \<Longrightarrow> term_key s \<Longrightarrow>
   (\<And>k. term_key k \<Longrightarrow> content (Some n) k \<noteq> None \<Longrightarrow> length k < length s) \<Longrightarrow> delete S f (Some n) s = Some NotFound"
proof (induction n arbitrary: s)
  case (ShortNode k c)
  let ?p = "prefixLen s k"
  obtain key where key: "term_key key" "content (Some (ShortNode k c)) key \<noteq> None"
    using content_nonempty ShortNode.prems(1,2) by blast
  then have "length k \<le> length key" using Short_keys by fastforce
  then have ps: "?p < length s" using ShortNode.prems(4) [OF key] prefixLen_le(2) [of s k] by linarith
  have "delete S f c (drop ?p s) = Some NotFound"
    using ShortNode.prems(1)
  proof (cases rule: canonical_Short_cases)
    case (leaf b)
    then show ?thesis using ps by simp
  next
    case (ext v cs)
    have "length r < length (drop ?p s)" if "term_key r" "content c r \<noteq> None" for r
      using ShortNode.prems(4) [of "k @ r"] that ext(3) term_key_append [of r k] term_key_nonempty [of r]
        prefixLen_le(2) [of s k] by simp
    then show ?thesis using ShortNode.IH [of "FullNode v cs" "drop ?p s"] ext drop_term_key [OF ShortNode.prems(3) ps] by simp
  qed
  then show ?case using ps by (simp add: Let_def)
next
  case (FullNode v cs)
  then have ok: "full_ok v cs" by (simp add: canonical_Full)
  from FullNode.prems(3) obtain x xs where s: "s = x # xs" by (cases s) auto
  with FullNode.prems(3) consider "x = 16" "xs = []" | "x < 16" "term_key xs" using term_key_edge by blast
  then show ?case
  proof cases
    case 1
    have "v = None" using FullNode.prems(4) [of "[16]"] ok 1 s by (cases v) (auto simp: full_ok_def)
    then show ?thesis using 1 s by simp
  next
    case 2
    have "delete S f (cs ! unat x) xs = Some NotFound"
    proof (cases "cs ! unat x")
      case (Some n)
      have "Some n \<in> set cs" using Some ok unat_nibble [OF 2(1)] by (metis full_ok_def nth_mem)
      moreover have "length k < length xs" if "term_key k" "content (Some n) k \<noteq> None" for k
        using FullNode.prems(4) [of "x # k"] that content_Full_child [OF ok 2(1), of k] 2(1) s Some term_key_edge [of x k] by simp
      ultimately show ?thesis using FullNode.IH(2) [of "Some n" n xs] full_ok_child [OF ok 2(1)] Some 2(2) by simp
    qed simp
    then show ?thesis using s 2 ok unat_nibble [OF 2(1)] by (simp add: full_ok_def)
  qed
qed simp

text \<open>What a deletion achieves: the key is absent and nothing happens, or it is removed.\<close>

definition removed :: "Node option \<Rightarrow> byte list \<Rightarrow> Node option \<Rightarrow> bool" where
  "removed n s m \<longleftrightarrow> trie_ok m \<and> (\<forall>k. term_key k \<longrightarrow> content m k = (if k = s then None else content n k))"

definition delete_ok :: "Node option \<Rightarrow> byte list \<Rightarrow> deleted go \<Rightarrow> bool" where
  "delete_ok n s r \<longleftrightarrow>
     (if content n s = None then r = Some NotFound else \<exists>m. r = Some (Deleted m) \<and> removed n s m)"

lemma delete_okI:
  "content n s = None \<Longrightarrow> delete_ok n s (Some NotFound)"
  "content n s \<noteq> None \<Longrightarrow> removed n s m \<Longrightarrow> delete_ok n s (Some (Deleted m))"
  by (auto simp: delete_ok_def)

lemma delete_leaf:
  assumes "term_key k" "term_key s" "length k = length s"
  shows "delete_ok (Some (ShortNode k (Some (ValueNode False b)))) s (delete S f (Some (ShortNode k (Some (ValueNode False b)))) s)"
proof (cases "s = k")
  case True
  then have "prefixLen s k = length s" using prefixLen_append [of k "[]" "[]"] by simp
  then have d: "delete S f (Some (ShortNode k (Some (ValueNode False b)))) s = Some (Deleted None)"
    by (simp add: Let_def)
  have "removed (Some (ShortNode k (Some (ValueNode False b)))) s None"
    using leaf_content [OF assms(1)] True by (simp add: removed_def)
  then show ?thesis unfolding d using leaf_content [OF assms(1,2), of b] True by (intro delete_okI) simp_all
next
  case False
  have "prefixLen s k \<noteq> length s" using False assms(3) prefixLen_all [of s k] by auto
  then have "prefixLen s k < length s" using prefixLen_le(1) [of s k] by linarith
  then have d: "delete S f (Some (ShortNode k (Some (ValueNode False b)))) s = Some NotFound"
    by (simp add: Let_def)
  show ?thesis unfolding d using leaf_content [OF assms(1,2), of b] False by (intro delete_okI) simp
qed

text \<open>A full node below a path, after one of its keys is deleted.\<close>

lemma merge_short_removed:
  assumes "nibbles k" "k \<noteq> []" "removed n s (Some m)" "s \<noteq> []"
  shows "\<exists>m'. merge_short k (Some m) = Deleted m' \<and> removed (Some (ShortNode k n)) (k @ s) m'"
proof -
  have m: "canonical m" "\<not> is_value m" using assms(3) by (auto simp: removed_def)
  have c: "content (Some (ShortNode k (Some m))) key = (if key = k @ s then None else content (Some (ShortNode k n)) key)"
    if "term_key key" for key
    using assms that nibbles_not_term by (intro content_cong_Short) (auto simp: removed_def)
  show ?thesis
  proof (cases m)
    case (ShortNode l d)
    have "canonical (ShortNode (k @ l) d)" using m(1) assms(1,2) term_key_nonempty unfolding ShortNode
      by (auto elim!: canonical_Short_cases simp: term_key_append)
    then show ?thesis using c ShortNode content_Short_append [of k l d] by (simp add: merge_short_def removed_def)
  next
    case (FullNode v cs)
    then show ?thesis using c m assms(1,2) by (simp add: merge_short_def removed_def)
  qed (use m in simp)
qed

lemma prefixLen_sym: "prefixLen a b = prefixLen b a"
  by (induction a b rule: prefixLen.induct) (auto simp: prefixLen.simps(2) elim: prefixLen.elims)

lemma removed_Full: "canonical (FullNode v cs) \<Longrightarrow> removed (Some (FullNode v cs)) s m \<Longrightarrow> \<exists>m'. m = Some m'"
proof -
  assume a: "canonical (FullNode v cs)" "removed (Some (FullNode v cs)) s m"
  from Full_fork [OF a(1)] obtain x y xs ys where f: "x \<noteq> y" "term_key (x # xs)" "term_key (y # ys)"
    "content (Some (FullNode v cs)) (x # xs) \<noteq> None" "content (Some (FullNode v cs)) (y # ys) \<noteq> None"
    by (elim exE conjE)
  have "content m key \<noteq> None" if "term_key key" "key \<noteq> s" "content (Some (FullNode v cs)) key \<noteq> None" for key
    using a(2) that unfolding removed_def by presburger
  from this [OF f(2) _ f(4)] this [OF f(3) _ f(5)] f(1) have "m \<noteq> None" by (metis content.simps(1) list.inject)
  then show ?thesis by simp
qed

lemma delete_ext:
  assumes "canonical (ShortNode k (Some (FullNode v cs)))" "term_key s"
    "\<And>key. term_key key \<Longrightarrow> content (Some (ShortNode k (Some (FullNode v cs)))) key \<noteq> None \<Longrightarrow> length key = length s"
    "\<And>r. s = k @ r \<Longrightarrow> term_key r \<Longrightarrow> delete_ok (Some (FullNode v cs)) r (delete S f (Some (FullNode v cs)) r)"
  shows "delete_ok (Some (ShortNode k (Some (FullNode v cs)))) s (delete S f (Some (ShortNode k (Some (FullNode v cs)))) s)"
proof -
  let ?c = "Some (FullNode v cs)" and ?p = "prefixLen s k"
  have k: "k \<noteq> []" "nibbles k" "canonical (FullNode v cs)" using assms(1) by auto
  have "?p \<noteq> length s"
  proof
    assume "?p = length s"
    then have "\<exists>r. k = s @ r" using prefixLen_all [of k s] by (simp add: prefixLen_sym)
    then show False using term_key_not_nibbles [OF assms(2)] k(2) by auto
  qed
  then have p: "?p < length s" using prefixLen_le(1) [of s k] by linarith
  show ?thesis
  proof (cases "\<exists>r. s = k @ r")
    case True
    then obtain r where r: "s = k @ r" ..
    then have pk: "?p = length k" using prefixLen_append [of k r "[]"] by simp
    have t: "term_key r" using drop_term_key [OF assms(2) p] pk r by simp
    have d: "delete S f (Some (ShortNode k ?c)) s = do {
        q \<leftarrow> delete S f ?c r;
        Some (case q of NotFound \<Rightarrow> NotFound | Deleted child \<Rightarrow> merge_short k child) }"
      using p pk k(1) r by (simp add: Let_def)
    show ?thesis
    proof (cases "content ?c r = None")
      case True
      then have "delete S f ?c r = Some NotFound" using assms(4) [OF r t] by (simp add: delete_ok_def)
      then show ?thesis unfolding d using True r by (simp add: delete_ok_def)
    next
      case False
      then obtain m where m: "delete S f ?c r = Some (Deleted m)" "removed ?c r m"
        using assms(4) [OF r t] by (auto simp: delete_ok_def)
      obtain m' where m': "m = Some m'" using removed_Full [OF k(3) m(2)] by blast
      then show ?thesis unfolding d
        using merge_short_removed [OF k(2,1) m(2) [unfolded m']] m False r term_key_nonempty [OF t]
        by (auto simp: delete_ok_def)
    qed
  next
    case False
    have "content (Some (ShortNode k ?c)) s = None" using False by (rule content_Short_other)
    moreover have "delete S f ?c (drop ?p s) = Some NotFound"
    proof (rule delete_longer)
      show "term_key (drop ?p s)" by (rule drop_term_key [OF assms(2) p])
      have "?p < length k" using False prefixLen_all [of s k] prefixLen_le(2) [of s k] by (meson order_le_imp_less_or_eq)
      then show "length r < length (drop ?p s)" if "term_key r" "content ?c r \<noteq> None" for r
        using assms(3) [of "k @ r"] that k(2) term_key_append [of r k] term_key_nonempty [of r] p by simp
    qed (use k in simp_all)
    ultimately show ?thesis using p by (simp add: delete_ok_def Let_def)
  qed
qed

lemma delete_Full:
  assumes ok: "full_ok v cs" "2 \<le> occupied v cs" and x: "x < 16" "term_key xs"
    and d: "delete_ok (cs ! unat x) xs (delete S f (cs ! unat x) xs)"
  shows "delete_ok (Some (FullNode v cs)) (x # xs) (delete S f (Some (FullNode v cs)) (x # xs))"
proof -
  have i: "unat x < length cs" using ok(1) unat_nibble [OF x(1)] by (simp add: full_ok_def)
  have e: "delete S f (Some (FullNode v cs)) (x # xs) = do {
      r \<leftarrow> delete S f (cs ! unat x) xs;
      (case r of NotFound \<Rightarrow> Some NotFound | Deleted m \<Rightarrow> collapse_full S v (cs[unat x := m])) }"
    using i x(1) by simp
  have c: "content (Some (FullNode v cs)) (x # xs) = content (cs ! unat x) xs" by (rule content_Full_child [OF ok(1) x(1)])
  show ?thesis
  proof (cases "content (cs ! unat x) xs = None")
    case True
    then have n: "delete S f (cs ! unat x) xs = Some NotFound" using d by (simp add: delete_ok_def)
    show ?thesis unfolding e n using c True by (simp add: delete_okI)
  next
    case False
    then obtain m where m: "delete S f (cs ! unat x) xs = Some (Deleted m)" "removed (cs ! unat x) xs m"
      using d by (auto simp: delete_ok_def)
    have "full_ok v (cs[unat x := m])" using full_ok_set_child [OF ok(1)] m(2) by (simp add: removed_def)
    moreover have "1 \<le> occupied v (cs[unat x := m])"
      using occupied_set_child [OF i, of v m] ok(2) by (auto split: if_splits)
    ultimately obtain n where n: "collapse_full S v (cs[unat x := m]) = Some (Deleted (Some n))" "canonical n" "\<not> is_value n"
      "\<forall>key. term_key key \<longrightarrow> content (Some n) key = content (Some (FullNode v (cs[unat x := m]))) key"
      using collapse_full_canonical by blast
    have "content (Some (FullNode v (cs[unat x := m]))) key = (if key = x # xs then None else content (Some (FullNode v cs)) key)"
      if "term_key key" for key
      using content_set_child [OF ok(1) x(1), of m xs None key] m(2) that by (simp add: removed_def)
    then have "removed (Some (FullNode v cs)) (x # xs) (Some n)" unfolding removed_def using n by simp
    moreover have "delete S f (Some (FullNode v cs)) (x # xs) = Some (Deleted (Some n))" unfolding e m using n(1) by simp
    ultimately show ?thesis using False c delete_okI(2) by metis
  qed
qed

text \<open>A full node of a trie with keys of one length has no value.\<close>

lemma value_uniform:
  assumes "full_ok v cs" "2 \<le> occupied v cs"
    "\<And>k. term_key k \<Longrightarrow> content (Some (FullNode v cs)) k \<noteq> None \<Longrightarrow> length k = 1"
  shows "v = None"
proof (rule ccontr)
  assume "v \<noteq> None"
  from two_edges [OF assms(1,2)] obtain x where x: "x < 16" "x \<le> 16" "edge v cs x \<noteq> None"
    by (metis order.strict_iff_order)
  from edge_key [OF assms(1) x(2,3)] obtain xs where xs: "term_key (x # xs)" "content (Some (FullNode v cs)) (x # xs) \<noteq> None"
    by blast
  from assms(3) [OF this] have "xs = []" by simp
  then show False using xs(1) x(1) by simp
qed

lemma delete_node:
  "canonical n \<Longrightarrow> \<not> is_value n \<Longrightarrow> term_key s \<Longrightarrow>
   (\<And>k. term_key k \<Longrightarrow> content (Some n) k \<noteq> None \<Longrightarrow> length k = length s) \<Longrightarrow> delete_ok (Some n) s (delete S f (Some n) s)"
proof (induction n arbitrary: s)
  case (ShortNode k c)
  show ?case using ShortNode.prems(1)
  proof (cases rule: canonical_Short_cases)
    case (leaf b)
    have "length k = length s" using ShortNode.prems(4) [of k] leaf leaf_content [of k k b] by simp
    then show ?thesis using delete_leaf leaf ShortNode.prems(3) by blast
  next
    case (ext v cs)
    show ?thesis unfolding ext(1)
    proof (rule delete_ext)
      fix r assume r: "s = k @ r" "term_key r"
      show "delete_ok (Some (FullNode v cs)) r (delete S f (Some (FullNode v cs)) r)"
      proof (rule ShortNode.IH)
        show "length key = length r" if "term_key key" "content (Some (FullNode v cs)) key \<noteq> None" for key
          using ShortNode.prems(4) [of "k @ key"] that ext(1,3) r term_key_append [of key k] term_key_nonempty [of key] by simp
      qed (use ext r in simp_all)
    qed (fact ShortNode.prems(1) [unfolded ext(1)] ShortNode.prems(3) ShortNode.prems(4) [unfolded ext(1)])+
  qed
next
  case (FullNode v cs)
  then have ok: "full_ok v cs" "2 \<le> occupied v cs" by (simp_all add: canonical_Full)
  from FullNode.prems(3) obtain x xs where s: "s = x # xs" by (cases s) auto
  with FullNode.prems(3) consider "x = 16" "xs = []" | "x < 16" "term_key xs" using term_key_edge by blast
  then show ?case
  proof cases
    case 1
    have v: "v = None" using value_uniform [OF ok] FullNode.prems(4) 1 s by auto
    then show ?thesis using 1 s by (simp add: delete_okI)
  next
    case 2
    have "delete_ok (cs ! unat x) xs (delete S f (cs ! unat x) xs)"
    proof (cases "cs ! unat x")
      case (Some n)
      have "Some n \<in> set cs" using Some ok(1) unat_nibble [OF 2(1)] by (metis full_ok_def nth_mem)
      moreover have "length k = length xs" if "term_key k" "content (Some n) k \<noteq> None" for k
        using FullNode.prems(4) [of "x # k"] that content_Full_child [OF ok(1) 2(1), of k] 2(1) s Some term_key_edge [of x k] by simp
      ultimately show ?thesis using FullNode.IH(2) [of "Some n" n xs] full_ok_child [OF ok(1) 2(1)] Some 2(2) by simp
    qed (simp add: delete_okI)
    then show ?thesis using delete_Full [OF ok 2] s by simp
  qed
qed simp

theorem delete_law:
  assumes "trie_ok t" "term_key s" "\<And>k. term_key k \<Longrightarrow> content t k \<noteq> None \<Longrightarrow> length k = length s"
  shows "delete_ok t s (delete S f t s)"
  using assms delete_node by (cases t) (auto simp: delete_okI simp del: delete.simps(2-7))

end
