(* ===== verification/Trie_Store.thy ===== *)
theory Trie_Store
  imports Trie_Delete
begin

text \<open>
  Tries in the storage: hashing and writing a trie, reading it back, and the operations
  on a trie some of whose nodes are references into the storage.
\<close>

section \<open>The compact encoding of paths\<close>

lemma nibble_pair:
  assumes "a < 16" "b < (16 :: byte)"
  shows "(push_bit 4 a OR b) div 16 = a" "(push_bit 4 a OR b) mod 16 = b"
proof -
  have b: "drop_bit 4 b = 0" "take_bit 4 b = b" and a: "take_bit 4 a = a"
    using assms by (auto simp: drop_bit_eq_div take_bit_eq_mod word_less_nat_alt word_unat_eq_iff unat_div unat_mod)
  have "drop_bit 4 (push_bit 4 a) = a" using a
    by (auto simp: bit_eq_iff bit_simps)
  then have "drop_bit 4 (push_bit 4 a OR b) = a" using b by simp
  then show "(push_bit 4 a OR b) div 16 = a" by (simp add: drop_bit_eq_div)
  have "take_bit 4 (push_bit 4 a OR b) = b" using b
    by (simp add: take_bit_push_bit)
  then show "(push_bit 4 a OR b) mod 16 = b" by (simp add: take_bit_eq_mod)
qed

lemma unpack_pack:
  "nibbles hex \<Longrightarrow> even (length hex) \<Longrightarrow> bytesToHexNibbles (pack_nibbles hex) = hex @ [16]"
  by (induction hex rule: pack_nibbles.induct) (auto simp: bytesToHexNibbles_def nibble_pair)

lemma pack_nibbles_flag: "nibbles hex \<Longrightarrow> flag < 4 \<Longrightarrow>
    bytesToHexNibbles (pack_nibbles (if odd (length hex) then flag # hex else flag # 0 # hex))
      = (if odd (length hex) then flag # hex else flag # 0 # hex) @ [16]"
  by (rule unpack_pack) (auto elim: order.strict_trans)

lemma decode_flag:
  assumes "nibbles hex" "b \<in> {0, 1}"
  shows "decodeCompact (pack_nibbles (if odd (length hex) then of_nat (2 * b + 1) # hex else of_nat (2 * b) # 0 # hex))
    = Some (if b = 1 then hex @ [16] else hex)"
proof -
  have f: "(of_nat (2 * b + 1) :: byte) < 4" "(of_nat (2 * b) :: byte) < 4" using assms(2) by auto
  show ?thesis
  proof (cases "odd (length hex)")
    case True
    then show ?thesis using pack_nibbles_flag [OF assms(1) f(1)] assms(2)
      by (auto simp: decodeCompact_def)
  next
    case False
    then show ?thesis using pack_nibbles_flag [OF assms(1) f(2)] assms(2)
      by (auto simp: decodeCompact_def)
  qed
qed

lemma term_key_snoc: "term_key k \<Longrightarrow> \<exists>hex. k = hex @ [16] \<and> nibbles hex"
  using term_key_append [of "[16]" "butlast k"]
  by (induction k) (auto split: if_splits)

lemma hasTerminator_term_key: "term_key k \<Longrightarrow> hasTerminator k"
  using term_key_snoc by (fastforce simp: hasTerminator_def)

lemma hasTerminator_nibbles: "nibbles k \<Longrightarrow> \<not> hasTerminator k"
  by (cases k rule: rev_cases) (auto simp: hasTerminator_def)

lemma decode_encode:
  assumes "term_key k \<or> nibbles k"
  shows "decodeCompact (encodeCompact k) = Some k"
proof (cases "term_key k")
  case True
  then obtain hex where k: "k = hex @ [16]" "nibbles hex" using term_key_snoc by blast
  then show ?thesis using decode_flag [OF k(2), of 1] hasTerminator_term_key [OF True]
    by (simp add: encodeCompact_def odd_iff_mod_2_eq_one Let_def split: if_splits)
next
  case False
  then have k: "nibbles k" using assms by simp
  then show ?thesis using decode_flag [OF k, of 0] hasTerminator_nibbles [OF k]
    by (simp add: encodeCompact_def odd_iff_mod_2_eq_one Let_def split: if_splits)
qed

section \<open>Tries with references\<close>

text \<open>
  \<open>rep S d n t\<close>: following at most \<open>d\<close> references in a row from the root, the node \<open>n\<close>
  stands for the trie \<open>t\<close>, all of whose nodes are in memory.
\<close>

inductive rep :: "Storage \<Rightarrow> nat \<Rightarrow> Node option \<Rightarrow> Node option \<Rightarrow> bool" for S where
  rep_None: "rep S d None None"
| rep_Value: "rep S d (Some (ValueNode False b)) (Some (ValueNode False b))"
| rep_Ref: "resolve S buf = Some (Some n) \<Longrightarrow> \<not> is_value n \<Longrightarrow> rep S d (Some n) t \<Longrightarrow> length buf = 32 \<Longrightarrow>
    rep S (Suc d) (Some (ValueNode True buf)) t"
| rep_Short: "rep S d c c' \<Longrightarrow> rep S d (Some (ShortNode k c)) (Some (ShortNode k c'))"
| rep_Full: "list_all2 (rep S d) cs cs' \<Longrightarrow> (\<And>m. v = Some m \<Longrightarrow> \<exists>b. m = ValueNode False b) \<Longrightarrow>
    rep S d (Some (FullNode v cs)) (Some (FullNode v cs'))"
monos list_all2_mono

inductive_cases rep_RefE: "rep S d (Some (ValueNode True b)) t"

lemma rep_None_iff: "rep S d n t \<Longrightarrow> n = None \<longleftrightarrow> t = None"
  by (induction rule: rep.induct) auto

lemma rep_is_value: "rep S d n t \<Longrightarrow> t = Some (ValueNode h b) \<Longrightarrow> n = t"
  by (induction rule: rep.induct) auto

lemma rep_mono: "rep S d n t \<Longrightarrow> d \<le> e \<Longrightarrow> rep S e n t"
proof (induction arbitrary: e rule: rep.induct)
  case (rep_Ref buf n d t)
  then obtain e' where "e = Suc e'" "d \<le> e'" by (cases e) auto
  then show ?case using rep_Ref rep.rep_Ref by blast
next
  case (rep_Full d cs cs' v)
  then have "list_all2 (rep S e) cs cs'" by (auto elim: list_all2_mono)
  then show ?case using rep_Full rep.rep_Full by blast
qed (auto intro: rep.intros)

lemma rep_child: "list_all2 (rep S d) cs cs' \<Longrightarrow> i < length cs \<Longrightarrow> rep S d (cs ! i) (cs' ! i)"
  by (simp add: list_all2_conv_all_nth)

text \<open>Fuel is of no concern to a trie in memory.\<close>

lemma lookup_pure: "rep S d n t \<Longrightarrow> lookup S f t key = lookup S g t key"
proof (induction arbitrary: key rule: rep.induct)
  case (rep_Full d cs cs' v)
  then have v: "lookup S f v key = lookup S g v key" for key by (cases v) auto
  show ?case
  proof (cases key)
    case (Cons x xs)
    then show ?thesis using rep_Full v list_all2_nthD2 [OF rep_Full(1), of "unat x"] by simp
  qed (use v in simp)
qed simp_all

text \<open>Enough fuel makes a lookup follow every reference.\<close>

lemma lookup_rep: "rep S d n t \<Longrightarrow> d \<le> f \<Longrightarrow> lookup S f n key = lookup S f t key"
proof (induction arbitrary: f key rule: rep.induct)
  case (rep_Ref buf n d t)
  then obtain f' where f: "f = Suc f'" "d \<le> f'" by (cases f) auto
  have "lookup S f' t key = lookup S f t key" using lookup_pure rep_Ref.hyps(3) .
  then show ?case using rep_Ref f by simp
next
  case (rep_Full d cs cs' v)
  then have l: "length cs = length cs'" by (auto dest: list_all2_lengthD)
  show ?case
  proof (cases key)
    case (Cons x xs)
    then show ?thesis using rep_Full l list_all2_nthD [OF rep_Full(1), of "unat x"] by simp
  qed simp
qed simp_all

section \<open>Insertion with references\<close>

lemma insert_unique:
  assumes "trie_ok t" "term_key s" "insert S f t s val = Some (Some m)"
  shows "insert S' g t s val = Some (Some m)"
proof -
  obtain m' where m': "insert S' g t s val = Some (Some m')" "inserted t s val m'" using insert_law [OF assms(1,2)] by blast
  obtain m'' where "insert S f t s val = Some (Some m'')" "inserted t s val m''" using insert_law [OF assms(1,2)] by blast
  then have "inserted t s val m" using assms(3) by simp
  with m'(2) have "m = m'" by (intro canonical_unique) (simp_all add: inserted_def same_content_def)
  then show ?thesis using m'(1) by simp
qed

lemma insert_empty_edge:
  assumes "x < 16" "term_key xs" "length cs = 16" "cs ! unat x = None"
  shows "insert S f (Some (FullNode v cs)) (x # xs) val
    = Some (Some (FullNode v (cs[unat x := Some (ShortNode xs (Some (ValueNode False val)))])))"
  using assms unat_nibble [OF assms(1)] insert_new [OF assms(2), of S f val]
  by (simp add: getEdge_def setEdge_def)

lemma insert_value_edge:
  assumes "\<And>n. v = Some n \<Longrightarrow> \<exists>b. n = ValueNode False b"
  shows "insert S f (Some (FullNode v cs)) [16] val = Some (Some (FullNode (Some (ValueNode False val)) cs))"
  using assms by (cases v) (auto simp: getEdge_def setEdge_def)

definition insert_sim :: "Storage \<Rightarrow> nat \<Rightarrow> nat \<Rightarrow> Node option \<Rightarrow> Node option \<Rightarrow> byte list \<Rightarrow> byte list \<Rightarrow> bool" where
  "insert_sim S d f n t s val \<longleftrightarrow>
     (\<exists>m m'. insert S f n s val = Some (Some m) \<and> insert S f t s val = Some (Some m') \<and> rep S d (Some m) (Some m'))"

lemma rep_setEdge:
  assumes "rep S d c c'" "c \<noteq> None" "(\<exists>b. c' = Some (ValueNode False b)) \<longleftrightarrow> y = 16"
    "setEdge None (replicate 16 None) y c' = Some b'"
  shows "\<exists>v cs cs'. setEdge None (replicate 16 None) y c = Some (FullNode v cs) \<and> b' = FullNode v cs' \<and>
     list_all2 (rep S d) cs cs' \<and> (\<forall>m. v = Some m \<longrightarrow> (\<exists>b. m = ValueNode False b)) \<and>
     length cs = 16 \<and> (\<forall>i < 16. cs ! i = None \<longleftrightarrow> cs' ! i = None)"
proof -
  have n: "list_all2 (rep S d) (replicate 16 None) (replicate 16 None)" by (simp add: list_all2_conv_all_nth rep_None)
  show ?thesis
  proof (cases "y = 16")
    case True
    then obtain b where "c' = Some (ValueNode False b)" using assms(3) by blast
    moreover from this have "c = c'" using rep_is_value assms(1) by blast
    ultimately show ?thesis using assms(4) True n by (auto simp: setEdge_def)
  next
    case False
    have "list_all2 (rep S d) ((replicate 16 None)[unat y := c]) ((replicate 16 None)[unat y := c'])"
      by (rule list_all2_update_cong [OF n assms(1)])
    moreover from this have "\<forall>i < 16. (replicate 16 None)[unat y := c] ! i = None \<longleftrightarrow> (replicate 16 None)[unat y := c'] ! i = None"
      using rep_None_iff by (metis length_list_update length_replicate list_all2_nthD)
    ultimately show ?thesis using assms(4) False by (auto simp: setEdge_def split: if_splits)
  qed
qed

lemma split_short_sim:
  assumes c: "canonical (ShortNode (q @ y # ys) c')" and r: "rep S d c c'"
  shows "\<exists>v cs cs'. split_short (q @ y # ys) c (length q) = Some (FullNode v cs) \<and>
     split_short (q @ y # ys) c' (length q) = Some (FullNode v cs') \<and>
     list_all2 (rep S d) cs cs' \<and> (\<forall>m. v = Some m \<longrightarrow> (\<exists>b. m = ValueNode False b)) \<and> length cs = 16 \<and>
     (\<forall>x. x < 16 \<longrightarrow> x \<noteq> y \<longrightarrow> cs ! unat x = None)"
proof -
  let ?e = "\<lambda>c. if ys \<noteq> [] then Some (ShortNode ys c) else c"
  have c1: "canonical (ShortNode (y # ys) c')" using canonical_Short_suffix(1) [OF c] by simp
  have e: "rep S d (?e c) (?e c')" using r by (auto intro: rep_Short)
  have c'': "c' \<noteq> None" using c1 by (auto elim: canonical_Short_cases)
  have sp: "split_short (q @ y # ys) c0 (length q) = setEdge None (replicate 16 None) y (?e c0)" for c0
    by (simp add: split_short_def nth_append)
  have y: "(\<exists>b. ?e c' = Some (ValueNode False b)) \<longleftrightarrow> y = 16" "(y = 16 \<and> ys = []) \<or> y < 16"
    using c1 by (auto elim!: canonical_Short_cases split: if_splits)
  have "\<exists>v cs'. setEdge None (replicate 16 None) y (?e c') = Some (FullNode v cs') \<and>
      (\<forall>x. x < 16 \<longrightarrow> x \<noteq> y \<longrightarrow> cs' ! unat x = None)"
  proof (cases "y < 16")
    case True
    then show ?thesis using split_short_nibble [OF c1 True, of q] sp [of c'] by metis
  next
    case False
    then show ?thesis using split_short_leaf [of c' q] c1 y(2) sp [of c'] unat_nibble by (metis nth_replicate)
  qed
  then obtain v cs' where f: "setEdge None (replicate 16 None) y (?e c') = Some (FullNode v cs')"
    "\<forall>x. x < 16 \<longrightarrow> x \<noteq> y \<longrightarrow> cs' ! unat x = None" by blast
  have ne: "?e c \<noteq> None" using rep_None_iff [OF e] c'' by auto
  from rep_setEdge [OF e ne y(1) f(1)] obtain cs where
    "setEdge None (replicate 16 None) y (?e c) = Some (FullNode v cs)" "list_all2 (rep S d) cs cs'"
    "\<forall>m. v = Some m \<longrightarrow> (\<exists>b. m = ValueNode False b)" "length cs = 16" "\<forall>i < 16. cs ! i = None \<longleftrightarrow> cs' ! i = None"
    by blast
  then show ?thesis using f unat_nibble unfolding sp by (intro exI [of _ v] exI [of _ cs] exI [of _ cs']) simp
qed

lemma insert_split_sim:
  assumes c: "canonical (ShortNode k c')" and r: "rep S d c c'" and s: "term_key s" and p: "prefixLen s k \<noteq> length k"
  shows "insert_sim S d f (Some (ShortNode k c)) (Some (ShortNode k c')) s val"
proof -
  have "nibbles k \<or> term_key k" using c by (auto elim!: canonical_Short_cases)
  moreover have "prefixLen s k < length k" using p prefixLen_le(2) [of s k] by linarith
  ultimately obtain q x xs y ys where q: "s = q @ x # xs" "k = q @ y # ys" "x \<noteq> y" "prefixLen s k = length q"
    using prefixLen_split s by blast
  obtain v cs cs' where b: "split_short k c (length q) = Some (FullNode v cs)"
    "split_short k c' (length q) = Some (FullNode v cs')" "list_all2 (rep S d) cs cs'"
    "\<forall>m. v = Some m \<longrightarrow> (\<exists>b. m = ValueNode False b)" "length cs = 16" "\<forall>x. x < 16 \<longrightarrow> x \<noteq> y \<longrightarrow> cs ! unat x = None"
    using split_short_sim [OF c [unfolded q(2)] r] q(2) by blast
  have ins: "insert S f (Some (ShortNode k c0)) s val = (case insert S f (Some b0) (x # xs) val of
      None \<Rightarrow> None | Some child \<Rightarrow> Some (if q = [] then child else Some (ShortNode q child)))"
    if "split_short k c0 (length q) = Some b0" for c0 b0
    using that q by (simp add: Let_def split: option.split)
  have "term_key (x # xs)" using s q(1) term_key_append by blast
  then consider "x = 16" "xs = []" | "x < 16" "term_key xs" using term_key_edge by blast
  then have "\<exists>m m'. insert S f (Some (FullNode v cs)) (x # xs) val = Some (Some m) \<and>
      insert S f (Some (FullNode v cs')) (x # xs) val = Some (Some m') \<and> rep S d (Some m) (Some m')"
  proof cases
    case 1
    then show ?thesis using b(3,4) insert_value_edge [of v S f] by (auto intro!: rep_Full)
  next
    case 2
    let ?l = "Some (ShortNode xs (Some (ValueNode False val)))"
    have x: "cs ! unat x = None" using b(6) 2(1) q(3) by blast
    then have x': "cs' ! unat x = None" using list_all2_nthD [OF b(3), of "unat x"] unat_nibble [OF 2(1)] b(5) rep_None_iff by metis
    have "list_all2 (rep S d) (cs[unat x := ?l]) (cs'[unat x := ?l])"
      by (rule list_all2_update_cong [OF b(3)]) (intro rep_Short rep_Value)
    then show ?thesis
      using insert_empty_edge [OF 2 b(5) x] insert_empty_edge [OF 2 _ x'] b(4,5) list_all2_lengthD [OF b(3)]
      by (auto intro!: rep_Full)
  qed
  then show ?thesis unfolding insert_sim_def ins [OF b(1)] ins [OF b(2)] by (auto intro!: rep_Short)
qed

lemma insert_simI:
  "insert S f n s val = Some (Some m) \<Longrightarrow> insert S f t s val = Some (Some m') \<Longrightarrow> rep S d (Some m) (Some m') \<Longrightarrow>
   insert_sim S d f n t s val"
  by (auto simp: insert_sim_def)

lemma insert_prefix_sim:
  assumes "s = k @ r" "insert_sim S d f c c' r val"
  shows "insert_sim S d f (Some (ShortNode k c)) (Some (ShortNode k c')) s val"
proof -
  have p: "prefixLen s k = length k" using prefixLen_append [of k r "[]"] assms(1) by simp
  show ?thesis using assms p by (auto simp: insert_sim_def Let_def intro: rep_Short)
qed

lemma insert_edge_sim:
  assumes "x < 16" "length cs = 16" "list_all2 (rep S d) cs cs'" "\<And>m. v = Some m \<Longrightarrow> \<exists>b. m = ValueNode False b"
    "insert_sim S d f (cs ! unat x) (cs' ! unat x) xs val"
  shows "insert_sim S d f (Some (FullNode v cs)) (Some (FullNode v cs')) (x # xs) val"
proof -
  from assms(5) obtain m m' where m: "insert S f (cs ! unat x) xs val = Some (Some m)"
    "insert S f (cs' ! unat x) xs val = Some (Some m')" "rep S d (Some m) (Some m')" by (auto simp: insert_sim_def)
  have "list_all2 (rep S d) (cs[unat x := Some m]) (cs'[unat x := Some m'])"
    by (rule list_all2_update_cong [OF assms(3) m(3)])
  then have "rep S d (Some (FullNode v (cs[unat x := Some m]))) (Some (FullNode v (cs'[unat x := Some m'])))"
    using assms(4) by (rule rep_Full)
  then show ?thesis
    by (rule insert_simI [rotated 2])
      (use m assms(1,2) unat_nibble [OF assms(1)] list_all2_lengthD [OF assms(3)] in \<open>simp_all add: getEdge_def setEdge_def\<close>)
qed

lemma insert_rep:
  "rep S d n t \<Longrightarrow> d \<le> f \<Longrightarrow> trie_ok t \<Longrightarrow> term_key s \<Longrightarrow> insert_sim S d f n t s val"
proof (induction arbitrary: f s rule: rep.induct)
  case (rep_None d)
  then show ?case using insert_new [of s S f val] by (intro insert_simI) (auto intro!: rep_Short rep_Value)
next
  case (rep_Ref buf n d t)
  then obtain f' where f: "f = Suc f'" "d \<le> f'" by (cases f) auto
  then obtain m m' where m: "insert S f' (Some n) s val = Some (Some m)" "insert S f' t s val = Some (Some m')"
    "rep S d (Some m) (Some m')" using rep_Ref.IH rep_Ref.prems by (fastforce simp: insert_sim_def)
  have "insert S f t s val = Some (Some m')" using insert_unique rep_Ref.prems(2,3) m(2) .
  moreover have "insert S f (Some (ValueNode True buf)) s val = Some (Some m)" using f m(1) rep_Ref.hyps(1) by simp
  ultimately show ?case using rep_mono [OF m(3), of "Suc d"] by (intro insert_simI) simp_all
next
  case (rep_Short d c c' k)
  have c: "canonical (ShortNode k c')" using rep_Short.prems(2) by simp
  show ?case
  proof (cases "prefixLen s k = length k")
    case False
    then show ?thesis using insert_split_sim [OF c rep_Short.hyps rep_Short.prems(3)] by simp
  next
    case True
    then obtain r where r: "s = k @ r" using prefixLen_all by blast
    from c show ?thesis
    proof (cases rule: canonical_Short_cases)
      case (leaf b)
      then have "r = []" using term_key_prefix [of k r] r rep_Short.prems(3) by simp
      moreover have "c = c'" using rep_is_value [OF rep_Short.hyps leaf(1)] .
      ultimately have "insert_sim S d f c c' r val" using leaf(1) rep_Value by (simp add: insert_sim_def)
      then show ?thesis using insert_prefix_sim [OF r] by blast
    next
      case (ext v cs)
      have "term_key r" using nibbles_not_term [OF rep_Short.prems(3) ext(3) r] rep_Short.prems(3) r term_key_append by blast
      then have "insert_sim S d f c c' r val" using rep_Short.IH [OF rep_Short.prems(1)] ext by simp
      then show ?thesis using insert_prefix_sim [OF r] by blast
    qed
  qed
next
  case (rep_Full d cs cs' v)
  have l: "list_all2 (rep S d) cs cs'" using rep_Full(1) by (auto elim: list_all2_mono)
  have ok: "full_ok v cs'" using rep_Full.prems(2) by (simp add: canonical_Full)
  then have len: "length cs = 16" using list_all2_lengthD [OF l] by (simp add: full_ok_def)
  from rep_Full.prems(3) obtain x xs where s: "s = x # xs" by (cases s) auto
  with rep_Full.prems(3) consider "x = 16" "xs = []" | "x < 16" "term_key xs" using term_key_edge by blast
  then show ?case
  proof cases
    case 1
    have "rep S d (Some (FullNode (Some (ValueNode False val)) cs)) (Some (FullNode (Some (ValueNode False val)) cs'))"
      using l by (rule rep.rep_Full) simp
    then show ?thesis by (rule insert_simI [rotated 2]) (use 1 s insert_value_edge [of v S f] rep_Full(2) in simp_all)
  next
    case 2
    have "insert_sim S d f (cs ! unat x) (cs' ! unat x) xs val"
      using list_all2_nthD [OF rep_Full(1), of "unat x"] len unat_nibble [OF 2(1)] rep_Full.prems(1)
        full_ok_child [OF ok 2(1)] 2(2) by simp
    then show ?thesis using insert_edge_sim [OF 2(1) len l] rep_Full(2) s by blast
  qed
qed simp

section \<open>Deletion with references\<close>

definition delete_sim :: "Storage \<Rightarrow> nat \<Rightarrow> deleted go \<Rightarrow> deleted go \<Rightarrow> bool" where
  "delete_sim S d r r' \<longleftrightarrow> (r = None \<and> r' = None) \<or> (r = Some NotFound \<and> r' = Some NotFound) \<or>
     (\<exists>m m'. r = Some (Deleted m) \<and> r' = Some (Deleted m') \<and> rep S d m m' \<and> (\<forall>n. m = Some n \<longrightarrow> \<not> is_value n))"

lemma delete_sim_Deleted:
  "rep S d m m' \<Longrightarrow> (\<And>n. m = Some n \<Longrightarrow> \<not> is_value n) \<Longrightarrow> delete_sim S d (Some (Deleted m)) (Some (Deleted m'))"
  by (simp add: delete_sim_def)

lemma scan_children_rep: "list_all2 (rep S d) cs cs' \<Longrightarrow> scan_children i indx cs = scan_children i indx cs'"
  by (induction arbitrary: i indx rule: list_all2_induct) (auto dest: rep_None_iff)

lemma rep_cases2:
  assumes "rep S d (Some n) t" "\<not> is_value n"
  obtains k c c' where "n = ShortNode k c" "t = Some (ShortNode k c')" "rep S d c c'"
  | v cs cs' where "n = FullNode v cs" "t = Some (FullNode v cs')" "list_all2 (rep S d) cs cs'"
  using assms by (cases rule: rep.cases) auto

lemma only_child_sim:
  assumes "rep S d (Some n) t" "\<not> is_value n"
  shows "delete_sim S d (Some (only_child i (Some n))) (Some (only_child i t))"
  using assms
proof (cases rule: rep_cases2)
  case (1 k c c')
  then show ?thesis using rep_Short [OF 1(3)] by (auto simp: only_child_def intro!: delete_sim_Deleted)
next
  case (2 v cs cs')
  then show ?thesis using rep_Short [OF assms(1)] by (auto simp: only_child_def intro!: delete_sim_Deleted)
qed

lemma merge_short_sim:
  assumes "rep S d m m'" "\<And>n. m = Some n \<Longrightarrow> \<not> is_value n"
  shows "delete_sim S d (Some (merge_short k m)) (Some (merge_short k m'))"
proof (cases m)
  case None
  then have "m' = None" using rep_None_iff [OF assms(1)] by simp
  then show ?thesis using None by (auto simp: merge_short_def intro!: delete_sim_Deleted rep_None)
next
  case (Some n)
  with assms have "rep S d (Some n) m'" "\<not> is_value n" by auto
  then show ?thesis
  proof (cases rule: rep_cases2)
    case (1 l c c')
    then show ?thesis using Some rep_Short [OF 1(3)] by (auto simp: merge_short_def intro!: delete_sim_Deleted)
  next
    case (2 v cs cs')
    then show ?thesis using Some rep_Short [of S d "Some n"] \<open>rep S d (Some n) m'\<close>
      by (auto simp: merge_short_def intro!: delete_sim_Deleted)
  qed
qed

lemma collapse_one:
  assumes "scan_children 0 None cs = (Some j, False)"
  shows "cs ! j = Some n \<Longrightarrow> (\<And>buf. n \<noteq> ValueNode True buf) \<Longrightarrow> collapse_full S None cs = Some (only_child j (Some n))"
    and "cs ! j = Some (ValueNode True buf) \<Longrightarrow> resolve S buf = Some (Some n) \<Longrightarrow>
      collapse_full S None cs = Some (only_child j (Some n))"
  using assms by (auto simp: collapse_full_def split: Node.split bool.split)

lemma collapse_full_sim:
  assumes l: "list_all2 (rep S d) cs cs'" and v: "\<And>m. v = Some m \<Longrightarrow> \<exists>b. m = ValueNode False b"
  shows "delete_sim S d (collapse_full S v cs) (collapse_full S v cs')"
proof -
  have full: "rep S d (Some (FullNode v cs)) (Some (FullNode v cs'))" using l v by (rule rep_Full)
  show ?thesis
  proof (cases rule: scan_children_cases [of 0 cs'])
    case none
    then show ?thesis using scan_children_rep [OF l] v rep_Short [OF rep_Value]
      by (cases v) (auto simp: collapse_full_def intro!: delete_sim_Deleted rep_None)
  next
    case (one j t)
    show ?thesis
    proof (cases v)
      case None
      have j: "rep S d (cs ! j) (Some t)" using list_all2_nthD2 [OF l one(2)] one(3) by simp
      have sc: "scan_children 0 None cs = (Some j, False)" "scan_children 0 None cs' = (Some j, False)"
        using one(1) scan_children_rep [OF l] by simp_all
      from j show ?thesis
      proof (cases rule: rep.cases)
        case (rep_Ref buf n e)
        have n: "rep S d (Some n) (Some t)" using rep_mono [OF rep_Ref(5)] rep_Ref(1) by simp
        have "t \<noteq> ValueNode h b" for h b using rep_is_value [OF n] rep_Ref(4) by auto
        then have "collapse_full S None cs' = Some (only_child j (Some t))" using collapse_one(1) [OF sc(2) one(3)] by blast
        moreover have "collapse_full S None cs = Some (only_child j (Some n))"
          using collapse_one(2) [OF sc(1)] rep_Ref by blast
        ultimately show ?thesis using only_child_sim [OF n rep_Ref(4)] None by simp
      next
        case (rep_Value b)
        then have "collapse_full S None cs = Some (only_child j (Some t))" "collapse_full S None cs' = Some (only_child j (Some t))"
          using collapse_one(1) [OF sc(1), of t] collapse_one(1) [OF sc(2) one(3)] by auto
        then show ?thesis using rep_Value rep_Short [OF rep.rep_Value] None
          by (auto simp: only_child_def intro!: delete_sim_Deleted)
      next
        case (rep_Short c c' k)
        then have "collapse_full S None cs = Some (only_child j (Some (ShortNode k c)))"
          "collapse_full S None cs' = Some (only_child j (Some t))"
          using collapse_one(1) [OF sc(1), of "ShortNode k c"] collapse_one(1) [OF sc(2) one(3)] by auto
        then show ?thesis using only_child_sim [of S d "ShortNode k c" "Some t"] j rep_Short None by simp
      next
        case (rep_Full ds ds' w)
        then have "collapse_full S None cs = Some (only_child j (Some (FullNode w ds)))"
          "collapse_full S None cs' = Some (only_child j (Some t))"
          using collapse_one(1) [OF sc(1), of "FullNode w ds"] collapse_one(1) [OF sc(2) one(3)] by auto
        then show ?thesis using only_child_sim [of S d "FullNode w ds" "Some t"] j rep_Full None by simp
      qed
    next
      case (Some m)
      then show ?thesis using one scan_children_rep [OF l] full
        by (auto simp: collapse_full_def intro!: delete_sim_Deleted)
    qed
  next
    case (more j)
    then show ?thesis using scan_children_rep [OF l] full
      by (auto simp: collapse_full_def intro!: delete_sim_Deleted)
  qed
qed

lemma delete_pure: "rep S d n t \<Longrightarrow> delete S f t s = delete S g t s"
proof (induction arbitrary: s rule: rep.induct)
  case (rep_Short d c c' k)
  then show ?case by (simp add: Let_def)
next
  case (rep_Full d cs cs' v)
  then have v: "delete S f v s = delete S g v s" for s by (cases v) auto
  show ?case
  proof (cases s)
    case (Cons x xs)
    then show ?thesis using rep_Full v list_all2_nthD2 [OF rep_Full(1), of "unat x"] by (simp add: Let_def)
  qed simp
qed simp_all

lemma delete_rep: "rep S d n t \<Longrightarrow> d \<le> f \<Longrightarrow> delete_sim S d (delete S f n s) (delete S f t s)"
proof (induction arbitrary: f s rule: rep.induct)
  case (rep_Value d b)
  then show ?case by (auto simp: delete_sim_def intro: rep_None)
next
  case (rep_Ref buf n d t)
  then obtain f' where f: "f = Suc f'" "d \<le> f'" by (cases f) auto
  have "delete_sim S (Suc d) (delete S f' (Some n) s) (delete S f' t s)"
    using rep_Ref.IH [OF f(2), of s] rep_mono by (fastforce simp: delete_sim_def)
  moreover have "delete S f' t s = delete S f t s" using delete_pure rep_Ref.hyps(3) .
  ultimately show ?case using rep_Ref f by simp
next
  case (rep_Short d c c' k)
  let ?p = "prefixLen s k"
  have "delete_sim S d (delete S f c (drop ?p s)) (delete S f c' (drop ?p s))" using rep_Short by simp
  then show ?case using merge_short_sim by (auto simp: Let_def delete_sim_def [of S d _ "delete S f c' (drop ?p s)"])
      (auto simp: delete_sim_def rep_None)
next
  case (rep_Full d cs cs' v)
  have l: "list_all2 (rep S d) cs cs'" using rep_Full(1) by (auto elim: list_all2_mono)
  show ?case
  proof (cases s)
    case Nil
    then show ?thesis by (simp add: delete_sim_def)
  next
    case (Cons x xs)
    show ?thesis
    proof (cases "x = 16")
      case True
      have "delete S f v xs = Some NotFound \<or> delete S f v xs = Some (Deleted None)"
        using rep_Full(2) by (cases v) auto
      then show ?thesis using True Cons collapse_full_sim [OF l, of None] by (auto simp: delete_sim_def [of S d "Some NotFound"])
    next
      case False
      show ?thesis
      proof (cases "unat x < length cs")
        case i: True
        have "delete_sim S d (delete S f (cs ! unat x) xs) (delete S f (cs' ! unat x) xs)"
          using list_all2_nthD [OF rep_Full(1) i] rep_Full.prems by simp
        moreover have "delete_sim S d (collapse_full S v (cs[unat x := m])) (collapse_full S v (cs'[unat x := m']))"
          if "rep S d m m'" for m m'
          using collapse_full_sim [OF list_all2_update_cong [OF l that]] rep_Full(2) by blast
        ultimately show ?thesis using Cons False i list_all2_lengthD [OF l]
          by (auto simp: delete_sim_def [of S d "delete S f (cs ! unat x) xs"] delete_sim_def [of S d "Some NotFound"] delete_sim_def [of S d None])
      next
        case i: False
        then show ?thesis using Cons False list_all2_lengthD [OF l] by (simp add: delete_sim_def)
      qed
    qed
  qed
qed (auto simp: delete_sim_def)

end
