(* ===== verification/Trie_Commit.thy ===== *)
theory Trie_Commit
  imports Trie_Store
begin

text \<open>
  A trie that has been hashed and written can be opened by its root and read back.
\<close>

section \<open>What the code relies on\<close>

text \<open>
  The parser inverts the encoder, which never yields the empty string, the hash has 32
  bytes, and the size of a string is its length.
\<close>

definition codec_ok :: "Hasher \<Rightarrow> Storage \<Rightarrow> bool" where
  "codec_ok H S \<longleftrightarrow> (\<forall>v. rlp_Parse S (rlp_Marshal H v) = Some v) \<and> (\<forall>v. rlp_Marshal H v \<noteq> []) \<and>
     (\<forall>b. length (Keccak256 H b) = 32) \<and> (\<forall>b. rlp_Len H (TypeBytes b) = length b)"

definition written :: "Storage \<Rightarrow> writes \<Rightarrow> bool" where
  "written S ws \<longleftrightarrow> (\<forall>(h, d) \<in> set ws. storage_Get S h = Inr (Some d))"

text \<open>No two different nodes, of the batch or already stored, have the same hash.\<close>

definition collision_free :: "Storage \<Rightarrow> writes \<Rightarrow> bool" where
  "collision_free S ws \<longleftrightarrow>
     (\<forall>(h, d) \<in> set ws. (\<forall>(h', d') \<in> set ws. h = h' \<longrightarrow> d = d') \<and> storage_Get S h \<in> {Inr None, Inr (Some d)})"

lemma written_append [simp]: "written S (ws @ us) \<longleftrightarrow> written S ws \<and> written S us"
  by (auto simp: written_def)

lemma written_batch: "collision_free S ws \<Longrightarrow> written (Batch_Write S ws) ws"
proof -
  assume c: "collision_free S ws"
  have "map_of (rev ws) h = Some d" if "(h, d) \<in> set ws" for h d
  proof -
    from that obtain d' where d': "map_of (rev ws) h = Some d'" by (metis map_of_eq_None_iff not_None_eq set_rev image_eqI fst_conv)
    then have "(h, d') \<in> set ws" using map_of_SomeD by fastforce
    with c that have "d = d'" by (auto simp: collision_free_def)
    then show ?thesis using d' by simp
  qed
  then show ?thesis by (auto simp: written_def Batch_Write_def)
qed

lemma codec_ok_batch: "codec_ok H (Batch_Write S ws) \<longleftrightarrow> codec_ok H S"
  by (simp add: codec_ok_def Batch_Write_def)

section \<open>Decoding what was hashed\<close>

lemma decode_short_not_value: "decode_short vs rs = Some (Inr n) \<Longrightarrow> \<not> is_value n"
  unfolding decode_short_def
  by (cases "vs ! 0"; cases "vs ! 1") (auto split: bind_splits if_split_asm sum.split_asm)

lemma decode_full_not_value: "decode_full vs rs = Some (Inr n) \<Longrightarrow> \<not> is_value n"
  unfolding decode_full_def
  by (cases "vs ! 16") (auto split: bind_splits sum.split_asm)

lemma decodeNode_Array: "decodeNode (TypeArray vs) = Some (Inr n) \<Longrightarrow> \<not> is_value n"
  using decode_short_not_value decode_full_not_value by (auto simp: Let_def split: if_splits)

lemma GetNode_written:
  assumes "codec_ok H S" "storage_Get S h = Inr (Some (rlp_Marshal H (TypeArray vs)))" "decodeNode (TypeArray vs) = Some (Inr n)"
  shows "GetNode S h = Some (Inr (Some n))" "resolve S h = Some (Some n)"
  using assms by (simp_all add: GetNode_def resolve_def codec_ok_def del: decodeNode.simps)

lemma case_Inr_Some: "(case z of Inl e \<Rightarrow> Inl e | Inr n \<Rightarrow> Inr (Some n)) = Inr (Some m) \<longleftrightarrow> z = Inr m"
  by (cases z) auto

lemma GetNode_not_value: "GetNode S h = Some (Inr (Some n)) \<Longrightarrow> \<not> is_value n"
  using decodeNode_Array
  by (cases "storage_Get S h")
    (auto simp: GetNode_def case_Inr_Some simp del: decodeNode.simps split: option.split_asm rlp_value.split_asm if_split_asm)

text \<open>A value that decodes to a node standing for \<open>n\<close>.\<close>

definition decodes :: "Storage \<Rightarrow> rlp_value \<Rightarrow> Node \<Rightarrow> bool" where
  "decodes S val n \<longleftrightarrow> val \<noteq> TypeBytes [] \<and>
     (\<exists>m d. decodeNode val = Some (Inr m) \<and> rep S d (Some m) (Some n))"

lemma hash_value_decodes:
  assumes c: "codec_ok H S" and w: "written S (snd (hash_value H (TypeArray vs) ws))"
    and d: "decodeNode (TypeArray vs) = Some (Inr m)" "rep S d (Some m) (Some n)"
  shows "decodes S (fst (hash_value H (TypeArray vs) ws)) n"
proof (cases "rlp_Len H (TypeArray vs) < 32")
  case True
  then show ?thesis using d unfolding decodes_def by (auto simp: hash_value_def simp del: decodeNode.simps)
next
  case False
  let ?h = "Keccak256 H (rlp_Marshal H (TypeArray vs))"
  have h: "storage_Get S ?h = Inr (Some (rlp_Marshal H (TypeArray vs)))"
    using w False by (simp add: hash_value_def Let_def written_def)
  have "rep S (Suc d) (Some (ValueNode True ?h)) (Some n)"
    using GetNode_written(2) [OF c h d(1)] decodeNode_Array [OF d(1)] d(2) by (rule rep_Ref) (use c in \<open>simp add: codec_ok_def\<close>)
  moreover have "?h \<noteq> []" using c unfolding codec_ok_def by (metis list.size(3) zero_neq_numeral)
  ultimately show ?thesis using False unfolding decodes_def by (auto simp: hash_value_def Let_def)
qed

lemma written_hash_value: "written S (snd (hash_value H v ws)) \<Longrightarrow> written S ws"
  by (simp add: hash_value_def Let_def split: if_splits)

lemma decode_children_None: "decode_children vs (map decodeNode vs) = Some (Inr ms) \<Longrightarrow>
    decode_children (TypeBytes [] # vs) (map decodeNode (TypeBytes [] # vs)) = Some (Inr (None # ms))"
  by simp

lemma hash_children_append:
  "hash_children (rs @ qs) = do { (vs, ws) \<leftarrow> hash_children rs; (us, xs) \<leftarrow> hash_children qs; Some (vs @ us, ws @ xs) }"
  by (induction rs rule: hash_children.induct) (auto split: bind_splits)

text \<open>The node \<open>n\<close> hashes to a value that decodes to the trie \<open>t\<close>, once the batch is written.\<close>

definition hashes :: "Hasher \<Rightarrow> Storage \<Rightarrow> Node \<Rightarrow> Node \<Rightarrow> bool" where
  "hashes H S n t \<longleftrightarrow>
     (\<exists>val ws. hash_node H n = Some (val, ws) \<and> (written S ws \<longrightarrow> decodes S val t))"

lemma hash_children_decodes:
  assumes "list_all2 (\<lambda>c t. rel_option (hashes H S) c t) cs ts"
  shows "\<exists>vals ws. hash_children (map (map_option (hash_node H)) cs) = Some (vals, ws) \<and> length vals = length ts \<and>
    (written S ws \<longrightarrow> (\<exists>ms d. decode_children vals (map decodeNode vals) = Some (Inr ms) \<and> list_all2 (rep S d) ms ts))"
  using assms
proof (induction rule: list_all2_induct)
  case Nil
  then show ?case by (simp add: exI [of _ "[]"])
next
  case (Cons c cs t ts)
  then obtain vs ws where vs: "hash_children (map (map_option (hash_node H)) cs) = Some (vs, ws)" "length vs = length ts"
    "written S ws \<longrightarrow> (\<exists>ms d. decode_children vs (map decodeNode vs) = Some (Inr ms) \<and> list_all2 (rep S d) ms ts)" by blast
  from Cons.hyps(1) show ?case
  proof (cases rule: option.rel_cases)
    case None
    have "\<exists>ms d. decode_children (TypeBytes [] # vs) (map decodeNode (TypeBytes [] # vs)) = Some (Inr ms) \<and> list_all2 (rep S d) ms (t # ts)"
      if "written S ws"
      using vs(3) that None rep_None by (metis (no_types, lifting) decode_children_None list.rel_intros(2))
    then show ?thesis using vs None by simp
  next
    case (Some n m)
    then obtain v u where v: "hash_node H n = Some (v, u)" "written S u \<longrightarrow> decodes S v m" by (auto simp: hashes_def)
    have "\<exists>ms d. decode_children (v # vs) (map decodeNode (v # vs)) = Some (Inr ms) \<and> list_all2 (rep S d) ms (t # ts)"
      if w: "written S (u @ ws)"
    proof -
      obtain ms d where ms: "decode_children vs (map decodeNode vs) = Some (Inr ms)" "list_all2 (rep S d) ms ts"
        using vs(3) w by auto
      obtain x e where x: "v \<noteq> TypeBytes []" "decodeNode v = Some (Inr x)" "rep S e (Some x) (Some m)"
        using v(2) w by (auto simp: decodes_def)
      have "list_all2 (rep S (max d e)) ms ts" using ms(2) by (rule list_all2_mono) (auto elim: rep_mono)
      moreover have "rep S (max d e) (Some x) (Some m)" using x(3) by (rule rep_mono) simp
      ultimately show ?thesis using ms x Some by (intro exI [of _ "Some x # ms"] exI [of _ "max d e"]) simp
    qed
    then show ?thesis using vs v Some by simp
  qed
qed

section \<open>Whole tries\<close>

lemma decode_leaf: "term_key k \<Longrightarrow>
    decodeNode (TypeArray [TypeBytes (encodeCompact k), TypeBytes b]) = Some (Inr (ShortNode k (Some (ValueNode False b))))"
  using decode_encode [of k] hasTerminator_term_key by (simp add: decode_short_def)

lemma decode_ext: "nibbles k \<Longrightarrow> decodeNode c = Some (Inr m) \<Longrightarrow>
    decodeNode (TypeArray [TypeBytes (encodeCompact k), c]) = Some (Inr (ShortNode k (Some m)))"
  using decode_encode [of k] hasTerminator_nibbles by (simp add: decode_short_def)

lemma decode_branch:
  assumes "decode_children vals (map decodeNode vals) = Some (Inr ms)" "length vals = 16"
  shows "decodeNode (TypeArray (vals @ [TypeBytes b]))
    = Some (Inr (FullNode (if b = [] then None else Some (ValueNode False b)) ms))"
  using assms by (simp add: decode_full_def nth_append)

lemma hashes_value:
  assumes "codec_ok H S" "hash_node H n = Some (hash_value H (TypeArray vs) ws)"
    "written S ws \<Longrightarrow> \<exists>m d. decodeNode (TypeArray vs) = Some (Inr m) \<and> rep S d (Some m) (Some t)"
  shows "hashes H S n t"
proof -
  let ?h = "hash_value H (TypeArray vs) ws"
  have "decodes S (fst ?h) t" if w: "written S (snd ?h)"
    using assms(3) [OF written_hash_value [OF w]] hash_value_decodes [OF assms(1) w] by blast
  then show ?thesis unfolding hashes_def
    by (intro exI [of _ "fst ?h"] exI [of _ "snd ?h"] conjI impI) (simp only: assms(2) prod.collapse)
qed

lemma hashes_branch:
  assumes c: "codec_ok H S" and ok: "full_ok v ts" and ne: "content (Some (FullNode v ts)) [16] \<noteq> Some []"
    and l: "list_all2 (\<lambda>c t. rel_option (hashes H S) c t) cs ts"
  shows "hashes H S (FullNode v cs) (FullNode v ts)"
proof -
  let ?b = "case v of Some (ValueNode h b) \<Rightarrow> b | _ \<Rightarrow> []"
  have v: "hash_children [map_option (hash_node H) v] = Some ([TypeBytes ?b], [])" "v = (if ?b = [] then None else Some (ValueNode False ?b))"
    using ok ne by (cases v; auto simp: full_ok_def)+
  obtain vals ws where vs: "hash_children (map (map_option (hash_node H)) cs) = Some (vals, ws)" "length vals = length ts"
    "written S ws \<longrightarrow> (\<exists>ms d. decode_children vals (map decodeNode vals) = Some (Inr ms) \<and> list_all2 (rep S d) ms ts)"
    using hash_children_decodes [OF l] by blast
  show ?thesis
  proof (rule hashes_value [OF c])
    show "hash_node H (FullNode v cs) = Some (hash_value H (TypeArray (vals @ [TypeBytes ?b])) ws)"
      using vs(1) v(1) by (simp add: hash_children_append)
    assume "written S ws"
    then obtain ms d where ms: "decode_children vals (map decodeNode vals) = Some (Inr ms)" "list_all2 (rep S d) ms ts"
      using vs(3) by blast
    have "decodeNode (TypeArray (vals @ [TypeBytes ?b])) = Some (Inr (FullNode v ms))"
      using decode_branch [OF ms(1), of ?b] vs(2) ok v(2) by (simp add: full_ok_def)
    moreover have "rep S d (Some (FullNode v ms)) (Some (FullNode v ts))"
      using ms(2) by (rule rep_Full) (use ok in \<open>simp add: full_ok_def\<close>)
    ultimately show "\<exists>m d. decodeNode (TypeArray (vals @ [TypeBytes ?b])) = Some (Inr m) \<and> rep S d (Some m) (Some (FullNode v ts))"
      by blast
  qed
qed

definition no_empty :: "Node option \<Rightarrow> bool" where
  "no_empty t \<longleftrightarrow> (\<forall>k. term_key k \<longrightarrow> content t k \<noteq> Some [])"

lemma no_empty_Short: "no_empty (Some (ShortNode k c)) \<Longrightarrow> nibbles k \<Longrightarrow> no_empty c"
proof (unfold no_empty_def, intro allI impI)
  fix r assume a: "\<forall>key. term_key key \<longrightarrow> content (Some (ShortNode k c)) key \<noteq> Some []" "nibbles k" "term_key r"
  have "term_key (k @ r)" using a(2,3) term_key_append [of r k] term_key_nonempty by blast
  with a(1) have "content (Some (ShortNode k c)) (k @ r) \<noteq> Some []" by blast
  then show "content c r \<noteq> Some []" by simp
qed

lemma no_empty_Full: "no_empty (Some (FullNode v cs)) \<Longrightarrow> full_ok v cs \<Longrightarrow> i < length cs \<Longrightarrow> no_empty (cs ! i)"
proof (unfold no_empty_def, intro allI impI)
  fix r assume a: "\<forall>key. term_key key \<longrightarrow> content (Some (FullNode v cs)) key \<noteq> Some []" "full_ok v cs" "i < length cs" "term_key r"
  have i: "(of_nat i :: byte) < 16" "unat (of_nat i :: byte) = i" using a(2,3) nibble_of_nat by (auto simp: full_ok_def)
  have "term_key (of_nat i # r)" using i(1) a(4) term_key_edge by blast
  with a(1) have "content (Some (FullNode v cs)) (of_nat i # r) \<noteq> Some []" by blast
  then show "content (cs ! i) r \<noteq> Some []" using content_Full_child [OF a(2) i(1)] i(2) by simp
qed

lemma rep_hashes:
  assumes c: "codec_ok H S"
  shows "rep S d n t \<Longrightarrow> trie_ok t \<Longrightarrow> no_empty t \<Longrightarrow> rel_option (hashes H S) n t"
proof (induction rule: rep.induct)
  case (rep_Ref buf n d t)
  obtain t' where t: "t = Some t'" using rep_None_iff [OF rep_Ref.hyps(3)] by auto
  have "decodes S (TypeBytes buf) t'"
    using rep.rep_Ref [OF rep_Ref.hyps] rep_Ref.hyps(4) unfolding t decodes_def by auto
  then show ?case by (auto simp: hashes_def t)
next
  case (rep_Short d c' t' k)
  then have can: "canonical (ShortNode k t')" by simp
  then show ?case
  proof (cases rule: canonical_Short_cases)
    case (leaf b)
    have l: "c' = t'" using rep_is_value [OF rep_Short.hyps leaf(1)] .
    have "rep S 0 (Some (ShortNode k t')) (Some (ShortNode k t'))" unfolding leaf by (intro rep.rep_Short rep_Value)
    then have "hashes H S (ShortNode k c') (ShortNode k t')"
      by (intro hashes_value [OF c, of _ "[TypeBytes (encodeCompact k), TypeBytes b]" "[]"])
        (use l leaf decode_leaf [OF leaf(2), of b] in \<open>auto simp del: decodeNode.simps\<close>)
    then show ?thesis by simp
  next
    case (ext v ts)
    have "no_empty t'" using rep_Short.prems(2) ext(3) by (rule no_empty_Short)
    then have "rel_option (hashes H S) c' t'" using rep_Short.IH ext by simp
    then obtain n val ws where n: "c' = Some n" "hash_node H n = Some (val, ws)" "written S ws \<longrightarrow> decodes S val (FullNode v ts)"
      unfolding ext(1) by (auto simp: hashes_def option_rel_Some2)
    have "hashes H S (ShortNode k c') (ShortNode k t')"
    proof (rule hashes_value [OF c])
      show "hash_node H (ShortNode k c') = Some (hash_value H (TypeArray [TypeBytes (encodeCompact k), val]) ws)"
        using n(1,2) by simp
      assume "written S ws"
      then obtain m e where m: "decodeNode val = Some (Inr m)" "rep S e (Some m) t'" using n(3) ext(1) by (auto simp: decodes_def)
      show "\<exists>m d. decodeNode (TypeArray [TypeBytes (encodeCompact k), val]) = Some (Inr m) \<and> rep S d (Some m) (Some (ShortNode k t'))"
        using decode_ext [OF ext(3) m(1)] rep.rep_Short [OF m(2)] by blast
    qed
    then show ?thesis by simp
  qed
next
  case (rep_Full d cs ts v)
  then have ok: "full_ok v ts" by (simp add: canonical_Full)
  have "list_all2 (\<lambda>c t. rel_option (hashes H S) c t) cs ts"
  proof (rule list_all2_all_nthI)
    show "length cs = length ts" using list_all2_lengthD [OF rep_Full(1)] .
    fix i assume i: "i < length cs"
    then have "trie_ok (ts ! i)" "no_empty (ts ! i)"
      using ok list_all2_lengthD [OF rep_Full(1)] no_empty_Full [OF rep_Full.prems(2) ok] by (auto simp: full_ok_def)
    then show "rel_option (hashes H S) (cs ! i) (ts ! i)" using list_all2_nthD [OF rep_Full(1) i] by blast
  qed
  moreover have "content (Some (FullNode v ts)) [16] \<noteq> Some []" using rep_Full.prems(2) no_empty_def by (metis term_key.simps(2))
  ultimately show ?case using hashes_branch [OF c ok] by simp
qed simp_all

section \<open>Opening a committed trie\<close>

text \<open>A storage that still has every node of another.\<close>

definition extends :: "Storage \<Rightarrow> Storage \<Rightarrow> bool" where
  "extends S S' \<longleftrightarrow> rlp_Parse S' = rlp_Parse S \<and>
     (\<forall>h d. storage_Get S h = Inr (Some d) \<longrightarrow> storage_Get S' h = Inr (Some d))"

lemma extends_batch: "collision_free S ws \<Longrightarrow> extends S (Batch_Write S ws)"
  by (fastforce simp: extends_def Batch_Write_def collision_free_def dest!: map_of_SomeD split: option.split)

lemma extends_resolve: "extends S S' \<Longrightarrow> resolve S buf = Some (Some n) \<Longrightarrow> resolve S' buf = Some (Some n)"
  by (auto simp: resolve_def GetNode_def extends_def split: sum.splits option.splits)

lemma extends_rep: "rep S d n t \<Longrightarrow> extends S S' \<Longrightarrow> rep S' d n t"
proof (induction rule: rep.induct)
  case (rep_Full d cs cs' v)
  then have "list_all2 (rep S' d) cs cs'" by (auto elim: list_all2_mono)
  then show ?case using rep_Full(2) by (rule rep.rep_Full)
qed (auto intro: rep.intros extends_resolve)

lemma commit_opens:
  assumes c: "codec_ok H S" and r: "rep S d (Some n) t" "trie_ok t" "no_empty t"
    and h: "Txn_Hash H (Some n) = Some (root, ws)" and w: "written S ws"
  shows "length root = 32 \<and> (\<exists>m e. GetNode S root = Some (Inr (Some m)) \<and> rep S e (Some m) t)"
proof -
  obtain t' where t: "t = Some t'" using rep_None_iff [OF r(1)] by auto
  then have "hashes H S n t'" using rep_hashes [OF c r] by simp
  then obtain val us where v: "hash_node H n = Some (val, us)" "written S us \<longrightarrow> decodes S val t'" by (auto simp: hashes_def)
  show ?thesis
  proof (cases val)
    case (TypeArray vs)
    let ?b = "rlp_Marshal H val"
    have ws: "root = Keccak256 H ?b" "ws = us @ [(root, ?b)]" using h v(1) TypeArray by (auto simp: Txn_Hash_def Let_def)
    then obtain m e where m: "decodeNode (TypeArray vs) = Some (Inr m)" "rep S e (Some m) t"
      using v(2) w TypeArray t by (auto simp: decodes_def simp del: decodeNode.simps)
    have "storage_Get S root = Inr (Some (rlp_Marshal H (TypeArray vs)))" using ws(2) w TypeArray by (simp add: written_def)
    from GetNode_written(1) [OF c this m(1)] m(2) show ?thesis using ws(1) c by (auto simp: codec_ok_def)
  next
    case (TypeBytes raw)
    have us: "written S us" using h v(1) w TypeBytes by (auto simp: Txn_Hash_def split: if_splits)
    then obtain e where "rep S e (Some (ValueNode True raw)) t" using v(2) TypeBytes t by (auto simp: decodes_def)
    then obtain m e where m: "resolve S raw = Some (Some m)" "rep S e (Some m) t" "length raw = 32" by (auto elim: rep_RefE)
    then have "root = raw" using h v(1) TypeBytes c by (auto simp: Txn_Hash_def codec_ok_def)
    moreover have "GetNode S raw = Some (Inr (Some m))" using m(1) by (auto simp: resolve_def split: bind_splits sum.split_asm)
    ultimately show ?thesis using m by blast
  qed
qed

end
