(* ===== verification/Trie_Kv.thy ===== *)
theory Trie_Kv
  imports Trie_Commit
begin

text \<open>
  A key-value store as an interface, and the trie as an implementation of it: with
  nodes in the storage, and in memory, where the store is determined by its content.
\<close>

section \<open>The interface\<close>

text \<open>An update puts a value or deletes the key.\<close>

fun apply_update ::
  "('t \<Rightarrow> 'k \<Rightarrow> 'v \<Rightarrow> 't go) \<Rightarrow> ('t \<Rightarrow> 'k \<Rightarrow> 't go) \<Rightarrow> 't \<Rightarrow> 'k \<times> 'v option \<Rightarrow> 't go" where
  "apply_update put del t (k, Some v) = put t k v"
| "apply_update put del t (k, None) = del t k"

fun run_updates ::
  "('t \<Rightarrow> 'k \<Rightarrow> 'v \<Rightarrow> 't go) \<Rightarrow> ('t \<Rightarrow> 'k \<Rightarrow> 't go) \<Rightarrow> 't \<Rightarrow> ('k \<times> 'v option) list \<Rightarrow> 't go" where
  "run_updates put del t [] = Some t"
| "run_updates put del t (u # us) = do { t \<leftarrow> apply_update put del t u; run_updates put del t us }"

text \<open>The last update of a key decides.\<close>

definition updated :: "('k \<times> 'v option) list \<Rightarrow> ('k \<Rightarrow> 'v option) \<Rightarrow> 'k \<Rightarrow> 'v option" where
  "updated us m k = (case map_of (rev us) k of Some r \<Rightarrow> r | None \<Rightarrow> m k)"

lemma updated_Nil [simp]: "updated [] m = m"
  by (simp add: updated_def fun_eq_iff)

lemma updated_Cons: "updated (u # us) m = updated us (m(fst u := snd u))"
  by (cases u) (auto simp: updated_def fun_eq_iff map_add_def split: option.split)

definition update_ok :: "('k \<Rightarrow> bool) \<Rightarrow> ('v \<Rightarrow> bool) \<Rightarrow> 'k \<times> 'v option \<Rightarrow> bool" where
  "update_ok key_ok val_ok u \<longleftrightarrow> key_ok (fst u) \<and> pred_option val_ok (snd u)"

locale kv_store =
  fixes valid :: "'t \<Rightarrow> bool" and key_ok :: "'k \<Rightarrow> bool" and val_ok :: "'v \<Rightarrow> bool"
    and get :: "'t \<Rightarrow> 'k \<Rightarrow> 'v option go" and put :: "'t \<Rightarrow> 'k \<Rightarrow> 'v \<Rightarrow> 't go" and del :: "'t \<Rightarrow> 'k \<Rightarrow> 't go"
  assumes get_total: "valid t \<Longrightarrow> key_ok k \<Longrightarrow> \<exists>r. get t k = Some r"
    and put_law: "valid t \<Longrightarrow> key_ok k \<Longrightarrow> val_ok v \<Longrightarrow>
      \<exists>t'. put t k v = Some t' \<and> valid t' \<and> (\<forall>j. key_ok j \<longrightarrow> get t' j = (if j = k then Some (Some v) else get t j))"
    and del_law: "valid t \<Longrightarrow> key_ok k \<Longrightarrow>
      \<exists>t'. del t k = Some t' \<and> valid t' \<and> (\<forall>j. key_ok j \<longrightarrow> get t' j = (if j = k then Some None else get t j))"
begin

lemma apply_update_law:
  assumes "valid t" "update_ok key_ok val_ok u"
  shows "\<exists>t'. apply_update put del t u = Some t' \<and> valid t' \<and>
    (\<forall>j. key_ok j \<longrightarrow> get t' j = (if j = fst u then Some (snd u) else get t j))"
proof (cases u)
  case (Pair k r)
  with assms have k: "key_ok k" "pred_option val_ok r" by (simp_all add: update_ok_def)
  show ?thesis
  proof (cases r)
    case None
    then show ?thesis unfolding Pair apply_update.simps fst_conv snd_conv None by (intro del_law assms(1) k(1))
  next
    case (Some v)
    then have "val_ok v" using k(2) by simp
    then show ?thesis unfolding Pair apply_update.simps fst_conv snd_conv Some by (intro put_law assms(1) k(1))
  qed
qed

lemma run_updates_law:
  assumes "valid t" "\<forall>u \<in> set us. update_ok key_ok val_ok u" "\<forall>j. key_ok j \<longrightarrow> get t j = Some (m j)"
  shows "\<exists>t'. run_updates put del t us = Some t' \<and> valid t' \<and> (\<forall>j. key_ok j \<longrightarrow> get t' j = Some (updated us m j))"
  using assms
proof (induction us arbitrary: t m)
  case (Cons u us)
  then obtain t' where t': "apply_update put del t u = Some t'" "valid t'"
    "\<forall>j. key_ok j \<longrightarrow> get t' j = (if j = fst u then Some (snd u) else get t j)"
    using apply_update_law [of t u] by auto
  then have "\<forall>j. key_ok j \<longrightarrow> get t' j = Some ((m(fst u := snd u)) j)" using Cons.prems(3) by simp
  then show ?case using Cons.IH [OF t'(2)] Cons.prems(2) t'(1) by (simp add: updated_Cons)
qed simp

end

text \<open>A store that is determined by its content.\<close>

locale kv_canonical = kv_store +
  assumes extensional: "valid t \<Longrightarrow> valid u \<Longrightarrow> (\<And>k. key_ok k \<Longrightarrow> get t k = get u k) \<Longrightarrow> t = u"
begin

lemma run_updates_determined:
  assumes "valid t" "\<forall>j. key_ok j \<longrightarrow> get t j = Some (m j)"
    "\<forall>u \<in> set us. update_ok key_ok val_ok u" "\<forall>u \<in> set us'. update_ok key_ok val_ok u"
    "\<And>j. key_ok j \<Longrightarrow> updated us m j = updated us' m j"
  shows "run_updates put del t us = run_updates put del t us'"
proof -
  obtain a b where a: "run_updates put del t us = Some a" "valid a" "\<forall>j. key_ok j \<longrightarrow> get a j = Some (updated us m j)"
    and b: "run_updates put del t us' = Some b" "valid b" "\<forall>j. key_ok j \<longrightarrow> get b j = Some (updated us' m j)"
    using run_updates_law [OF assms(1,3,2)] run_updates_law [OF assms(1,4,2)] by blast
  then have "a = b" using extensional assms(5) by auto
  then show ?thesis using a(1) b(1) by simp
qed

end

section \<open>Keys of one length\<close>

definition uniform :: "nat \<Rightarrow> Node option \<Rightarrow> bool" where
  "uniform l t \<longleftrightarrow> (\<forall>k. term_key k \<longrightarrow> content t k \<noteq> None \<longrightarrow> length k = l)"

lemma uniform_Short: "uniform l (Some (ShortNode k c)) \<Longrightarrow> nibbles k \<Longrightarrow> uniform (l - length k) c"
proof (unfold uniform_def, intro allI impI)
  fix r assume a: "\<forall>key. term_key key \<longrightarrow> content (Some (ShortNode k c)) key \<noteq> None \<longrightarrow> length key = l"
    "nibbles k" "term_key r" "content c r \<noteq> None"
  have "term_key (k @ r)" using a(2,3) term_key_append [of r k] term_key_nonempty by blast
  moreover have "content (Some (ShortNode k c)) (k @ r) \<noteq> None" using a(4) by simp
  ultimately have "length (k @ r) = l" using a(1) by blast
  then show "length r = l - length k" by simp
qed

lemma uniform_Full: "uniform l (Some (FullNode v cs)) \<Longrightarrow> full_ok v cs \<Longrightarrow> i < length cs \<Longrightarrow> uniform (l - 1) (cs ! i)"
proof (unfold uniform_def, intro allI impI)
  fix r assume a: "\<forall>key. term_key key \<longrightarrow> content (Some (FullNode v cs)) key \<noteq> None \<longrightarrow> length key = l"
    "full_ok v cs" "i < length cs" "term_key r" "content (cs ! i) r \<noteq> None"
  have i: "(of_nat i :: byte) < 16" "unat (of_nat i :: byte) = i" using a(2,3) nibble_of_nat by (auto simp: full_ok_def)
  have "term_key (of_nat i # r)" using i(1) a(4) term_key_edge by blast
  moreover have "content (Some (FullNode v cs)) (of_nat i # r) \<noteq> None"
    using content_Full_child [OF a(2) i(1)] i(2) a(5) by simp
  ultimately have "length ((of_nat i :: byte) # r) = l" using a(1) by blast
  then show "length r = l - 1" by simp
qed

text \<open>Every reference is followed by a step along the key, so the length of the keys bounds the references.\<close>

lemma rep_depth:
  "rep S d n t \<Longrightarrow> trie_ok t \<Longrightarrow> uniform l t \<Longrightarrow>
   rep S l n t \<and> ((\<forall>buf. n \<noteq> Some (ValueNode True buf)) \<longrightarrow> rep S (l - 1) n t)"
proof (induction arbitrary: l rule: rep.induct)
  case (rep_Ref buf n d t)
  obtain m where m: "t = Some m" "canonical m" "\<not> is_value m"
    using rep_None_iff [OF rep_Ref.hyps(3)] rep_Ref.prems(1) by auto
  then obtain k where "term_key k" "content t k \<noteq> None" using content_nonempty by blast
  then have "0 < l" using rep_Ref.prems(2) term_key_nonempty by (auto simp: uniform_def)
  then obtain l' where l: "l = Suc l'" by (cases l) auto
  have "rep S l' (Some n) t" using rep_Ref.IH [OF rep_Ref.prems] rep_Ref.hyps(2) l by auto
  then show ?case using rep.rep_Ref [OF rep_Ref.hyps(1,2) _ rep_Ref.hyps(4)] l by simp
next
  case (rep_Short d c c' k)
  have "rep S (l - 1) c c'"
  proof -
    from rep_Short.prems(1) have "canonical (ShortNode k c')" by simp
    then show ?thesis
    proof (cases rule: canonical_Short_cases)
      case (leaf b)
      then show ?thesis using rep_is_value [OF rep_Short.hyps leaf(1)] rep_Value by simp
    next
      case (ext v cs)
      have "rep S (l - length k) c c'" using rep_Short.IH uniform_Short [OF rep_Short.prems(2) ext(3)] ext by simp
      moreover have "l - length k \<le> l - 1" using ext(2) by (cases k) auto
      ultimately show ?thesis by (rule rep_mono)
    qed
  qed
  then show ?case using rep.rep_Short rep_mono by (meson diff_le_self)
next
  case (rep_Full d cs cs' v)
  then have ok: "full_ok v cs'" by (simp add: canonical_Full)
  have "list_all2 (rep S (l - 1)) cs cs'"
  proof (rule list_all2_all_nthI)
    show len: "length cs = length cs'" using list_all2_lengthD [OF rep_Full(1)] .
    fix i assume i: "i < length cs"
    then have "trie_ok (cs' ! i)" using ok len by (simp add: full_ok_def)
    moreover have "uniform (l - 1) (cs' ! i)" using uniform_Full [OF rep_Full.prems(2) ok] i len by simp
    ultimately show "rep S (l - 1) (cs ! i) (cs' ! i)" using list_all2_nthD [OF rep_Full(1) i] by blast
  qed
  then have "rep S (l - 1) (Some (FullNode v cs)) (Some (FullNode v cs'))" using rep_Full(2) by (rule rep.rep_Full)
  then show ?case using rep_mono by (meson diff_le_self)
qed (auto intro: rep.intros)

section \<open>The trie as a store\<close>

text \<open>
  Keys are hashes: 32 bytes, so 65 steps of a lookup.  A stored trie may have any of its
  nodes but the root in the storage.
\<close>

definition key32 :: "byte list \<Rightarrow> bool" where
  "key32 k \<longleftrightarrow> length k = 32"

definition trie32 :: "Node option \<Rightarrow> bool" where
  "trie32 t \<longleftrightarrow> trie_ok t \<and> uniform 65 t \<and> no_empty t"

definition stored :: "Storage \<Rightarrow> Node option \<Rightarrow> Node option \<Rightarrow> bool" where
  "stored S n t \<longleftrightarrow> rep S 65 n t \<and> trie32 t \<and> pred_option (\<lambda>m. \<not> is_value m) n"

lemma storedI: "rep S d n t \<Longrightarrow> trie32 t \<Longrightarrow> pred_option (\<lambda>m. \<not> is_value m) n \<Longrightarrow> stored S n t"
  using rep_depth [of S d n t 65] by (simp add: stored_def trie32_def)

lemma stored_empty: "stored S None None"
  by (simp add: stored_def trie32_def rep_None uniform_def no_empty_def)

lemma term_key32: "key32 k \<Longrightarrow> term_key (bytesToHexNibbles k) \<and> length (bytesToHexNibbles k) = 65"
  by (simp add: term_key_bytes key32_def)

lemma stored_Get:
  assumes "stored S n t"
  shows "Trie_Get S 65 n k = Some (content t (bytesToHexNibbles k))"
  using assms lookup_rep [of S 65 n t 65] lookup_law [OF _ term_key_bytes]
  by (simp add: stored_def trie32_def Trie_Get_def)

lemma trie32_inserted:
  "trie32 t \<Longrightarrow> key32 k \<Longrightarrow> v \<noteq> [] \<Longrightarrow> inserted t (bytesToHexNibbles k) v m \<Longrightarrow> trie32 (Some m)"
  using term_key32 [of k] by (auto simp: trie32_def inserted_def uniform_def no_empty_def)

lemma trie32_removed: "trie32 t \<Longrightarrow> removed t s m \<Longrightarrow> trie32 m"
  by (auto simp: trie32_def removed_def uniform_def no_empty_def split: if_splits)

lemma trie32_delete: "trie32 t \<Longrightarrow> key32 k \<Longrightarrow> delete_ok t (bytesToHexNibbles k) (delete S f t (bytesToHexNibbles k))"
  by (rule delete_law) (use term_key_bytes term_key32 [of k] in \<open>auto simp: trie32_def uniform_def\<close>)

lemma insert_not_value:
  assumes "insert S f n s val = Some (Some m)" "pred_option (\<lambda>m. \<not> is_value m) n" "s \<noteq> []"
  shows "\<not> is_value m"
proof -
  have full: "\<not> is_value m" if "insert S f (Some (FullNode v cs)) s val = Some (Some m)" for v cs s m
    using that by (cases s) (auto simp: setEdge_def split: bind_splits if_splits)
  show ?thesis
  proof (cases n)
    case (Some n')
    then show ?thesis
    proof (cases n')
      case (ShortNode k c)
      then show ?thesis using assms(1) Some full
        by (auto simp: Let_def split_short_def setEdge_def split: bind_splits option.splits if_splits)
    qed (use Some assms full in auto)
  qed (use assms in auto)
qed

lemma stored_Insert:
  assumes s: "stored S n t" and k: "key32 k" "v \<noteq> []"
  shows "\<exists>n' t'. Txn_Insert S 65 n k v = Some n' \<and> stored S n' t' \<and>
    (\<forall>j. content t' (bytesToHexNibbles j) = (if j = k then Some v else content t (bytesToHexNibbles j)))"
proof -
  let ?k = "bytesToHexNibbles k"
  have t: "trie_ok t" "uniform 65 t" "no_empty t" and r: "rep S 65 n t" using s by (auto simp: stored_def trie32_def)
  obtain m m' where m: "insert S 65 n ?k v = Some (Some m)" "insert S 65 t ?k v = Some (Some m')" "rep S 65 (Some m) (Some m')"
    using insert_rep [OF r order.refl t(1) term_key_bytes, of k v] by (auto simp: insert_sim_def)
  have i: "inserted t ?k v m'" using insert_law [OF t(1) term_key_bytes, of S 65 k v] m(2) by auto
  then have c: "content (Some m') j = (if j = ?k then Some v else content t j)" if "term_key j" for j
    using that by (simp add: inserted_def)
  have "trie32 (Some m')" using trie32_inserted [OF _ k i] s by (simp add: stored_def)
  moreover have "\<not> is_value m" using insert_not_value [OF m(1)] term_key_nonempty [OF term_key_bytes] s by (auto simp: stored_def)
  ultimately have "stored S (Some m) (Some m')" using m(3) storedI by simp
  then show ?thesis using m(1) c term_key_bytes by (auto simp: Txn_Insert_def)
qed

lemma stored_Delete:
  assumes s: "stored S n t" and k: "key32 k"
  shows "\<exists>n' t'. Txn_Delete S 65 n k = Some n' \<and> stored S n' t' \<and>
    (\<forall>j. content t' (bytesToHexNibbles j) = (if j = k then None else content t (bytesToHexNibbles j)))"
proof -
  let ?k = "bytesToHexNibbles k"
  have t: "trie_ok t" "uniform 65 t" "no_empty t" and r: "rep S 65 n t" using s by (auto simp: stored_def trie32_def)
  have sim: "delete_sim S 65 (delete S 65 n ?k) (delete S 65 t ?k)" by (rule delete_rep [OF r order.refl])
  have ok: "delete_ok t ?k (delete S 65 t ?k)" using trie32_delete k s by (simp add: stored_def)
  show ?thesis
  proof (cases "content t ?k = None")
    case True
    then have "delete S 65 n ?k = Some NotFound" using ok sim by (simp add: delete_ok_def delete_sim_def)
    then show ?thesis using s True by (auto simp: Txn_Delete_def intro!: exI [of _ t])
  next
    case False
    then obtain m m' where m: "delete S 65 n ?k = Some (Deleted m)" "rep S 65 m m'" "removed t ?k m'"
      "\<forall>n. m = Some n \<longrightarrow> \<not> is_value n"
      using ok sim by (auto simp: delete_ok_def delete_sim_def)
    have "trie32 m'" using trie32_removed m(3) s by (auto simp: stored_def)
    then have "stored S m m'" using m(2,4) storedI by (simp add: pred_option_def)
    then show ?thesis using m(1,3) term_key_bytes by (auto simp: Txn_Delete_def removed_def)
  qed
qed

text \<open>The operations on a trie, with 65 as fuel for its references, are those of a store.\<close>

interpretation disk: kv_store "\<lambda>n. \<exists>t. stored S n t" key32 "\<lambda>v. v \<noteq> []" "Trie_Get S 65" "Txn_Insert S 65" "Txn_Delete S 65" for S
proof unfold_locales
  fix n k assume "\<exists>t. stored S n t"
  then obtain t where t: "stored S n t" ..
  show "\<exists>r. Trie_Get S 65 n k = Some r" using stored_Get [OF t] by simp
  assume k: "key32 k"
  show "\<exists>n'. Txn_Delete S 65 n k = Some n' \<and> (\<exists>t. stored S n' t) \<and>
      (\<forall>j. key32 j \<longrightarrow> Trie_Get S 65 n' j = (if j = k then Some None else Trie_Get S 65 n j))"
    using stored_Delete [OF t k] stored_Get [OF t] stored_Get by fastforce
  fix v :: "byte list" assume "v \<noteq> []"
  with k show "\<exists>n'. Txn_Insert S 65 n k v = Some n' \<and> (\<exists>t. stored S n' t) \<and>
      (\<forall>j. key32 j \<longrightarrow> Trie_Get S 65 n' j = (if j = k then Some (Some v) else Trie_Get S 65 n j))"
    using stored_Insert [OF t k] stored_Get [OF t] stored_Get by fastforce
qed

text \<open>In memory no fuel is needed, and the content determines the trie.\<close>

lemma memory_Get: "trie32 t \<Longrightarrow> Trie_Get S f t k = Some (content t (bytesToHexNibbles k))"
  by (simp add: Trie_Get_def trie32_def lookup_law term_key_bytes)

lemma memory_Insert:
  assumes "trie32 t" "key32 k" "v \<noteq> []"
  shows "\<exists>t'. Txn_Insert S f t k v = Some t' \<and> trie32 t' \<and>
    (\<forall>j. content t' (bytesToHexNibbles j) = (if j = k then Some v else content t (bytesToHexNibbles j)))"
proof -
  obtain m where m: "insert S f t (bytesToHexNibbles k) v = Some (Some m)" "inserted t (bytesToHexNibbles k) v m"
    using insert_law term_key_bytes assms(1) by (metis trie32_def)
  then show ?thesis using trie32_inserted [OF assms m(2)] term_key_bytes by (auto simp: Txn_Insert_def inserted_def)
qed

lemma memory_Delete:
  assumes "trie32 t" "key32 k"
  shows "\<exists>t'. Txn_Delete S f t k = Some t' \<and> trie32 t' \<and>
    (\<forall>j. content t' (bytesToHexNibbles j) = (if j = k then None else content t (bytesToHexNibbles j)))"
proof (cases "content t (bytesToHexNibbles k) = None")
  case True
  then show ?thesis using trie32_delete [OF assms, of S f] assms(1) by (auto simp: delete_ok_def Txn_Delete_def)
next
  case False
  then obtain m where "delete S f t (bytesToHexNibbles k) = Some (Deleted m)" "removed t (bytesToHexNibbles k) m"
    using trie32_delete [OF assms, of S f] by (auto simp: delete_ok_def)
  then show ?thesis using trie32_removed [OF assms(1)] term_key_bytes by (auto simp: Txn_Delete_def removed_def)
qed

text \<open>A path of 65 steps with its terminator is the path of a key of 32 bytes.\<close>

lemma nibbles_bytes_of: "nibbles hex \<Longrightarrow> length hex = 2 * n \<Longrightarrow> \<exists>k. length k = n \<and> bytesToHexNibbles k = hex @ [16]"
proof -
  assume h: "nibbles hex" "length hex = 2 * n"
  have e: "bytesToHexNibbles (pack_nibbles hex) = hex @ [16]" using unpack_pack [OF h(1)] h(2) by simp
  have "2 * length (pack_nibbles hex) + 1 = 2 * n + 1" using arg_cong [OF e, of length] h(2) by simp
  then show ?thesis using e by (intro exI [of _ "pack_nibbles hex"]) simp
qed

lemma term_key_of_key32: "term_key s \<Longrightarrow> length s = 65 \<Longrightarrow> \<exists>k. key32 k \<and> s = bytesToHexNibbles k"
  using term_key_snoc [of s] nibbles_bytes_of [of _ 32] by (fastforce simp: key32_def)

lemma memory_extensional:
  assumes "trie32 t" "trie32 u" "\<And>k. key32 k \<Longrightarrow> content t (bytesToHexNibbles k) = content u (bytesToHexNibbles k)"
  shows "t = u"
proof (rule trie_unique)
  fix s assume s: "term_key s"
  show "content t s = content u s"
  proof (cases "length s = 65")
    case True
    then show ?thesis using term_key_of_key32 [OF s] assms(3) by auto
  next
    case False
    then have "content t s = None" "content u s = None" using assms(1,2) s by (auto simp: trie32_def uniform_def)
    then show ?thesis by simp
  qed
qed (use assms in \<open>auto simp: trie32_def\<close>)

interpretation memory: kv_canonical trie32 key32 "\<lambda>v. v \<noteq> []" "Trie_Get S f" "Txn_Insert S f" "Txn_Delete S f" for S f
proof unfold_locales
  fix t u assume t: "trie32 t" "trie32 u" "\<And>k. key32 k \<Longrightarrow> Trie_Get S f t k = Trie_Get S f u k"
  show "t = u" by (rule memory_extensional [OF t(1,2)]) (use t memory_Get in simp)
next
  fix t k assume t: "trie32 t" and k: "key32 k"
  show "\<exists>r. Trie_Get S f t k = Some r" using memory_Get [OF t] by simp
  show "\<exists>t'. Txn_Delete S f t k = Some t' \<and> trie32 t' \<and>
      (\<forall>j. key32 j \<longrightarrow> Trie_Get S f t' j = (if j = k then Some None else Trie_Get S f t j))"
    using memory_Delete [OF t k] memory_Get [OF t] memory_Get by fastforce
  fix v :: "byte list" assume "v \<noteq> []"
  with k show "\<exists>t'. Txn_Insert S f t k v = Some t' \<and> trie32 t' \<and>
      (\<forall>j. key32 j \<longrightarrow> Trie_Get S f t' j = (if j = k then Some (Some v) else Trie_Get S f t j))"
    using memory_Insert [OF t k] memory_Get [OF t] memory_Get by fastforce
qed

end
