(* ===== verification/State_Snapshot.thy ===== *)
theory State_Snapshot
  imports Trie_Kv State_Txn
begin

text \<open>
  The state over the trie (\<open>state/immutable-trie/state.go\<close> and \<open>snapshot.go\<close>, and the
  encoding of accounts of \<open>state/state.go\<close>): opening the trie of a root, reading accounts
  and storage slots, and committing the objects of a block.

  Keys are hashes of 32 bytes, so no lookup or update follows more than 65 references,
  which is the fuel of the trie operations here.
\<close>

section \<open>Encoding of accounts\<close>

text \<open>
  The accessors of the RLP package, the cache of tries and the failure of a batch write
  are third-party behaviour.
\<close>

record 'c TrieLib =
  hasher :: Hasher
  tries :: "('c, hash, Node option) lru"
  NewUint :: "uint64 \<Rightarrow> rlp_value"
  NewBigInt :: "int \<Rightarrow> rlp_value"
  GetUint64 :: "rlp_value \<Rightarrow> uint64 option"
  GetBigInt :: "rlp_value \<Rightarrow> int option"
  GetHash :: "rlp_value \<Rightarrow> hash option"
  write_fails :: "writes \<Rightarrow> bool"

definition GetBytes :: "rlp_value \<Rightarrow> byte list option" where
  "GetBytes v = (case v of TypeBytes b \<Rightarrow> Some b | TypeArray _ \<Rightarrow> None)"

definition Account_MarshalWith :: "('c, 'x) TrieLib_scheme \<Rightarrow> Account \<Rightarrow> rlp_value" where
  "Account_MarshalWith L a =
     TypeArray [NewUint L (AccNonce a), NewBigInt L (AccBalance a), TypeBytes (Hash_Bytes (AccRoot a)),
       TypeBytes (AccCodeHash a)]"

text \<open>\<open>None\<close> is the error of the decoder.\<close>

definition Account_UnmarshalRlp :: "('c, 'x) TrieLib_scheme \<Rightarrow> Storage \<Rightarrow> byte list \<Rightarrow> Account option" where
  "Account_UnmarshalRlp L S b = do {
     v \<leftarrow> rlp_Parse S b;
     case v of
       TypeBytes _ \<Rightarrow> None
     | TypeArray elems \<Rightarrow>
         if length elems < 4 then None
         else do {
           nonce \<leftarrow> GetUint64 L (elems ! 0);
           balance \<leftarrow> GetBigInt L (elems ! 1);
           root \<leftarrow> GetHash L (elems ! 2);
           codeHash \<leftarrow> GetBytes (elems ! 3);
           Some \<lparr>AccNonce = nonce, AccBalance = balance, AccRoot = root, AccCodeHash = codeHash\<rparr> } }"

section \<open>Opening a trie\<close>

record 'c TrieState =
  st_storage :: Storage
  st_cache :: 'c

definition newTrieAt ::
  "('c, 'x) TrieLib_scheme \<Rightarrow> 'c TrieState \<Rightarrow> hash \<Rightarrow> ((unit + Node option) \<times> 'c TrieState) go" where
  "newTrieAt L s root =
     (if root = EmptyRootHash then Some (Inr None, s)
      else
        let (tt, c) = lru_Get (tries L) (st_cache s) root; s = s\<lparr>st_cache := c\<rparr> in
        case tt of
          Some t \<Rightarrow> Some (Inr t, s)
        | None \<Rightarrow> do {
            r \<leftarrow> GetNode (st_storage s) (Hash_Bytes root);
            Some (case r of Inl e \<Rightarrow> Inl e | Inr None \<Rightarrow> Inl () | Inr (Some n) \<Rightarrow> Inr (Some n), s) })"

definition AddState :: "('c, 'x) TrieLib_scheme \<Rightarrow> 'c TrieState \<Rightarrow> hash \<Rightarrow> Node option \<Rightarrow> 'c TrieState" where
  "AddState L s root t = s\<lparr>st_cache := lru_Add (tries L) (st_cache s) root t\<rparr>"

section \<open>Reading\<close>

definition hashit :: "('c, 'x) TrieLib_scheme \<Rightarrow> byte list \<Rightarrow> byte list" where
  "hashit L k = Hasher.Keccak256 (hasher L) k"

definition Snapshot_GetStorage ::
  "('c, 'x) TrieLib_scheme \<Rightarrow> 'c TrieState \<Rightarrow> hash \<Rightarrow> hash \<Rightarrow> (hash \<times> 'c TrieState) go" where
  "Snapshot_GetStorage L s root rawkey = do {
     (r, s) \<leftarrow> (if root = emptyStateHash then Some (Inr None, s) else newTrieAt L s root);
     case r of
       Inl e \<Rightarrow> Some (ZeroHash, s)
     | Inr t \<Rightarrow> do {
         val \<leftarrow> Trie_Get (st_storage s) 65 t (hashit L (Hash_Bytes rawkey));
         Some (case val of
                 None \<Rightarrow> ZeroHash
               | Some b \<Rightarrow>
                   (case Option.bind (rlp_Parse (st_storage s) b) GetBytes of
                      None \<Rightarrow> ZeroHash | Some res \<Rightarrow> BytesToHash res), s) } }"

definition Snapshot_GetAccount ::
  "('c, 'x) TrieLib_scheme \<Rightarrow> 'c TrieState \<Rightarrow> Node option \<Rightarrow> address \<Rightarrow> (unit + Account option) go" where
  "Snapshot_GetAccount L s trie addr = do {
     data \<leftarrow> Trie_Get (st_storage s) 65 trie (hashit L (Address_Bytes addr));
     Some (case data of
             None \<Rightarrow> Inr None
           | Some b \<Rightarrow>
               (case Account_UnmarshalRlp L (st_storage s) b of None \<Rightarrow> Inl () | Some a \<Rightarrow> Inr (Some a))) }"

section \<open>Committing\<close>

definition GetCodeKey :: "hash \<Rightarrow> byte list" where
  "GetCodeKey h = [0x63, 0x6f, 0x64, 0x65] @ Hash_Bytes h"

text \<open>The update of the storage trie that an entry stands for.\<close>

definition entry_update :: "('c, 'x) TrieLib_scheme \<Rightarrow> StorageObject \<Rightarrow> byte list \<times> byte list option" where
  "entry_update L e =
     (hashit L (StoKey e),
      if StoDeleted e then None
      else Some (rlp_Marshal (hasher L) (TypeBytes (dropWhile (\<lambda>b. b = 0) (StoVal e)))))"

definition commit_storage ::
  "('c, 'x) TrieLib_scheme \<Rightarrow> 'c TrieState \<Rightarrow> Object \<Rightarrow> ((unit + hash \<times> writes) \<times> 'c TrieState) go" where
  "commit_storage L s obj = do {
     (r, s) \<leftarrow> newTrieAt L s (ORoot obj);
     case r of
       Inl e \<Rightarrow> Some (Inl e, s)
     | Inr t \<Rightarrow> do {
         t \<leftarrow> run_updates (Txn_Insert (st_storage s) 65) (Txn_Delete (st_storage s) 65) t
                (map (entry_update L) (OStorage obj));
         (root, ws) \<leftarrow> Txn_Hash (hasher L) t;
         Some (Inr (BytesToHash root, ws), AddState L s (BytesToHash root) t) } }"

definition object_account :: "Object \<Rightarrow> hash \<Rightarrow> Account" where
  "object_account obj root =
     \<lparr>AccNonce = ONonce obj, AccBalance = OBalance obj, AccRoot = root, AccCodeHash = Hash_Bytes (OCodeHash obj)\<rparr>"

definition commit_one ::
  "('c, 'x) TrieLib_scheme \<Rightarrow> 'c TrieState \<Rightarrow> Node option \<Rightarrow> Object \<Rightarrow>
   ((unit + Node option \<times> writes) \<times> 'c TrieState) go" where
  "commit_one L s tt obj =
     (if ODeleted obj then do {
        tt \<leftarrow> Txn_Delete (st_storage s) 65 tt (hashit L (Address_Bytes (OAddress obj)));
        Some (Inr (tt, []), s) }
      else do {
        (r, s) \<leftarrow> (if OStorage obj \<noteq> [] then commit_storage L s obj else Some (Inr (ORoot obj, []), s));
        case r of
          Inl e \<Rightarrow> Some (Inl e, s)
        | Inr (root, ws) \<Rightarrow> do {
            let code = (if ODirtyCode obj then [(GetCodeKey (OCodeHash obj), OCode obj)] else []);
            let data = rlp_Marshal (hasher L) (Account_MarshalWith L (object_account obj root));
            tt \<leftarrow> Txn_Insert (st_storage s) 65 tt (hashit L (Address_Bytes (OAddress obj))) data;
            Some (Inr (tt, ws @ code), s) } })"

fun commit_objects ::
  "('c, 'x) TrieLib_scheme \<Rightarrow> 'c TrieState \<Rightarrow> Node option \<Rightarrow> Object list \<Rightarrow>
   ((unit + Node option \<times> writes) \<times> 'c TrieState) go" where
  "commit_objects L s tt [] = Some (Inr (tt, []), s)"
| "commit_objects L s tt (obj # objs) = do {
     (r, s) \<leftarrow> commit_one L s tt obj;
     case r of
       Inl e \<Rightarrow> Some (Inl e, s)
     | Inr (tt, ws) \<Rightarrow> do {
         (r, s) \<leftarrow> commit_objects L s tt objs;
         Some (map_sum id (\<lambda>(tt, us). (tt, ws @ us)) r, s) } }"

text \<open>The batch is written at the end, so a failed commit leaves the storage as it was.\<close>

definition Snapshot_Commit ::
  "('c, 'x) TrieLib_scheme \<Rightarrow> 'c TrieState \<Rightarrow> Node option \<Rightarrow> Object list \<Rightarrow>
   ((unit + Node option \<times> byte list) \<times> 'c TrieState) go" where
  "Snapshot_Commit L s trie objs = do {
     (r, s) \<leftarrow> commit_objects L s trie objs;
     case r of
       Inl e \<Rightarrow> Some (Inl e, s)
     | Inr (tt, ws) \<Rightarrow> do {
         (root, us) \<leftarrow> Txn_Hash (hasher L) tt;
         if write_fails L (ws @ us) then Some (Inl (), s)
         else Some (Inr (tt, root),
                AddState L (s\<lparr>st_storage := Batch_Write (st_storage s) (ws @ us)\<rparr>) (BytesToHash root) tt) } }"

end
