(* ===== verification/Snapshot_Laws.thy ===== *)
theory Snapshot_Laws
  imports State_Snapshot
begin

text \<open>
  The state over the trie persists what is committed: the laws of the third-party
  functions, the invariant of the cache of tries, and the effect of a commit on the
  accounts and their storage.
\<close>

section \<open>What the code relies on\<close>

text \<open>
  Encoded accounts decode, addresses have different hashes, and no node has the hash of
  the empty trie.
\<close>

definition snapshot_lib :: "('c, 'x) TrieLib_scheme \<Rightarrow> Storage \<Rightarrow> bool" where
  "snapshot_lib L S \<longleftrightarrow> codec_ok (hasher L) S \<and> lru_laws (tries L) \<and>
     (\<forall>n. GetUint64 L (NewUint L n) = Some n) \<and> (\<forall>b \<ge> 0. GetBigInt L (NewBigInt L b) = Some b) \<and>
     (\<forall>h. GetHash L (TypeBytes (Hash_Bytes h)) = Some h) \<and> inj (\<lambda>a. hashit L (Address_Bytes a)) \<and>
     (\<forall>vs. Hasher.Keccak256 (hasher L) (rlp_Marshal (hasher L) (TypeArray vs)) \<noteq> Hash_Bytes EmptyRootHash)"

lemma account_roundtrip:
  assumes "snapshot_lib L S" "0 \<le> AccBalance a"
  shows "Account_UnmarshalRlp L S (rlp_Marshal (hasher L) (Account_MarshalWith L a)) = Some a"
  using assms by (simp add: snapshot_lib_def codec_ok_def Account_UnmarshalRlp_def Account_MarshalWith_def GetBytes_def)

lemma snapshot_lib_batch: "snapshot_lib L (Batch_Write S ws) \<longleftrightarrow> snapshot_lib L S"
  by (simp add: snapshot_lib_def codec_ok_batch)

lemma hashit_key32: "snapshot_lib L S \<Longrightarrow> key32 (hashit L b)"
  by (simp add: snapshot_lib_def codec_ok_def hashit_def key32_def)

section \<open>Roots\<close>

text \<open>The root of a trie that is completely in the storage.\<close>

definition root_holds :: "Storage \<Rightarrow> hash \<Rightarrow> Node option \<Rightarrow> bool" where
  "root_holds S r t \<longleftrightarrow> (t = None \<longleftrightarrow> r = EmptyRootHash) \<and>
     (t \<noteq> None \<longrightarrow> (\<exists>m. GetNode S (Hash_Bytes r) = Some (Inr (Some m)) \<and> stored S (Some m) t))"

lemma extends_stored: "extends S S' \<Longrightarrow> stored S n t \<Longrightarrow> stored S' n t"
  by (auto simp: stored_def intro: extends_rep)

lemma extends_GetNode: "extends S S' \<Longrightarrow> GetNode S h = Some (Inr (Some n)) \<Longrightarrow> GetNode S' h = Some (Inr (Some n))"
  by (auto simp: GetNode_def extends_def split: sum.splits option.splits)

lemma extends_root: "extends S S' \<Longrightarrow> root_holds S r t \<Longrightarrow> root_holds S' r t"
  unfolding root_holds_def using extends_stored extends_GetNode by metis

lemma stored_unique: "stored S n t \<Longrightarrow> stored S n u \<Longrightarrow> t = u"
  using stored_Get [of S n t] stored_Get [of S n u] by (intro memory_extensional) (auto simp: stored_def)

lemma root_holds_unique: "root_holds S r t \<Longrightarrow> root_holds S r u \<Longrightarrow> t = u"
  unfolding root_holds_def using stored_unique by (metis option.inject sum.inject(2))

section \<open>The cache of tries\<close>

text \<open>
  Every cached trie can be used, and is the trie of its root in the storage \<open>S'\<close>, which
  also has the nodes of the batch that is being collected.
\<close>

definition cache_usable :: "('c, 'x) TrieLib_scheme \<Rightarrow> Storage \<Rightarrow> 'c \<Rightarrow> bool" where
  "cache_usable L S c \<longleftrightarrow> (\<forall>r n. fst (lru_Get (tries L) c r) = Some n \<longrightarrow> (\<exists>t. stored S n t))"

definition cache_ok :: "('c, 'x) TrieLib_scheme \<Rightarrow> Storage \<Rightarrow> Storage \<Rightarrow> 'c \<Rightarrow> bool" where
  "cache_ok L S S' c \<longleftrightarrow>
     (\<forall>r n. fst (lru_Get (tries L) c r) = Some n \<longrightarrow> (\<exists>t. stored S n t \<and> root_holds S' r t))"

lemma cache_ok_usable: "cache_ok L S S' c \<Longrightarrow> cache_usable L S c"
  by (auto simp: cache_ok_def cache_usable_def)

lemma cache_Get:
  assumes "lru_laws (tries L)"
  shows "cache_usable L S (snd (lru_Get (tries L) c r)) \<longleftrightarrow> cache_usable L S c"
    and "cache_ok L S S' (snd (lru_Get (tries L) c r)) \<longleftrightarrow> cache_ok L S S' c"
  using lru_laws.lru_Get_Get [OF assms] by (simp_all add: cache_usable_def cache_ok_def)

lemma cache_Add:
  assumes "lru_laws (tries L)" "stored S n t"
  shows "cache_usable L S c \<Longrightarrow> cache_usable L S (lru_Add (tries L) c r n)"
    and "cache_ok L S S' c \<Longrightarrow> root_holds S' r t \<Longrightarrow> cache_ok L S S' (lru_Add (tries L) c r n)"
  using lru_laws.lru_Get_Add [OF assms(1)] assms(2) unfolding cache_usable_def cache_ok_def by (metis, metis)

lemma extends_cache: "extends S S' \<Longrightarrow> cache_ok L S S' c \<Longrightarrow> cache_ok L S' S' c"
  unfolding cache_ok_def using extends_stored by metis

text \<open>Opening a root that is in the storage, possibly through the cache.\<close>

lemma newTrieAt_opens:
  assumes l: "lru_laws (tries L)" and c: "cache_usable L (st_storage s) (st_cache s)" and r: "root_holds (st_storage s) r t0"
  shows "\<exists>n t c'. newTrieAt L s r = Some (Inr n, s\<lparr>st_cache := c'\<rparr>) \<and> stored (st_storage s) n t \<and>
    cache_usable L (st_storage s) c' \<and>
    (\<forall>S'. extends (st_storage s) S' \<longrightarrow> cache_ok L (st_storage s) S' (st_cache s) \<longrightarrow>
       t = t0 \<and> cache_ok L (st_storage s) S' c')"
proof (cases "r = EmptyRootHash")
  case True
  then have "t0 = None" using r by (simp add: root_holds_def)
  then show ?thesis using True stored_empty [of "st_storage s"] c
    by (intro exI [of _ None] exI [of _ "st_cache s"]) (simp add: newTrieAt_def)
next
  case False
  let ?c = "snd (lru_Get (tries L) (st_cache s) r)"
  have c': "cache_usable L (st_storage s) ?c" using cache_Get(1) [OF l] c by blast
  show ?thesis
  proof (cases "fst (lru_Get (tries L) (st_cache s) r)")
    case None
    obtain m where m: "GetNode (st_storage s) (Hash_Bytes r) = Some (Inr (Some m))" "stored (st_storage s) (Some m) t0"
      using r False by (auto simp: root_holds_def)
    then have "newTrieAt L s r = Some (Inr (Some m), s\<lparr>st_cache := ?c\<rparr>)"
      using None False by (simp add: newTrieAt_def case_prod_beta)
    then show ?thesis using m(2) c' cache_Get(2) [OF l] by blast
  next
    case (Some n)
    then obtain t where t: "stored (st_storage s) n t" using c by (auto simp: cache_usable_def)
    have "t = t0 \<and> cache_ok L (st_storage s) S' ?c" if "extends (st_storage s) S'" "cache_ok L (st_storage s) S' (st_cache s)" for S'
    proof
      from that(2) Some obtain u where u: "stored (st_storage s) n u" "root_holds S' r u" by (auto simp: cache_ok_def)
      then show "t = t0" using stored_unique [OF t u(1)] root_holds_unique extends_root [OF that(1) r] by blast
      show "cache_ok L (st_storage s) S' ?c" using that(2) cache_Get(2) [OF l] by blast
    qed
    moreover have "newTrieAt L s r = Some (Inr n, s\<lparr>st_cache := ?c\<rparr>)"
      using Some False by (simp add: newTrieAt_def case_prod_beta)
    ultimately show ?thesis using t c' by blast
  qed
qed

section \<open>Hashing a stored trie\<close>

lemma Txn_Hash_total:
  assumes "codec_ok H S" "stored S n t"
  shows "\<exists>root ws. Txn_Hash H n = Some (root, ws)"
proof (cases n)
  case None
  then show ?thesis by (simp add: Txn_Hash_def)
next
  case (Some m)
  have "rel_option (hashes H S) n t" using rep_hashes [OF assms(1), of 65 n t] assms(2) by (simp add: stored_def trie32_def)
  then obtain val ws where "hash_node H m = Some (val, ws)" using Some by (auto simp: option_rel_Some1 hashes_def)
  then show ?thesis using Some by (simp add: Txn_Hash_def Let_def split: rlp_value.split)
qed

text \<open>The root of a trie whose batch has been written.\<close>

lemma Txn_Hash_not_empty:
  assumes "snapshot_lib L S" "Txn_Hash (hasher L) (Some n) = Some (root, ws)" "\<not> is_value n"
  shows "root \<noteq> Hash_Bytes EmptyRootHash"
proof -
  have "\<exists>vs us. hash_node (hasher L) n = Some (hash_value (hasher L) (TypeArray vs) us)" if "hash_node (hasher L) n = Some r" for r
    using that assms(3) by (cases n) (auto split: bind_splits)
  moreover obtain r where "hash_node (hasher L) n = Some r" using assms(2) by (auto simp: Txn_Hash_def split: bind_splits)
  ultimately obtain vs us where "hash_node (hasher L) n = Some (hash_value (hasher L) (TypeArray vs) us)" by blast
  then have "root = Hasher.Keccak256 (hasher L) (rlp_Marshal (hasher L) (TypeArray vs))"
    using assms(1,2) by (auto simp: Txn_Hash_def hash_value_def Let_def snapshot_lib_def codec_ok_def split: if_splits)
  then show ?thesis using assms(1) by (simp add: snapshot_lib_def)
qed

lemma Txn_Hash_root:
  assumes c: "snapshot_lib L S'" and s: "stored S' n t" and h: "Txn_Hash (hasher L) n = Some (root, ws)" and w: "written S' ws"
  shows "length root = 32 \<and> root_holds S' (BytesToHash root) t"
proof (cases n)
  case None
  then have "t = None" "root = Hash_Bytes EmptyRootHash" using s h rep_None_iff by (auto simp: stored_def Txn_Hash_def)
  then show ?thesis by (simp add: root_holds_def)
next
  case (Some m)
  then have r: "rep S' 65 (Some m) t" "trie_ok t" "no_empty t" "trie32 t" using s by (auto simp: stored_def trie32_def)
  have co: "codec_ok (hasher L) S'" using c by (simp add: snapshot_lib_def)
  obtain m' e where m': "length root = 32" "GetNode S' root = Some (Inr (Some m'))" "rep S' e (Some m') t"
    using commit_opens [OF co r(1,2,3) h [unfolded Some] w] by blast
  moreover have "BytesToHash root \<noteq> EmptyRootHash"
    using Txn_Hash_not_empty [OF c h [unfolded Some]] s Some Hash_Bytes_BytesToHash [OF m'(1)] by (auto simp: stored_def)
  moreover have "t \<noteq> None" using rep_None_iff [OF r(1)] by simp
  moreover have "stored S' (Some m') t" using storedI [OF m'(3) r(4)] GetNode_not_value [OF m'(2)] by simp
  ultimately show ?thesis using Hash_Bytes_BytesToHash [OF m'(1)] by (auto simp: root_holds_def)
qed

section \<open>Committing the storage of an account\<close>

definition slots :: "Node option \<Rightarrow> byte list \<Rightarrow> byte list option" where
  "slots t k = content t (bytesToHexNibbles k)"

definition slots_updated :: "('c, 'x) TrieLib_scheme \<Rightarrow> Object \<Rightarrow> Node option \<Rightarrow> Node option \<Rightarrow> bool" where
  "slots_updated L obj t0 t1 \<longleftrightarrow>
     (\<forall>k. key32 k \<longrightarrow> slots t1 k = updated (map (entry_update L) (OStorage obj)) (slots t0) k)"

lemma run_updates_stored:
  assumes "stored S n t" "\<forall>u \<in> set us. update_ok key32 (\<lambda>v. v \<noteq> []) u"
  shows "\<exists>n' t'. run_updates (Txn_Insert S 65) (Txn_Delete S 65) n us = Some n' \<and> stored S n' t' \<and>
    (\<forall>k. key32 k \<longrightarrow> slots t' k = updated us (slots t) k)"
proof -
  obtain n' t' where n: "run_updates (Txn_Insert S 65) (Txn_Delete S 65) n us = Some n'" "stored S n' t'"
    "\<forall>k. key32 k \<longrightarrow> Trie_Get S 65 n' k = Some (updated us (slots t) k)"
    using disk.run_updates_law [of S n us "slots t"] assms stored_Get [OF assms(1)] unfolding slots_def by blast
  then show ?thesis using stored_Get [OF n(2)] by (auto simp: slots_def)
qed

lemma entry_update_ok: "snapshot_lib L S \<Longrightarrow> update_ok key32 (\<lambda>v. v \<noteq> []) (entry_update L e)"
  using hashit_key32 [of L S] by (simp add: update_ok_def entry_update_def snapshot_lib_def codec_ok_def)

text \<open>
  What a step of the commit leaves: the storage is only written at the end, and the cache
  stays right for every storage that has the nodes of the batch.
\<close>

definition commit_frame :: "('c, 'x) TrieLib_scheme \<Rightarrow> 'c TrieState \<Rightarrow> writes \<Rightarrow> 'c TrieState \<Rightarrow> bool" where
  "commit_frame L s ws s' \<longleftrightarrow> st_storage s' = st_storage s \<and> cache_usable L (st_storage s) (st_cache s') \<and>
     (\<forall>S'. extends (st_storage s) S' \<longrightarrow> written S' ws \<longrightarrow> cache_ok L (st_storage s) S' (st_cache s) \<longrightarrow>
        cache_ok L (st_storage s) S' (st_cache s'))"

lemma snapshot_lib_extends: "snapshot_lib L S \<Longrightarrow> extends S S' \<Longrightarrow> snapshot_lib L S'"
  by (auto simp: snapshot_lib_def codec_ok_def extends_def)

lemma commit_storage_law:
  assumes l: "snapshot_lib L (st_storage s)" and c: "cache_usable L (st_storage s) (st_cache s)"
    and r: "root_holds (st_storage s) (ORoot obj) t0"
  shows "\<exists>root ws s' t1. commit_storage L s obj = Some (Inr (root, ws), s') \<and> commit_frame L s ws s' \<and>
    (\<forall>S'. extends (st_storage s) S' \<longrightarrow> written S' ws \<longrightarrow> cache_ok L (st_storage s) S' (st_cache s) \<longrightarrow>
       root_holds S' root t1 \<and> slots_updated L obj t0 t1)"
proof -
  let ?S = "st_storage s"
  have lru: "lru_laws (tries L)" and co: "codec_ok (hasher L) ?S" using l by (auto simp: snapshot_lib_def)
  obtain n t c' where n: "newTrieAt L s (ORoot obj) = Some (Inr n, s\<lparr>st_cache := c'\<rparr>)" "stored ?S n t" "cache_usable L ?S c'"
    "\<forall>S'. extends ?S S' \<longrightarrow> cache_ok L ?S S' (st_cache s) \<longrightarrow> t = t0 \<and> cache_ok L ?S S' c'"
    using newTrieAt_opens [OF lru c r] by blast
  have u: "\<forall>u \<in> set (map (entry_update L) (OStorage obj)). update_ok key32 (\<lambda>v. v \<noteq> []) u"
    using entry_update_ok [OF l] by auto
  obtain n' t' where n': "run_updates (Txn_Insert ?S 65) (Txn_Delete ?S 65) n (map (entry_update L) (OStorage obj)) = Some n'"
    "stored ?S n' t'" "\<forall>k. key32 k \<longrightarrow> slots t' k = updated (map (entry_update L) (OStorage obj)) (slots t) k"
    using run_updates_stored [OF n(2) u] by blast
  obtain root ws where h: "Txn_Hash (hasher L) n' = Some (root, ws)" using Txn_Hash_total [OF co n'(2)] by blast
  let ?s = "AddState L (s\<lparr>st_cache := c'\<rparr>) (BytesToHash root) n'"
  have root: "root_holds S' (BytesToHash root) t'" if "extends ?S S'" "written S' ws" for S'
    using Txn_Hash_root [OF snapshot_lib_extends [OF l that(1)] extends_stored [OF that(1) n'(2)] h that(2)] by blast
  have "commit_storage L s obj = Some (Inr (BytesToHash root, ws), ?s)" using n(1) n'(1) h by (simp add: commit_storage_def)
  moreover have "commit_frame L s ws ?s"
    using cache_Add [OF lru n'(2)] n(3,4) root by (auto simp: commit_frame_def AddState_def)
  moreover have "slots_updated L obj t0 t'" if "extends ?S S'" "cache_ok L ?S S' (st_cache s)" for S'
    using n'(3) n(4) that by (auto simp: slots_updated_def)
  ultimately show ?thesis using root by blast
qed

section \<open>Committing the accounts\<close>

definition account_data :: "('c, 'x) TrieLib_scheme \<Rightarrow> Node option \<Rightarrow> address \<Rightarrow> byte list option" where
  "account_data L t a = slots t (hashit L (Address_Bytes a))"

text \<open>What is stored for an object: the root of its storage and its account.\<close>

definition root_after :: "('c, 'x) TrieLib_scheme \<Rightarrow> Storage \<Rightarrow> Storage \<Rightarrow> Object \<Rightarrow> hash \<Rightarrow> bool" where
  "root_after L S S' obj r \<longleftrightarrow>
     (if OStorage obj = [] then r = ORoot obj
      else \<exists>t0 t1. root_holds S (ORoot obj) t0 \<and> root_holds S' r t1 \<and> slots_updated L obj t0 t1)"

definition object_stored ::
  "('c, 'x) TrieLib_scheme \<Rightarrow> Storage \<Rightarrow> Storage \<Rightarrow> Object \<Rightarrow> byte list option \<Rightarrow> bool" where
  "object_stored L S S' obj d \<longleftrightarrow>
     (if ODeleted obj then d = None
      else \<exists>r. d = Some (rlp_Marshal (hasher L) (Account_MarshalWith L (object_account obj r))) \<and> root_after L S S' obj r)"

definition object_ok :: "Storage \<Rightarrow> Object \<Rightarrow> bool" where
  "object_ok S obj \<longleftrightarrow> ODeleted obj \<or> (0 \<le> OBalance obj \<and> (OStorage obj \<noteq> [] \<longrightarrow> (\<exists>t0. root_holds S (ORoot obj) t0)))"

lemma account_data_other:
  assumes "snapshot_lib L S" "a \<noteq> b" "\<forall>j. slots t' j = (if j = hashit L (Address_Bytes b) then w else slots t j)"
  shows "account_data L t' a = account_data L t a"
proof -
  have "hashit L (Address_Bytes a) \<noteq> hashit L (Address_Bytes b)"
    using assms(1,2) injD [of "\<lambda>a. hashit L (Address_Bytes a)" a b] by (auto simp: snapshot_lib_def)
  then show ?thesis using assms(3) by (simp add: account_data_def)
qed

lemma commit_frame_refl: "cache_usable L (st_storage s) (st_cache s) \<Longrightarrow> commit_frame L s [] s"
  by (simp add: commit_frame_def)

lemma commit_frame_trans: "commit_frame L s ws s1 \<Longrightarrow> commit_frame L s1 us s2 \<Longrightarrow> commit_frame L s (ws @ us) s2"
  by (simp add: commit_frame_def)

lemma commit_frame_more: "commit_frame L s ws s' \<Longrightarrow> commit_frame L s (ws @ us) s'"
  by (simp add: commit_frame_def)

text \<open>The root of the storage of an object, committed if there is something to commit.\<close>

lemma object_root:
  assumes l: "snapshot_lib L (st_storage s)" and c: "cache_usable L (st_storage s) (st_cache s)"
    and o: "object_ok (st_storage s) obj" "\<not> ODeleted obj"
  shows "\<exists>root ws s'. (if OStorage obj \<noteq> [] then commit_storage L s obj else Some (Inr (ORoot obj, []), s)) = Some (Inr (root, ws), s') \<and>
    commit_frame L s ws s' \<and>
    (\<forall>S'. extends (st_storage s) S' \<longrightarrow> written S' ws \<longrightarrow> cache_ok L (st_storage s) S' (st_cache s) \<longrightarrow>
       root_after L (st_storage s) S' obj root)"
proof (cases "OStorage obj = []")
  case True
  then show ?thesis using commit_frame_refl [OF c] by (auto simp: root_after_def)
next
  case False
  then obtain t0 where t0: "root_holds (st_storage s) (ORoot obj) t0" using o by (auto simp: object_ok_def)
  have "root_after L (st_storage s) S' obj root" if "root_holds S' root t1 \<and> slots_updated L obj t0 t1" for S' root t1
    using that t0 False by (auto simp: root_after_def)
  then show ?thesis using False commit_storage_law [OF l c t0]
    by (simp only: not_False_eq_True if_True) blast
qed

lemma commit_one_law:
  assumes l: "snapshot_lib L (st_storage s)" and c: "cache_usable L (st_storage s) (st_cache s)"
    and o: "object_ok (st_storage s) obj" and t: "stored (st_storage s) tt t"
  shows "\<exists>tt' t' ws s'. commit_one L s tt obj = Some (Inr (tt', ws), s') \<and> commit_frame L s ws s' \<and>
    stored (st_storage s) tt' t' \<and> (\<forall>a. a \<noteq> OAddress obj \<longrightarrow> account_data L t' a = account_data L t a) \<and>
    (\<forall>S'. extends (st_storage s) S' \<longrightarrow> written S' ws \<longrightarrow> cache_ok L (st_storage s) S' (st_cache s) \<longrightarrow>
       object_stored L (st_storage s) S' obj (account_data L t' (OAddress obj)))"
proof (cases "ODeleted obj")
  case True
  obtain tt' t' where tt': "Txn_Delete (st_storage s) 65 tt (hashit L (Address_Bytes (OAddress obj))) = Some tt'"
    "stored (st_storage s) tt' t'" "\<forall>j. slots t' j = (if j = hashit L (Address_Bytes (OAddress obj)) then None else slots t j)"
    using stored_Delete [OF t hashit_key32 [OF l]] unfolding slots_def by blast
  then have "commit_one L s tt obj = Some (Inr (tt', []), s)" using True by (simp add: commit_one_def)
  moreover have "object_stored L (st_storage s) S' obj (account_data L t' (OAddress obj))" for S'
    using True tt'(3) by (simp add: object_stored_def account_data_def)
  ultimately show ?thesis using tt'(2) commit_frame_refl [OF c] account_data_other [OF l _ tt'(3)] by blast
next
  case False
  obtain root ws s1 where r: "(if OStorage obj \<noteq> [] then commit_storage L s obj else Some (Inr (ORoot obj, []), s)) = Some (Inr (root, ws), s1)"
    "commit_frame L s ws s1"
    "\<forall>S'. extends (st_storage s) S' \<longrightarrow> written S' ws \<longrightarrow> cache_ok L (st_storage s) S' (st_cache s) \<longrightarrow>
       root_after L (st_storage s) S' obj root"
    using object_root [OF l c o False] by blast
  let ?d = "rlp_Marshal (hasher L) (Account_MarshalWith L (object_account obj root))"
  let ?code = "if ODirtyCode obj then [(GetCodeKey (OCodeHash obj), OCode obj)] else []"
  have d: "?d \<noteq> []" using l by (simp add: snapshot_lib_def codec_ok_def)
  have st: "st_storage s1 = st_storage s" using r(2) by (simp add: commit_frame_def)
  obtain tt' t' where tt': "Txn_Insert (st_storage s) 65 tt (hashit L (Address_Bytes (OAddress obj))) ?d = Some tt'"
    "stored (st_storage s) tt' t'" "\<forall>j. slots t' j = (if j = hashit L (Address_Bytes (OAddress obj)) then Some ?d else slots t j)"
    using stored_Insert [OF t hashit_key32 [OF l] d] unfolding slots_def by blast
  have "commit_one L s tt obj = Some (Inr (tt', ws @ ?code), s1)"
    using False r(1) tt'(1) st by (simp add: commit_one_def)
  moreover have "object_stored L (st_storage s) S' obj (account_data L t' (OAddress obj))"
    if "extends (st_storage s) S'" "written S' (ws @ ?code)" "cache_ok L (st_storage s) S' (st_cache s)" for S'
    using False tt'(3) r(3) that unfolding object_stored_def account_data_def by auto
  ultimately show ?thesis using tt'(2) commit_frame_more [OF r(2)] account_data_other [OF l _ tt'(3)] by blast
qed

lemma commit_objects_law:
  assumes "snapshot_lib L (st_storage s)" "cache_usable L (st_storage s) (st_cache s)" "stored (st_storage s) tt t"
    "\<forall>obj \<in> set objs. object_ok (st_storage s) obj" "distinct (map OAddress objs)"
  shows "\<exists>tt' t' ws s'. commit_objects L s tt objs = Some (Inr (tt', ws), s') \<and> commit_frame L s ws s' \<and>
    stored (st_storage s) tt' t' \<and> (\<forall>a. a \<notin> OAddress ` set objs \<longrightarrow> account_data L t' a = account_data L t a) \<and>
    (\<forall>S'. extends (st_storage s) S' \<longrightarrow> written S' ws \<longrightarrow> cache_ok L (st_storage s) S' (st_cache s) \<longrightarrow>
       (\<forall>obj \<in> set objs. object_stored L (st_storage s) S' obj (account_data L t' (OAddress obj))))"
  using assms
proof (induction objs arbitrary: s tt t)
  case Nil
  then show ?case using commit_frame_refl by auto
next
  case (Cons obj objs)
  have o: "object_ok (st_storage s) obj" using Cons.prems(4) by simp
  obtain tt1 t1 ws s1 where 1: "commit_one L s tt obj = Some (Inr (tt1, ws), s1)" "commit_frame L s ws s1"
    "stored (st_storage s) tt1 t1" "\<forall>a. a \<noteq> OAddress obj \<longrightarrow> account_data L t1 a = account_data L t a"
    "\<forall>S'. extends (st_storage s) S' \<longrightarrow> written S' ws \<longrightarrow> cache_ok L (st_storage s) S' (st_cache s) \<longrightarrow>
       object_stored L (st_storage s) S' obj (account_data L t1 (OAddress obj))"
    using commit_one_law [OF Cons.prems(1,2) o Cons.prems(3)] by blast
  have s1: "st_storage s1 = st_storage s" "cache_usable L (st_storage s) (st_cache s1)" using 1(2) by (auto simp: commit_frame_def)
  obtain tt2 t2 us s2 where 2: "commit_objects L s1 tt1 objs = Some (Inr (tt2, us), s2)" "commit_frame L s1 us s2"
    "stored (st_storage s) tt2 t2" "\<forall>a. a \<notin> OAddress ` set objs \<longrightarrow> account_data L t2 a = account_data L t1 a"
    "\<forall>S'. extends (st_storage s) S' \<longrightarrow> written S' us \<longrightarrow> cache_ok L (st_storage s) S' (st_cache s1) \<longrightarrow>
       (\<forall>obj \<in> set objs. object_stored L (st_storage s) S' obj (account_data L t2 (OAddress obj)))"
    using Cons.IH [of s1 tt1 t1] Cons.prems s1 1(3) by auto
  have "commit_objects L s tt (obj # objs) = Some (Inr (tt2, ws @ us), s2)" using 1(1) 2(1) by simp
  moreover have "\<forall>ob \<in> set (obj # objs). object_stored L (st_storage s) S' ob (account_data L t2 (OAddress ob))"
    if S': "extends (st_storage s) S'" "written S' (ws @ us)" "cache_ok L (st_storage s) S' (st_cache s)" for S'
  proof -
    have "account_data L t2 (OAddress obj) = account_data L t1 (OAddress obj)" using 2(4) Cons.prems(5) by auto
    moreover have "cache_ok L (st_storage s) S' (st_cache s1)" using 1(2) S' by (simp add: commit_frame_def)
    ultimately show ?thesis using 1(5) 2(5) S' by simp
  qed
  ultimately show ?case using commit_frame_trans [OF 1(2) 2(2)] 2(3,4) 1(4) by auto
qed

section \<open>The whole commit\<close>

text \<open>The batch of a commit.\<close>

definition commit_writes :: "('c, 'x) TrieLib_scheme \<Rightarrow> 'c TrieState \<Rightarrow> Node option \<Rightarrow> Object list \<Rightarrow> writes" where
  "commit_writes L s trie objs =
     (case commit_objects L s trie objs of
        Some (Inr (tt, ws), _) \<Rightarrow> (case Txn_Hash (hasher L) tt of Some (_, us) \<Rightarrow> ws @ us | None \<Rightarrow> [])
      | _ \<Rightarrow> [])"

lemma GetAccount_stored:
  "stored (st_storage s) n t \<Longrightarrow> Snapshot_GetAccount L s n a =
     Some (case account_data L t a of None \<Rightarrow> Inr None
       | Some b \<Rightarrow> (case Account_UnmarshalRlp L (st_storage s) b of None \<Rightarrow> Inl () | Some a \<Rightarrow> Inr (Some a)))"
  using stored_Get [of "st_storage s" n t] by (simp add: Snapshot_GetAccount_def account_data_def slots_def)

lemma Account_UnmarshalRlp_batch: "Account_UnmarshalRlp L (Batch_Write S ws) = Account_UnmarshalRlp L S"
  by (simp add: fun_eq_iff Account_UnmarshalRlp_def Batch_Write_def)

lemma Snapshot_Commit_law:
  assumes l: "snapshot_lib L (st_storage s)" and c: "cache_ok L (st_storage s) (st_storage s) (st_cache s)"
    and t: "stored (st_storage s) trie t" and o: "\<forall>obj \<in> set objs. object_ok (st_storage s) obj" "distinct (map OAddress objs)"
    and w: "\<not> write_fails L (commit_writes L s trie objs)" "collision_free (st_storage s) (commit_writes L s trie objs)"
  shows "\<exists>n t' root s'. Snapshot_Commit L s trie objs = Some (Inr (n, root), s') \<and>
    st_storage s' = Batch_Write (st_storage s) (commit_writes L s trie objs) \<and>
    stored (st_storage s') n t' \<and> root_holds (st_storage s') (BytesToHash root) t' \<and>
    cache_ok L (st_storage s') (st_storage s') (st_cache s') \<and>
    (\<forall>a. a \<notin> OAddress ` set objs \<longrightarrow> account_data L t' a = account_data L t a) \<and>
    (\<forall>obj \<in> set objs. object_stored L (st_storage s) (st_storage s') obj (account_data L t' (OAddress obj)))"
proof -
  let ?S = "st_storage s" and ?ws = "commit_writes L s trie objs"
  let ?S' = "Batch_Write ?S ?ws"
  have lru: "lru_laws (tries L)" and co: "codec_ok (hasher L) ?S" using l by (auto simp: snapshot_lib_def)
  have e: "extends ?S ?S'" and wr: "written ?S' ?ws" using extends_batch written_batch w(2) by blast+
  obtain tt t' ws s1 where 1: "commit_objects L s trie objs = Some (Inr (tt, ws), s1)" "commit_frame L s ws s1" "stored ?S tt t'"
    "\<forall>a. a \<notin> OAddress ` set objs \<longrightarrow> account_data L t' a = account_data L t a"
    "\<forall>S'. extends ?S S' \<longrightarrow> written S' ws \<longrightarrow> cache_ok L ?S S' (st_cache s) \<longrightarrow>
       (\<forall>obj \<in> set objs. object_stored L ?S S' obj (account_data L t' (OAddress obj)))"
    using commit_objects_law [OF l cache_ok_usable [OF c] t o] by blast
  obtain root us where h: "Txn_Hash (hasher L) tt = Some (root, us)" using Txn_Hash_total [OF co 1(3)] by blast
  have ws: "?ws = ws @ us" using 1(1) h by (simp add: commit_writes_def)
  have c': "cache_ok L ?S ?S' (st_cache s)" using c extends_root [OF e] unfolding cache_ok_def by blast
  have s1: "st_storage s1 = ?S" "cache_ok L ?S ?S' (st_cache s1)" using 1(2) e wr ws c' by (auto simp: commit_frame_def)
  have st: "stored ?S' tt t'" using extends_stored [OF e 1(3)] .
  have r: "root_holds ?S' (BytesToHash root) t'"
    using Txn_Hash_root [OF snapshot_lib_extends [OF l e] st h] wr ws by simp
  let ?s = "AddState L (s1\<lparr>st_storage := ?S'\<rparr>) (BytesToHash root) tt"
  have "Snapshot_Commit L s trie objs = Some (Inr (tt, root), ?s)" using 1(1) h w(1) ws s1(1) by (simp add: Snapshot_Commit_def)
  moreover have "st_storage ?s = ?S'" by (simp add: AddState_def)
  moreover have "cache_ok L ?S' ?S' (st_cache ?s)"
    using cache_Add(2) [OF lru st extends_cache [OF e s1(2)] r] by (simp add: AddState_def)
  moreover have "\<forall>obj \<in> set objs. object_stored L ?S ?S' obj (account_data L t' (OAddress obj))"
    using 1(5) e wr ws c' by simp
  ultimately show ?thesis using st r 1(4) by metis
qed

end
