(* ===== verification/Trie_Properties.thy ===== *)
theory Trie_Properties
  imports Trie_Kv "HOL-Library.Countable"
begin

text \<open>
  The properties of the state trie, on the operations that the state uses.
\<close>

section \<open>A concrete codec\<close>

text \<open>
  The third-party functions of the trie, instantiated: values are numbered and their
  number is written in unary, and the hash keeps the first 32 bytes.
\<close>

instance rlp_value :: countable
  by countable_datatype

definition unary_hasher :: Hasher where
  "unary_hasher = \<lparr>Keccak256 = (\<lambda>b. take 32 (b @ replicate 32 0)), rlp_Marshal = (\<lambda>v. replicate (to_nat v) 0 @ [1]),
     rlp_Len = (\<lambda>v. case v of TypeBytes b \<Rightarrow> length b | TypeArray _ \<Rightarrow> 0)\<rparr>"

definition empty_storage :: Storage where
  "empty_storage = \<lparr>storage_Get = (\<lambda>_. Inr None), rlp_Parse = (\<lambda>b. Some (from_nat (length b - 1)))\<rparr>"

lemma unary_codec_ok: "codec_ok unary_hasher empty_storage"
  by (auto simp: codec_ok_def unary_hasher_def empty_storage_def min_def)

definition zero_key :: "byte list" where
  "zero_key = replicate 32 0"

lemma zero_key32: "key32 zero_key"
  by (simp add: key32_def zero_key_def)

definition sample_leaf :: Node where
  "sample_leaf = ShortNode (bytesToHexNibbles zero_key) (Some (ValueNode False [7]))"

lemma sample_leaf_stored: "stored empty_storage (Some sample_leaf) (Some sample_leaf)"
proof (rule storedI)
  let ?k = "bytesToHexNibbles zero_key"
  show "rep empty_storage 0 (Some sample_leaf) (Some sample_leaf)"
    unfolding sample_leaf_def by (intro rep_Short rep_Value)
  have k: "term_key ?k" "length ?k = 65" using term_key32 zero_key32 by auto
  show "trie32 (Some sample_leaf)" unfolding trie32_def sample_leaf_def
    using k leaf_content [OF k(1)] by (simp add: uniform_def no_empty_def)
qed (simp add: sample_leaf_def)

section \<open>Properties\<close>

text \<open>
  C6.  The trie is a key-value store.  On a trie whose nodes may be in memory or in the
  storage, any sequence of insertions and deletions of keys of 32 bytes returns, and a
  lookup in the result gives what the last update of the key left, or the old value when
  the sequence does not touch it.
\<close>

theorem trie_is_a_store:
  assumes "stored S n t" "\<forall>u \<in> set us. update_ok key32 (\<lambda>v. v \<noteq> []) u"
  shows "\<exists>n'. run_updates (Txn_Insert S 65) (Txn_Delete S 65) n us = Some n' \<and>
    (\<forall>k. key32 k \<longrightarrow> Trie_Get S 65 n' k = Some (updated us (\<lambda>k. content t (bytesToHexNibbles k)) k))"
  using disk.run_updates_law [of S n us "\<lambda>k. content t (bytesToHexNibbles k)"] assms stored_Get by auto

theorem trie_is_a_store_witness:
  "\<exists>n'. run_updates (Txn_Insert empty_storage 65) (Txn_Delete empty_storage 65) None [(zero_key, Some [7])] = Some n' \<and>
    Trie_Get empty_storage 65 n' zero_key = Some (Some [7])"
  using trie_is_a_store [OF stored_empty [of empty_storage], of "[(zero_key, Some [7])]"] zero_key32
  by (auto simp: update_ok_def updated_def)

text \<open>
  C7.  The root does not depend on the history.  Two sequences of updates of an empty trie
  that leave the same values under the same keys build the same trie, node by node, and so
  yield the same root hash.
\<close>

theorem root_determined_by_content:
  assumes "\<forall>u \<in> set us. update_ok key32 (\<lambda>v. v \<noteq> []) u" "\<forall>u \<in> set us'. update_ok key32 (\<lambda>v. v \<noteq> []) u"
    "\<And>k. key32 k \<Longrightarrow> updated us (\<lambda>_. None) k = updated us' (\<lambda>_. None) k"
  shows "\<exists>t. run_updates (Txn_Insert S f) (Txn_Delete S f) None us = Some t \<and>
    run_updates (Txn_Insert S f) (Txn_Delete S f) None us' = Some t"
proof -
  have e: "trie32 None" "\<forall>k. key32 k \<longrightarrow> Trie_Get S f None k = Some None"
    using stored_empty by (auto simp: stored_def Trie_Get_def)
  show ?thesis
    using memory.run_updates_law [OF e(1) assms(1), of S f "\<lambda>_. None"]
      memory.run_updates_determined [OF e(1) _ assms(1,2), of S f "\<lambda>_. None"] e(2) assms(3) by auto
qed

theorem root_determined_by_content_witness:
  "\<exists>t. run_updates (Txn_Insert empty_storage 0) (Txn_Delete empty_storage 0) None [(zero_key, Some [7])] = Some t \<and>
    run_updates (Txn_Insert empty_storage 0) (Txn_Delete empty_storage 0) None
      [(zero_key, Some [8]), (zero_key, None), (zero_key, Some [7])] = Some t"
  by (rule root_determined_by_content) (use zero_key32 in \<open>auto simp: update_ok_def updated_def\<close>)

text \<open>
  C8.  A committed trie can be read back.  When a trie is hashed and the batch of its new
  nodes is written, without two nodes sharing a hash, the root opens a trie in which every
  lookup gives what it gives in the trie that was committed.
\<close>

theorem committed_trie_reopens:
  assumes "codec_ok H S" "stored S (Some n) t" "Txn_Hash H (Some n) = Some (root, ws)" "collision_free S ws"
  shows "\<exists>m. GetNode (Batch_Write S ws) root = Some (Inr (Some m)) \<and>
    (\<forall>k. Trie_Get (Batch_Write S ws) 65 (Some m) k = Trie_Get S 65 (Some n) k)"
proof -
  let ?S = "Batch_Write S ws"
  have t: "trie_ok t" "no_empty t" "trie32 t" and r: "rep ?S 65 (Some n) t"
    using assms(2) extends_rep extends_batch [OF assms(4)] by (auto simp: stored_def trie32_def)
  from commit_opens [OF _ r t(1,2) assms(3) written_batch [OF assms(4)]]
  obtain m e where m: "GetNode ?S root = Some (Inr (Some m))" "rep ?S e (Some m) t"
    using assms(1) codec_ok_batch by blast
  moreover from m have "stored ?S (Some m) t" using storedI t(3) GetNode_not_value by simp
  ultimately show ?thesis using stored_Get stored_Get [OF assms(2)] by simp
qed

theorem committed_trie_reopens_witness:
  "\<exists>root ws m. Txn_Hash unary_hasher (Some sample_leaf) = Some (root, ws) \<and>
    GetNode (Batch_Write empty_storage ws) root = Some (Inr (Some m)) \<and>
    Trie_Get (Batch_Write empty_storage ws) 65 (Some m) zero_key = Some (Some [7])"
proof -
  obtain root d where h: "Txn_Hash unary_hasher (Some sample_leaf) = Some (root, [(root, d)])"
    by (simp add: Txn_Hash_def sample_leaf_def hash_value_def unary_hasher_def Let_def)
  have "Trie_Get empty_storage 65 (Some sample_leaf) zero_key = Some (Some [7])"
    using stored_Get [OF sample_leaf_stored] leaf_content term_key_bytes by (simp add: sample_leaf_def)
  then show ?thesis
    using committed_trie_reopens [OF unary_codec_ok sample_leaf_stored h] h
    by (auto simp: collision_free_def empty_storage_def)
qed


end
