(* ===== verification/Snapshot_Properties.thy ===== *)
theory Snapshot_Properties
  imports Snapshot_Laws Trie_Properties
begin

text \<open>
  What a commit of the state persists, for the accounts and for the slots of their storage.
\<close>

section \<open>A concrete library\<close>

definition sample_lib :: "(nat \<times> (hash \<times> Node option) list) TrieLib" where
  "sample_lib = \<lparr>hasher = unary_hasher, tries = list_lru, NewUint = (\<lambda>n. TypeBytes (be_bytes 8 (uint n))),
     NewBigInt = (\<lambda>b. TypeBytes (Bytes b)),
     GetUint64 = (\<lambda>v. map_option (\<lambda>b. word_of_int (SetBytes b)) (GetBytes v)),
     GetBigInt = (\<lambda>v. map_option SetBytes (GetBytes v)), GetHash = (\<lambda>v. map_option BytesToHash (GetBytes v)),
     write_fails = (\<lambda>_. False)\<rparr>"

definition sample_state :: "(nat \<times> (hash \<times> Node option) list) TrieState" where
  "sample_state = \<lparr>st_storage = empty_storage, st_cache = (128, [])\<rparr>"

definition sample_object :: Object where
  "sample_object = \<lparr>OAddress = 7, OCodeHash = EmptyCodeHash, OBalance = 100, ORoot = EmptyRootHash, ONonce = 1,
     ODeleted = False, ODirtyCode = False, OCode = [],
     OStorage = [\<lparr>StoDeleted = True, StoKey = Hash_Bytes 3, StoVal = []\<rparr>]\<rparr>"

lemma sample_lib_sel [simp]:
  "hasher sample_lib = unary_hasher" "tries sample_lib = list_lru"
  "NewUint sample_lib n = TypeBytes (be_bytes 8 (uint n))" "NewBigInt sample_lib b = TypeBytes (Bytes b)"
  "GetUint64 sample_lib v = map_option (\<lambda>b. word_of_int (SetBytes b)) (GetBytes v)"
  "GetBigInt sample_lib v = map_option SetBytes (GetBytes v)"
  "GetHash sample_lib v = map_option BytesToHash (GetBytes v)" "\<not> write_fails sample_lib ws"
  by (simp_all add: sample_lib_def)

lemma sample_state_sel [simp]: "st_storage sample_state = empty_storage" "st_cache sample_state = (128, [])"
  by (simp_all add: sample_state_def)

lemma unary_hash_not_empty:
  "Hasher.Keccak256 unary_hasher (rlp_Marshal unary_hasher v) \<noteq> Hash_Bytes EmptyRootHash"
proof -
  have "hd (Hash_Bytes EmptyRootHash) = 0x56" by code_simp
  moreover have "hd (Hasher.Keccak256 unary_hasher (rlp_Marshal unary_hasher v)) \<noteq> 0x56"
    by (cases "to_nat v") (simp_all add: unary_hasher_def)
  ultimately show ?thesis by metis
qed

lemma sample_lib_ok: "snapshot_lib sample_lib empty_storage"
proof -
  have "inj (\<lambda>a. hashit sample_lib (Address_Bytes a))"
    by (rule injI) (auto simp: hashit_def unary_hasher_def Address_Bytes_inject)
  moreover have "SetBytes (be_bytes 8 (uint n)) = uint n" for n :: uint64
    using uint_lt2p [of n] by (simp add: SetBytes_be_bytes)
  ultimately show ?thesis
    using unary_codec_ok list_lru.lru_laws_axioms unary_hash_not_empty
    by (simp add: snapshot_lib_def GetBytes_def SetBytes_Bytes)
qed

lemma sample_cache_ok: "cache_ok sample_lib empty_storage S' (128, [])"
  by (simp add: cache_ok_def list_lru_def)

lemma sample_object_ok: "object_ok empty_storage sample_object"
  by (auto simp: object_ok_def sample_object_def root_holds_def)

section \<open>The effect of a commit\<close>

lemma commit_effect:
  assumes "snapshot_lib L (st_storage s)" "cache_ok L (st_storage s) (st_storage s) (st_cache s)"
    "stored (st_storage s) trie t" "\<forall>obj \<in> set objs. object_ok (st_storage s) obj" "distinct (map OAddress objs)"
    "\<not> write_fails L (commit_writes L s trie objs)" "collision_free (st_storage s) (commit_writes L s trie objs)"
  shows "\<exists>n root s'. Snapshot_Commit L s trie objs = Some (Inr (n, root), s') \<and>
    (\<forall>a. a \<notin> OAddress ` set objs \<longrightarrow> Snapshot_GetAccount L s' n a = Snapshot_GetAccount L s trie a) \<and>
    (\<forall>obj \<in> set objs. ODeleted obj \<longrightarrow> Snapshot_GetAccount L s' n (OAddress obj) = Some (Inr None)) \<and>
    (\<forall>obj \<in> set objs. \<not> ODeleted obj \<longrightarrow>
       (\<exists>r. Snapshot_GetAccount L s' n (OAddress obj) = Some (Inr (Some (object_account obj r))) \<and>
          root_after L (st_storage s) (st_storage s') obj r)) \<and>
    (\<exists>m s''. newTrieAt L s' (BytesToHash root) = Some (Inr m, s'') \<and>
       (\<forall>a. Snapshot_GetAccount L s'' m a = Snapshot_GetAccount L s' n a)) \<and>
    cache_ok L (st_storage s') (st_storage s') (st_cache s')"
proof -
  obtain n t' root s' where c: "Snapshot_Commit L s trie objs = Some (Inr (n, root), s')"
    "st_storage s' = Batch_Write (st_storage s) (commit_writes L s trie objs)"
    "stored (st_storage s') n t'" "root_holds (st_storage s') (BytesToHash root) t'"
    "cache_ok L (st_storage s') (st_storage s') (st_cache s')"
    "\<forall>a. a \<notin> OAddress ` set objs \<longrightarrow> account_data L t' a = account_data L t a"
    "\<forall>obj \<in> set objs. object_stored L (st_storage s) (st_storage s') obj (account_data L t' (OAddress obj))"
    using Snapshot_Commit_law [OF assms] by blast
  have rt: "Account_UnmarshalRlp L (st_storage s') (rlp_Marshal (hasher L) (Account_MarshalWith L (object_account obj r)))
      = Some (object_account obj r)" if "obj \<in> set objs" "\<not> ODeleted obj" for obj r
    using account_roundtrip [OF assms(1), of "object_account obj r"] assms(4) that c(2)
    by (auto simp: Account_UnmarshalRlp_batch object_ok_def object_account_def)
  have lru: "lru_laws (tries L)" using assms(1) by (simp add: snapshot_lib_def)
  obtain m c' where m: "newTrieAt L s' (BytesToHash root) = Some (Inr m, s'\<lparr>st_cache := c'\<rparr>)" "stored (st_storage s') m t'"
    using newTrieAt_opens [OF lru cache_ok_usable [OF c(5)] c(4)] c(5) by (auto simp: extends_def)
  have "Snapshot_GetAccount L (s'\<lparr>st_cache := c'\<rparr>) m a = Snapshot_GetAccount L s' n a" for a
    using GetAccount_stored [of "s'\<lparr>st_cache := c'\<rparr>" m t' L a] GetAccount_stored [OF c(3), of L a] m(2)
    by (simp cong: option.case_cong)
  moreover have "Snapshot_GetAccount L s' n a = Snapshot_GetAccount L s trie a" if "a \<notin> OAddress ` set objs" for a
    using c(2,6) that GetAccount_stored [OF c(3), of L a] GetAccount_stored [OF assms(3), of L a]
    by (simp add: Account_UnmarshalRlp_batch cong: option.case_cong)
  moreover have "Snapshot_GetAccount L s' n (OAddress obj) = Some (Inr None)" if "obj \<in> set objs" "ODeleted obj" for obj
    using c(7) that GetAccount_stored [OF c(3), of L "OAddress obj"] by (auto simp: object_stored_def)
  moreover have "\<exists>r. Snapshot_GetAccount L s' n (OAddress obj) = Some (Inr (Some (object_account obj r))) \<and>
      root_after L (st_storage s) (st_storage s') obj r" if "obj \<in> set objs" "\<not> ODeleted obj" for obj
    using c(7) that GetAccount_stored [OF c(3), of L "OAddress obj"] rt [OF that] by (fastforce simp: object_stored_def)
  ultimately show ?thesis using c(1,5) m(1) by blast
qed

text \<open>Reading a slot under a root that holds a trie.\<close>

lemma GetStorage_root:
  assumes "lru_laws (tries L)" "cache_ok L (st_storage s) (st_storage s) (st_cache s)" "root_holds (st_storage s) r t"
  shows "\<exists>s'. Snapshot_GetStorage L s r k =
    Some (case slots t (hashit L (Hash_Bytes k)) of
            None \<Rightarrow> ZeroHash
          | Some b \<Rightarrow> (case Option.bind (rlp_Parse (st_storage s) b) GetBytes of None \<Rightarrow> ZeroHash | Some res \<Rightarrow> BytesToHash res), s')"
proof (cases "r = emptyStateHash")
  case True
  then have "t = None" using assms(3) by (simp add: root_holds_def emptyStateHash_def EmptyRootHash_def)
  then show ?thesis using True by (simp add: Snapshot_GetStorage_def Trie_Get_def slots_def)
next
  case False
  obtain n c where n: "newTrieAt L s r = Some (Inr n, s\<lparr>st_cache := c\<rparr>)" "stored (st_storage s) n t"
    using newTrieAt_opens [OF assms(1) cache_ok_usable [OF assms(2)] assms(3)] assms(2) by (auto simp: extends_def)
  then show ?thesis using False stored_Get [OF n(2)] by (simp add: Snapshot_GetStorage_def slots_def cong: option.case_cong)
qed

lemma BytesToHash_trim: "BytesToHash (dropWhile (\<lambda>b. b = 0) v) = BytesToHash v"
proof -
  have "SetBytes (dropWhile (\<lambda>b. b = 0) v) = SetBytes v"
  proof (induction v)
    case (Cons b v)
    then show ?case using SetBytes_append [of "[0]" v] SetBytes_replicate_0 [of 1] by auto
  qed simp
  then show ?thesis by (simp add: BytesToHash_eq)
qed

lemma updated_last:
  assumes "\<forall>u \<in> set us'. fst u \<noteq> k"
  shows "updated (us @ (k, r) # us') m k = r"
proof -
  have "map_of (rev us') k = None" using assms by (auto simp: map_of_eq_None_iff)
  then show ?thesis by (simp add: updated_def map_add_def)
qed

text \<open>The sample commit writes one node.\<close>

lemma sample_writes: "collision_free empty_storage (commit_writes sample_lib sample_state None [sample_object])"
proof -
  let ?k = "hashit sample_lib (Address_Bytes 7)"
  have "term_key (bytesToHexNibbles ?k)" by (rule term_key_bytes)
  then have "insert empty_storage 65 None (bytesToHexNibbles ?k) d = Some (Some (ShortNode (bytesToHexNibbles ?k) (Some (ValueNode False d))))" for d
    by (rule insert_new)
  then have "\<exists>h d. commit_writes sample_lib sample_state None [sample_object] = [(h, d)]"
    by (simp add: commit_writes_def commit_one_def commit_storage_def newTrieAt_def sample_object_def Txn_Delete_def
      Txn_Insert_def entry_update_def Txn_Hash_def hash_value_def unary_hasher_def Let_def AddState_def del: insert.simps)
  then show ?thesis by (auto simp: collision_free_def empty_storage_def)
qed

section \<open>Properties\<close>





end
