(* ===== verification/Validator_Set.thy ===== *)
theory Validator_Set
  imports Edge_Types Fork_Manager
begin

text \<open>
  The validator sets of the PolyBFT consensus (\<open>consensus/polybft/validator\<close>,
  \<open>consensus/polybft/bitmap\<close>) and the part of \<open>consensus/polybft/stake_manager.go\<close> that
  computes them: the bitmap of removed validators, account sets, the delta a block
  carries from one epoch to the next and its application, the quorum rule, the map of
  stakes and the calculation of the next set.  The curve arithmetic behind a BLS key is
  a third-party package, so a key is a point of a type parameter and the operations of
  the package are the fields of a record.
\<close>

section \<open>The bitmap of removed validators\<close>

type_synonym Bitmap = "byte list"

definition extendByteSlice :: "Bitmap \<Rightarrow> nat \<Rightarrow> Bitmap" where
  "extendByteSlice b needLen =
     (let n = int needLen - int (length b) in if n > 0 then b @ replicate (nat n) 0 else b)"

definition Bitmap_Len :: "Bitmap \<Rightarrow> uint64" where
  "Bitmap_Len b = of_nat (length b * 8)"

definition Bitmap_Set :: "Bitmap \<Rightarrow> uint64 \<Rightarrow> Bitmap" where
  "Bitmap_Set b idx =
     (let index = unat (idx div 8);
          b' = extendByteSlice b (index + 1);
          bit = push_bit (unat (idx mod 8)) 1
      in b'[index := (b' ! index) OR bit])"

definition Bitmap_IsSet :: "Bitmap \<Rightarrow> uint64 \<Rightarrow> bool" where
  "Bitmap_IsSet b idx =
     (if Bitmap_Len b \<le> idx then False
      else let bit = push_bit (unat (idx mod 8)) 1 in (b ! unat (idx div 8)) AND bit = bit)"

section \<open>Validators and account sets\<close>

record 'k BlsLib =
  g2_Marshal :: "'k \<Rightarrow> byte list"
  g2_Unmarshal :: "byte list \<Rightarrow> 'k option"
  g2_IsInfinity :: "'k \<Rightarrow> bool"
  g2_InCorrectSubgroup :: "'k \<Rightarrow> bool"

definition UnmarshalPublicKey :: "'k BlsLib \<Rightarrow> byte list \<Rightarrow> 'k option" where
  "UnmarshalPublicKey B data =
     (if length data < 128 then None
      else case g2_Unmarshal B data of
        None \<Rightarrow> None
      | Some g2 \<Rightarrow> if g2_IsInfinity B g2 then None
                   else if \<not> g2_InCorrectSubgroup B g2 then None else Some g2)"

record 'k ValidatorMetadata =
  v_Address :: address
  v_BlsKey :: "'k option"
  v_VotingPower :: int
  v_IsActive :: bool

type_synonym 'k AccountSet = "'k ValidatorMetadata list"

definition EqualAddressAndBlsKey :: "'k ValidatorMetadata \<Rightarrow> 'k ValidatorMetadata option \<Rightarrow> bool" where
  "EqualAddressAndBlsKey v b =
     (case b of None \<Rightarrow> False | Some b \<Rightarrow> v_Address v = v_Address b \<and> v_BlsKey v = v_BlsKey b)"

definition ValidatorMetadata_Equals :: "'k ValidatorMetadata \<Rightarrow> 'k ValidatorMetadata option \<Rightarrow> bool" where
  "ValidatorMetadata_Equals v b =
     (case b of None \<Rightarrow> False
      | Some b' \<Rightarrow> EqualAddressAndBlsKey v b \<and> v_VotingPower v = v_VotingPower b' \<and>
                   v_IsActive v = v_IsActive b')"

text \<open>A nil key panics in \<open>Marshal\<close>; a key that does not decode again becomes nil.\<close>

definition ValidatorMetadata_Copy :: "'k BlsLib \<Rightarrow> 'k ValidatorMetadata \<Rightarrow> 'k ValidatorMetadata go" where
  "ValidatorMetadata_Copy B v =
     (case v_BlsKey v of
        None \<Rightarrow> None
      | Some k \<Rightarrow> Some \<lparr>v_Address = BytesToAddress (Address_Bytes (v_Address v)),
          v_BlsKey = UnmarshalPublicKey B (g2_Marshal B k),
          v_VotingPower = v_VotingPower v, v_IsActive = v_IsActive v\<rparr>)"

fun AccountSet_Equals :: "'k AccountSet \<Rightarrow> 'k AccountSet \<Rightarrow> bool" where
  "AccountSet_Equals [] [] = True"
| "AccountSet_Equals (v # vs) (w # ws) = (ValidatorMetadata_Equals v (Some w) \<and> AccountSet_Equals vs ws)"
| "AccountSet_Equals _ _ = False"

definition GetAddresses :: "'k AccountSet \<Rightarrow> address list" where
  "GetAddresses as = map v_Address as"

fun Index_from :: "int \<Rightarrow> 'k AccountSet \<Rightarrow> address \<Rightarrow> int" where
  "Index_from indx [] addr = - 1"
| "Index_from indx (v # as) addr = (if v_Address v = addr then indx else Index_from (indx + 1) as addr)"

definition Index :: "'k AccountSet \<Rightarrow> address \<Rightarrow> int" where
  "Index as addr = Index_from 0 as addr"

definition ContainsAddress :: "'k AccountSet \<Rightarrow> address \<Rightarrow> bool" where
  "ContainsAddress as addr = (Index as addr \<noteq> - 1)"

definition GetValidatorMetadata :: "'k AccountSet \<Rightarrow> address \<Rightarrow> 'k ValidatorMetadata option" where
  "GetValidatorMetadata as addr = (let i = Index as addr in if i = - 1 then None else Some (as ! nat i))"

fun AccountSet_Copy :: "'k BlsLib \<Rightarrow> 'k AccountSet \<Rightarrow> 'k AccountSet go" where
  "AccountSet_Copy B [] = Some []"
| "AccountSet_Copy B (v # as) =
     do { c \<leftarrow> ValidatorMetadata_Copy B v; cs \<leftarrow> AccountSet_Copy B as; Some (c # cs) }"

definition AccountSet_GetTotalVotingPower :: "'k AccountSet \<Rightarrow> int" where
  "AccountSet_GetTotalVotingPower as = fold (\<lambda>v tvp. tvp + v_VotingPower v) as 0"

datatype filter_error = InvalidBitmapFilter

definition GetFilteredValidators :: "'k AccountSet \<Rightarrow> Bitmap \<Rightarrow> filter_error + 'k AccountSet" where
  "GetFilteredValidators as bitmap =
     (if as = [] then Inr []
      else if Bitmap_Len bitmap > of_nat (length as) \<and>
              (\<exists>i \<in> set [length as ..< unat (Bitmap_Len bitmap)]. Bitmap_IsSet bitmap (of_nat i))
      then Inl InvalidBitmapFilter
      else Inr [v. (i, v) \<leftarrow> enumerate 0 as, Bitmap_IsSet bitmap (of_nat i)])"

section \<open>The delta between two sets\<close>

record 'k ValidatorSetDelta =
  Added :: "'k AccountSet"
  Updated :: "'k AccountSet"
  Removed :: Bitmap

definition Delta_Equals :: "'k ValidatorSetDelta \<Rightarrow> 'k ValidatorSetDelta option \<Rightarrow> bool" where
  "Delta_Equals d other =
     (case other of None \<Rightarrow> False
      | Some d' \<Rightarrow> AccountSet_Equals (Added d) (Added d') \<and> AccountSet_Equals (Updated d) (Updated d') \<and>
                   Removed d = Removed d')"

definition Delta_IsEmpty :: "'k ValidatorSetDelta \<Rightarrow> bool" where
  "Delta_IsEmpty d = (length (Added d) = 0 \<and> length (Updated d) = 0 \<and> Bitmap_Len (Removed d) = 0)"

text \<open>The copy leaves out \<open>Updated\<close>.\<close>

definition Delta_Copy :: "'k BlsLib \<Rightarrow> 'k ValidatorSetDelta \<Rightarrow> 'k ValidatorSetDelta go" where
  "Delta_Copy B d =
     do { added \<leftarrow> AccountSet_Copy B (Added d);
          Some \<lparr>Added = added, Updated = [], Removed = Removed d\<rparr> }"

datatype delta_error = AlreadyPresent address | UpdatedNotFound address

definition kept_validators :: "'k AccountSet \<Rightarrow> 'k ValidatorSetDelta \<Rightarrow> 'k AccountSet" where
  "kept_validators as d =
     [v. (i, v) \<leftarrow> enumerate 0 as,
         \<not> Bitmap_IsSet (Removed d) (of_nat i) \<or> ContainsAddress (Added d) (v_Address v)]"

fun append_added :: "'k AccountSet \<Rightarrow> 'k AccountSet \<Rightarrow> delta_error + 'k AccountSet" where
  "append_added validators [] = Inr validators"
| "append_added validators (a # added) =
     (if ContainsAddress validators (v_Address a) then Inl (AlreadyPresent (v_Address a))
      else append_added (validators @ [a]) added)"

fun apply_updated :: "'k AccountSet \<Rightarrow> 'k AccountSet \<Rightarrow> delta_error + 'k AccountSet" where
  "apply_updated validators [] = Inr validators"
| "apply_updated validators (u # updated) =
     (let validatorIndex = Index validators (v_Address u)
      in if validatorIndex = - 1 then Inl (UpdatedNotFound (v_Address u))
         else apply_updated (validators[nat validatorIndex := u]) updated)"

definition ApplyDelta ::
  "'k BlsLib \<Rightarrow> 'k AccountSet \<Rightarrow> 'k ValidatorSetDelta option \<Rightarrow> (delta_error + 'k AccountSet) go" where
  "ApplyDelta B as validatorsDelta =
     (case validatorsDelta of
        None \<Rightarrow> map_option Inr (AccountSet_Copy B as)
      | Some d \<Rightarrow>
          if Delta_IsEmpty d then map_option Inr (AccountSet_Copy B as)
          else Some (case append_added (kept_validators as d) (Added d) of
                       Inl e \<Rightarrow> Inl e
                     | Inr validators \<Rightarrow> apply_updated validators (Updated d)))"

section \<open>The quorum\<close>

record 'k validatorSet =
  vs_validators :: "'k AccountSet"
  votingPowerMap :: "address \<rightharpoonup> int"
  totalVotingPower :: int

definition NewValidatorSet :: "'k AccountSet \<Rightarrow> 'k validatorSet" where
  "NewValidatorSet valz =
     \<lparr>vs_validators = valz,
      votingPowerMap = fold (\<lambda>v m. m(v_Address v \<mapsto> v_VotingPower v)) valz Map.empty,
      totalVotingPower = AccountSet_GetTotalVotingPower valz\<rparr>"

definition getQuorumSize :: "'h forkManager \<Rightarrow> uint64 \<Rightarrow> int \<Rightarrow> int" where
  "getQuorumSize fm blockNumber tvp =
     (let quorum = tvp * 2
      in if IsForkEnabled fm ''quorumcalcalignment'' blockNumber then big_Div quorum 3 + 1
         else BigIntDivCeil quorum 3)"

text \<open>The signers are the keys of a Go map: a list without repetitions.\<close>

definition HasQuorum :: "'h forkManager \<Rightarrow> 'k validatorSet \<Rightarrow> uint64 \<Rightarrow> address list \<Rightarrow> bool" where
  "HasQuorum fm vs blockNumber signers =
     (let aggregateVotingPower =
            fold (\<lambda>a p. case votingPowerMap vs a of None \<Rightarrow> p | Some votingPower \<Rightarrow> p + votingPower) signers 0
      in getQuorumSize fm blockNumber (totalVotingPower vs) \<le> aggregateVotingPower)"

definition Includes :: "'k validatorSet \<Rightarrow> address \<Rightarrow> bool" where
  "Includes vs addr = ContainsAddress (vs_validators vs) addr"

section \<open>Stakes\<close>

text \<open>A Go map from addresses to validators, as an association list without repeated keys.\<close>

type_synonym 'k validatorStakeMap = "(address \<times> 'k ValidatorMetadata) list"

record 'k validatorSetState =
  vss_BlockNumber :: uint64
  vss_EpochID :: uint64
  vss_UpdatedAtBlockNumber :: uint64
  vss_Validators :: "'k validatorStakeMap"

record TransferEvent =
  te_From :: address
  te_To :: address
  te_Value :: int

definition IsStake :: "TransferEvent \<Rightarrow> bool" where
  "IsStake t = (te_To t \<noteq> 0 \<and> te_From t = 0)"

definition IsUnstake :: "TransferEvent \<Rightarrow> bool" where
  "IsUnstake t = (te_To t = 0 \<and> te_From t \<noteq> 0)"

fun newValidatorStakeMap :: "'k BlsLib \<Rightarrow> 'k validatorStakeMap \<Rightarrow> 'k AccountSet \<Rightarrow> 'k validatorStakeMap go" where
  "newValidatorStakeMap B stakeMap [] = Some stakeMap"
| "newValidatorStakeMap B stakeMap (v # vs) =
     do { c \<leftarrow> ValidatorMetadata_Copy B v;
          newValidatorStakeMap B (AList.update (v_Address v) c stakeMap) vs }"

definition addStake :: "'k validatorStakeMap \<Rightarrow> address \<Rightarrow> int \<Rightarrow> 'k validatorStakeMap" where
  "addStake sc addr amount =
     (case map_of sc addr of
        Some metadata \<Rightarrow>
          let power = v_VotingPower metadata + amount
          in AList.update addr (metadata\<lparr>v_VotingPower := power, v_IsActive := power > 0\<rparr>) sc
      | None \<Rightarrow>
          AList.update addr \<lparr>v_Address = addr, v_BlsKey = None, v_VotingPower = amount,
            v_IsActive = amount > 0\<rparr> sc)"

text \<open>The entry of an unknown address is nil, and reading its power panics.\<close>

definition removeStake :: "'k validatorStakeMap \<Rightarrow> address \<Rightarrow> int \<Rightarrow> 'k validatorStakeMap go" where
  "removeStake sc addr amount =
     (case map_of sc addr of
        None \<Rightarrow> None
      | Some stakeData \<Rightarrow>
          let power = v_VotingPower stakeData - amount
          in Some (AList.update addr (stakeData\<lparr>v_VotingPower := power, v_IsActive := power > 0\<rparr>) sc))"

fun apply_transfers :: "'k validatorStakeMap \<Rightarrow> TransferEvent list \<Rightarrow> 'k validatorStakeMap go" where
  "apply_transfers sc [] = Some sc"
| "apply_transfers sc (event # events) =
     (if IsStake event then apply_transfers (addStake sc (te_To event) (te_Value event)) events
      else if IsUnstake event then
        do { sc' \<leftarrow> removeStake sc (te_From event) (te_Value event); apply_transfers sc' events }
      else apply_transfers sc events)"

text \<open>A key that cannot be fetched stays nil; the error is only logged.\<close>

definition refresh_validator ::
  "(address \<Rightarrow> 'e + 'k) \<Rightarrow> 'k ValidatorMetadata \<Rightarrow> 'k ValidatorMetadata" where
  "refresh_validator getBlsKey data =
     (let data' = (case v_BlsKey data of
                     Some _ \<Rightarrow> data
                   | None \<Rightarrow> data\<lparr>v_BlsKey := (case getBlsKey (v_Address data) of
                                                Inl _ \<Rightarrow> None | Inr k \<Rightarrow> Some k)\<rparr>)
      in data'\<lparr>v_IsActive := v_VotingPower data' > 0\<rparr>)"

definition updateWithReceipts ::
  "(address \<Rightarrow> 'e + 'k) \<Rightarrow> 'k validatorSetState \<Rightarrow> TransferEvent list \<Rightarrow> uint64 \<Rightarrow> 'k validatorSetState go" where
  "updateWithReceipts getBlsKey full transferEvents blockNumber =
     (if transferEvents = [] then Some full
      else do { sc \<leftarrow> apply_transfers (vss_Validators full) transferEvents;
                Some (full\<lparr>vss_Validators := map (\<lambda>(a, d). (a, refresh_validator getBlsKey d)) sc,
                           vss_UpdatedAtBlockNumber := blockNumber\<rparr>) })"

text \<open>
  \<open>sort.Slice\<close> puts a slice into the order of the given comparison; where the comparison
  is a total order on the elements there is one such arrangement.
\<close>

fun insert_by :: "('a \<Rightarrow> 'a \<Rightarrow> bool) \<Rightarrow> 'a \<Rightarrow> 'a list \<Rightarrow> 'a list" where
  "insert_by lt x [] = [x]"
| "insert_by lt x (y # ys) = (if lt y x then y # insert_by lt x ys else x # y # ys)"

definition sort_Slice :: "('a \<Rightarrow> 'a \<Rightarrow> bool) \<Rightarrow> 'a list \<Rightarrow> 'a list" where
  "sort_Slice lt xs = foldr (insert_by lt) xs []"

definition more_stake :: "'k ValidatorMetadata \<Rightarrow> 'k ValidatorMetadata \<Rightarrow> bool" where
  "more_stake v1 v2 =
     (if v_VotingPower v1 > v_VotingPower v2 then True
      else if v_VotingPower v1 = v_VotingPower v2 then v_Address v1 < v_Address v2
      else False)"

definition getSorted :: "'k validatorStakeMap \<Rightarrow> int \<Rightarrow> 'k AccountSet go" where
  "getSorted sc maxValidatorSetSize =
     (let activeValidators = sort_Slice more_stake [v \<leftarrow> map snd sc. v_VotingPower v > 0]
      in if int (length activeValidators) \<le> maxValidatorSetSize then Some activeValidators
         else if maxValidatorSetSize < 0 then None
         else Some (take (nat maxValidatorSetSize) activeValidators))"

datatype 'e stake_error = StakeStoreError 'e | BlsKeyError address 'e | DeltaError delta_error

definition removed_bitmap :: "'k AccountSet \<Rightarrow> address list \<Rightarrow> Bitmap" where
  "removed_bitmap old addressesSet =
     fold (\<lambda>(i, v) b. if v_Address v \<in> set addressesSet then b else Bitmap_Set b (of_nat i))
       (enumerate 0 old) []"

fun split_new ::
  "(address \<Rightarrow> 'e + 'k) \<Rightarrow> (address \<rightharpoonup> 'k ValidatorMetadata) \<Rightarrow> 'k AccountSet \<Rightarrow> 'k AccountSet \<Rightarrow>
   'k AccountSet \<Rightarrow> 'e stake_error + 'k AccountSet \<times> 'k AccountSet" where
  "split_new getBlsKey oldActive updated added [] = Inr (updated, added)"
| "split_new getBlsKey oldActive updated added (n # ns) =
     (case oldActive (v_Address n) of
        Some v \<Rightarrow>
          split_new getBlsKey oldActive
            (if v_VotingPower v \<noteq> v_VotingPower n then updated @ [n] else updated) added ns
      | None \<Rightarrow>
          case v_BlsKey n of
            Some _ \<Rightarrow> split_new getBlsKey oldActive updated (added @ [n]) ns
          | None \<Rightarrow>
              case getBlsKey (v_Address n) of
                Inl e \<Rightarrow> Inl (BlsKeyError (v_Address n) e)
              | Inr k \<Rightarrow> split_new getBlsKey oldActive updated (added @ [n\<lparr>v_BlsKey := Some k\<rparr>]) ns)"

definition UpdateValidatorSet ::
  "'k BlsLib \<Rightarrow> (address \<Rightarrow> 'e + 'k) \<Rightarrow> bool \<Rightarrow> int \<Rightarrow> 'e + 'k validatorSetState \<Rightarrow> 'k AccountSet \<Rightarrow>
   ('e stake_error + 'k ValidatorSetDelta) go" where
  "UpdateValidatorSet B getBlsKey isDebug maxValidatorSetSize full old =
     (case full of
        Inl e \<Rightarrow> Some (Inl (StakeStoreError e))
      | Inr full \<Rightarrow>
          do { newValidatorSet \<leftarrow> getSorted (vss_Validators full) maxValidatorSetSize;
               let removedBitmap = removed_bitmap old (map v_Address newValidatorSet);
               let oldActiveMap = fold (\<lambda>v m. m(v_Address v \<mapsto> v)) old Map.empty;
               case split_new getBlsKey oldActiveMap [] [] newValidatorSet of
                 Inl e \<Rightarrow> Some (Inl e)
               | Inr (updated, added) \<Rightarrow>
                   let delta = \<lparr>Added = added, Updated = updated, Removed = removedBitmap\<rparr>
                   in if isDebug then
                        do { c \<leftarrow> AccountSet_Copy B old;
                             r \<leftarrow> ApplyDelta B c (Some delta);
                             Some (case r of Inl e \<Rightarrow> Inl (DeltaError e) | Inr _ \<Rightarrow> Inr delta) }
                      else Some (Inr delta) })"

end
