(* ===== verification/Validator_Laws.thy ===== *)
theory Validator_Laws
  imports Validator_Set
begin

text \<open>
  Lemmas on the validator sets: the bitmap is a set of indices, account sets are maps
  from addresses to voting powers, \<open>sort.Slice\<close> with a comparison that is total on a key
  sorts, and the delta that the stake manager calculates leads from the old set to the
  new one.
\<close>

section \<open>The bitmap\<close>

lemma byte_bit_test:
  assumes "n < 8"
  shows "(w AND 2 ^ n = 2 ^ n) \<longleftrightarrow> bit (w :: byte) n"
proof
  assume "w AND 2 ^ n = 2 ^ n"
  then have "bit (w AND 2 ^ n) n = bit (2 ^ n :: byte) n" by simp
  then show "bit w n" using assms by (simp add: bit_simps)
next
  assume "bit w n"
  then show "w AND 2 ^ n = 2 ^ n" by (intro bit_eqI) (auto simp: bit_simps)
qed

lemma Bitmap_IsSet_iff:
  assumes "length b < 2 ^ 60"
  shows "Bitmap_IsSet b idx \<longleftrightarrow> unat idx div 8 < length b \<and> bit (b ! (unat idx div 8)) (unat idx mod 8)"
proof -
  have "unat (Bitmap_Len b) = 8 * length b"
    using assms unat_of_nat64 [of "length b * 8"] by (simp add: Bitmap_Len_def)
  then show ?thesis
    by (auto simp: Bitmap_IsSet_def word_le_nat_alt unat_div unat_mod byte_bit_test Let_def
        div_less_iff_less_mult mult.commute not_le [symmetric])
qed

lemma length_extendByteSlice: "length (extendByteSlice b n) = max (length b) n"
  by (auto simp: extendByteSlice_def Let_def)

lemma nth_extendByteSlice:
  "k < length b \<or> k < n \<Longrightarrow> extendByteSlice b n ! k = (if k < length b then b ! k else 0)"
  by (auto simp: extendByteSlice_def Let_def nth_append)

lemma length_Bitmap_Set: "length (Bitmap_Set b i) = max (length b) (unat i div 8 + 1)"
  by (simp add: Bitmap_Set_def length_extendByteSlice Let_def unat_div)

lemma Bitmap_IsSet_Set:
  assumes b: "length b < 2 ^ 60" and i: "unat i < 2 ^ 62"
  shows "Bitmap_IsSet (Bitmap_Set b i) j \<longleftrightarrow> j = i \<or> Bitmap_IsSet b j"
proof -
  let ?b = "extendByteSlice b (unat i div 8 + 1)"
  have len: "length (Bitmap_Set b i) < 2 ^ 60" using b i by (simp add: length_Bitmap_Set)
  have upd: "Bitmap_Set b i = ?b[unat i div 8 := (?b ! (unat i div 8)) OR push_bit (unat i mod 8) 1]"
    by (simp add: Bitmap_Set_def Let_def unat_div unat_mod)
  have eq: "j = i \<longleftrightarrow> unat j div 8 = unat i div 8 \<and> unat j mod 8 = unat i mod 8"
    by (metis div_mult_mod_eq word_unat_eq_iff)
  have "Bitmap_IsSet (Bitmap_Set b i) j \<longleftrightarrow>
      unat j div 8 < length ?b \<and> bit (Bitmap_Set b i ! (unat j div 8)) (unat j mod 8)"
    using len by (simp add: Bitmap_IsSet_iff length_Bitmap_Set length_extendByteSlice)
  also have "\<dots> \<longleftrightarrow> j = i \<or> Bitmap_IsSet b j"
    using b by (auto simp: upd eq nth_extendByteSlice length_extendByteSlice nth_list_update
        Bitmap_IsSet_iff bit_simps less_max_iff_disj)
  finally show ?thesis .
qed

lemma removed_bitmap_fold:
  assumes "length b < 2 ^ 60" and "n + length old < 2 ^ 60" and "j < 2 ^ 64"
  shows "Bitmap_IsSet (fold (\<lambda>(i, v) b. if v_Address v \<in> S then b else Bitmap_Set b (of_nat i))
      (enumerate n old) b) (of_nat j)
    \<longleftrightarrow> Bitmap_IsSet b (of_nat j) \<or> (n \<le> j \<and> j < n + length old \<and> v_Address (old ! (j - n)) \<notin> S)"
  using assms
proof (induction old arbitrary: n b)
  case (Cons v old)
  let ?b = "if v_Address v \<in> S then b else Bitmap_Set b (of_nat n)"
  have u: "unat (of_nat n :: uint64) = n" using Cons.prems by (intro unat_of_nat64) simp
  have inj: "(of_nat j :: uint64) = of_nat n \<longleftrightarrow> j = n"
    using Cons.prems unat_of_nat64 [of j] u by (metis order_less_trans)
  have len: "length ?b < 2 ^ 60" using Cons.prems u div_le_dividend [of n 8] by (simp add: length_Bitmap_Set del: div_le_dividend)
  have set: "Bitmap_IsSet ?b (of_nat j) \<longleftrightarrow> Bitmap_IsSet b (of_nat j) \<or> (j = n \<and> v_Address v \<notin> S)"
    using Cons.prems u inj by (auto simp: Bitmap_IsSet_Set)
  have "n + length (v # old) = Suc n + length old" by simp
  then show ?case
    using Cons.IH [OF len, of "Suc n"] Cons.prems set
    by (auto simp: nth_Cons' Suc_le_eq le_less)
qed auto

lemma removed_bitmap_IsSet:
  assumes "length old < 2 ^ 60" and "j < length old"
  shows "Bitmap_IsSet (removed_bitmap old as) (of_nat j) \<longleftrightarrow> v_Address (old ! j) \<notin> set as"
  using removed_bitmap_fold [of "[]" 0 old j "set as"] assms
  by (simp add: removed_bitmap_def Bitmap_IsSet_iff)

section \<open>Account sets as maps\<close>

definition addresses :: "'k AccountSet \<Rightarrow> address set" where
  "addresses as = v_Address ` set as"

definition stakes :: "'k AccountSet \<Rightarrow> address \<rightharpoonup> int" where
  "stakes as = map_of (map (\<lambda>v. (v_Address v, v_VotingPower v)) as)"

lemma Index_from_cases:
  "Index_from i as a = - 1 \<and> a \<notin> addresses as \<or>
   (\<exists>j < length as. Index_from i as a = i + int j \<and> v_Address (as ! j) = a)" if "0 \<le> i"
  using that
proof (induction as arbitrary: i)
  case (Cons v as)
  show ?case
  proof (cases "v_Address v = a")
    case False
    have "0 \<le> i + 1" using Cons.prems by simp
    from Cons.IH [OF this] show ?thesis
    proof
      assume "\<exists>j < length as. Index_from (i + 1) as a = i + 1 + int j \<and> v_Address (as ! j) = a"
      then obtain j where "j < length as" "Index_from (i + 1) as a = i + 1 + int j" "v_Address (as ! j) = a" by auto
      then show ?thesis using False by (intro disjI2 exI [of _ "Suc j"]) simp
    qed (use False in \<open>auto simp: addresses_def\<close>)
  qed auto
qed (simp add: addresses_def)

lemma Index_cases:
  obtains "Index as a = - 1" and "a \<notin> addresses as"
  | j where "j < length as" and "Index as a = int j" and "v_Address (as ! j) = a"
  using Index_from_cases [of 0 as a] by (auto simp: Index_def)

lemma ContainsAddress_iff [simp]: "ContainsAddress as a \<longleftrightarrow> a \<in> addresses as"
  by (rule Index_cases [of as a]) (auto simp: ContainsAddress_def addresses_def)

lemma addresses_simps [simp]:
  "addresses [] = {}" "addresses (v # as) = insert (v_Address v) (addresses as)"
  "addresses (as @ bs) = addresses as \<union> addresses bs"
  by (auto simp: addresses_def)

lemma stakes_None_iff: "stakes as a = None \<longleftrightarrow> a \<notin> addresses as"
  by (force simp: stakes_def addresses_def map_of_eq_None_iff image_iff)

lemma stakes_eq_Some:
  assumes "distinct (map v_Address as)" and "v \<in> set as"
  shows "stakes as (v_Address v) = Some (v_VotingPower v)"
  unfolding stakes_def by (rule map_of_is_SomeI) (use assms in \<open>auto simp: comp_def\<close>)

lemma stakes_append: "stakes (as @ bs) = stakes bs ++ stakes as"
  by (simp add: stakes_def)

section \<open>Sorting\<close>

text \<open>
  A comparison that is a strict total order on elements with different keys: what
  \<open>sort.Slice\<close> needs to have only one possible result.
\<close>

locale slice_order =
  fixes lt :: "'a \<Rightarrow> 'a \<Rightarrow> bool" and key :: "'a \<Rightarrow> 'b"
  assumes lt_trans: "lt x y \<Longrightarrow> lt y z \<Longrightarrow> lt x z"
    and lt_total: "key x \<noteq> key y \<Longrightarrow> lt x y \<or> lt y x"
begin

lemma set_insert_by: "set (insert_by lt x ys) = insert x (set ys)"
  by (induction ys) auto

lemma set_sort: "set (sort_Slice lt xs) = set xs"
  by (induction xs) (auto simp: sort_Slice_def set_insert_by)

lemma length_insert_by: "length (insert_by lt x ys) = Suc (length ys)"
  by (induction ys) auto

lemma length_sort: "length (sort_Slice lt xs) = length xs"
  by (induction xs) (auto simp: sort_Slice_def length_insert_by)

lemma sorted_insert_by:
  "sorted_wrt lt ys \<Longrightarrow> key x \<notin> key ` set ys \<Longrightarrow> sorted_wrt lt (insert_by lt x ys)"
proof (induction ys)
  case (Cons y ys)
  have "key x \<noteq> key y" using Cons.prems by auto
  then have "\<not> lt y x \<Longrightarrow> lt x y" using lt_total by blast
  then show ?case using Cons by (auto simp: set_insert_by dest: lt_trans)
qed simp

lemma sorted_sort: "distinct (map key xs) \<Longrightarrow> sorted_wrt lt (sort_Slice lt xs)"
proof (induction xs)
  case (Cons x xs)
  have "set (foldr (insert_by lt) xs []) = set xs" using set_sort [of xs] by (simp add: sort_Slice_def)
  then show ?case using Cons by (simp add: sort_Slice_def sorted_insert_by)
qed (simp add: sort_Slice_def)

lemma distinct_sort:
  assumes "distinct (map key xs)"
  shows "distinct (map key (sort_Slice lt xs))"
proof (rule card_distinct)
  have "card (set (map key xs)) = length xs" using distinct_card [OF assms] by simp
  then show "card (set (map key (sort_Slice lt xs))) = length (map key (sort_Slice lt xs))"
    by (simp add: set_sort length_sort)
qed

text \<open>The first elements come before all others.\<close>

lemma take_sort_least:
  assumes "distinct (map key xs)" and "x \<in> set (take n (sort_Slice lt xs))"
    and "y \<in> set xs" and "y \<notin> set (take n (sort_Slice lt xs))"
  shows "lt x y"
proof -
  let ?s = "sort_Slice lt xs"
  have "y \<in> set (drop n ?s)" using assms(3,4) set_sort by (metis UnE append_take_drop_id set_append)
  moreover have "sorted_wrt lt (take n ?s @ drop n ?s)" using sorted_sort [OF assms(1)] by simp
  ultimately show ?thesis using assms(2) by (simp only: sorted_wrt_append)
qed

end

interpretation stake_order: slice_order more_stake v_Address
proof
  fix x y z :: "'k ValidatorMetadata"
  show "more_stake x y \<Longrightarrow> more_stake y z \<Longrightarrow> more_stake x z"
    by (auto simp: more_stake_def split: if_splits)
  show "v_Address x \<noteq> v_Address y \<Longrightarrow> more_stake x y \<or> more_stake y x"
    by (auto simp: more_stake_def)
qed

definition stake_map_ok :: "'k validatorStakeMap \<Rightarrow> bool" where
  "stake_map_ok sc \<longleftrightarrow> distinct (map fst sc) \<and> (\<forall>(a, v) \<in> set sc. v_Address v = a)"

definition candidates :: "'k validatorStakeMap \<Rightarrow> 'k AccountSet" where
  "candidates sc = [v \<leftarrow> map snd sc. v_VotingPower v > 0]"

lemma candidates_distinct:
  assumes "stake_map_ok sc"
  shows "distinct (map v_Address (candidates sc))"
proof -
  have "map v_Address (map snd sc) = map fst sc" using assms by (auto simp: stake_map_ok_def)
  then have "distinct (map v_Address (map snd sc))" using assms by (simp only: stake_map_ok_def)
  then show ?thesis unfolding candidates_def by (rule distinct_map_filter)
qed

text \<open>The calculated set holds the candidates of largest stake, as many as fit.\<close>

lemma getSorted_law:
  assumes "stake_map_ok sc" and "getSorted sc n = Some new"
  shows "distinct (map v_Address new)" and "set new \<subseteq> set (candidates sc)"
    and "int (length new) = min n (int (length (candidates sc)))"
    and "v \<in> set new \<Longrightarrow> w \<in> set (candidates sc) \<Longrightarrow> w \<notin> set new \<Longrightarrow> more_stake v w"
proof -
  let ?s = "sort_Slice more_stake (candidates sc)"
  note d = candidates_distinct [OF assms(1)]
  have new: "new = take (nat n) ?s" and n: "0 \<le> n"
    using assms(2) by (auto simp: getSorted_def candidates_def Let_def split: if_splits)
  show "distinct (map v_Address new)"
    using stake_order.distinct_sort [OF d] by (simp add: new take_map [symmetric])
  show "set new \<subseteq> set (candidates sc)"
    using set_take_subset [of "nat n" ?s] stake_order.set_sort by (auto simp: new)
  show "int (length new) = min n (int (length (candidates sc)))"
    using n by (simp add: new stake_order.length_sort)
  show "v \<in> set new \<Longrightarrow> w \<in> set (candidates sc) \<Longrightarrow> w \<notin> set new \<Longrightarrow> more_stake v w"
    unfolding new by (rule stake_order.take_sort_least [OF d])
qed

section \<open>The delta leads from the old set to the new one\<close>

lemma fold_map_upd:
  "distinct (map f xs) \<Longrightarrow>
   fold (\<lambda>x m. m(f x \<mapsto> g x)) xs m = m ++ map_of (map (\<lambda>x. (f x, g x)) xs)"
proof (induction xs arbitrary: m)
  case (Cons x xs)
  have "f x \<notin> dom (map_of (map (\<lambda>x. (f x, g x)) xs))" using Cons.prems by (auto simp: dom_map_of_conv_image_fst)
  then have "m(f x \<mapsto> g x) ++ map_of (map (\<lambda>x. (f x, g x)) xs) = m ++ map_of (map (\<lambda>x. (f x, g x)) (x # xs))"
    by (intro ext) (auto simp: map_add_def split: option.split)
  moreover have "distinct (map f xs)" using Cons.prems by simp
  ultimately show ?case using Cons.IH [of "m(f x \<mapsto> g x)"] by (simp only: fold_Cons comp_apply)
qed simp

lemma map_of_key_iff:
  "distinct (map f xs) \<Longrightarrow> map_of (map (\<lambda>x. (f x, x)) xs) k = Some x \<longleftrightarrow> x \<in> set xs \<and> f x = k"
  by (subst map_of_eq_Some_iff) (auto simp: comp_def)

abbreviation stake_entry :: "'k ValidatorMetadata \<Rightarrow> address \<times> int" where
  "stake_entry v \<equiv> (v_Address v, v_VotingPower v)"

lemma split_new_law:
  "split_new g oldA up ad ns = Inr (u, a) \<Longrightarrow>
   u = up @ [n \<leftarrow> ns. \<exists>v. oldA (v_Address n) = Some v \<and> v_VotingPower v \<noteq> v_VotingPower n] \<and>
   map stake_entry a = map stake_entry (ad @ [n \<leftarrow> ns. oldA (v_Address n) = None])"
proof (induction ns arbitrary: up ad)
  case (Cons n ns)
  show ?case
  proof (cases "oldA (v_Address n)")
    case None
    then obtain n' where "split_new g oldA up (ad @ [n']) ns = Inr (u, a)" "stake_entry n' = stake_entry n"
      using Cons.prems by (force split: option.splits sum.splits)
    then show ?thesis using Cons.IH None by auto
  next
    case (Some v)
    let ?up = "if v_VotingPower v \<noteq> v_VotingPower n then up @ [n] else up"
    have "split_new g oldA ?up ad ns = Inr (u, a)" using Cons.prems Some by simp
    from Cons.IH [OF this] show ?thesis using Some by simp
  qed
qed simp

lemma enumerate_filter:
  assumes "\<And>j. j < length as \<Longrightarrow> P (n + j) (as ! j) \<longleftrightarrow> Q (as ! j)"
  shows "[v. (i, v) \<leftarrow> enumerate n as, P i v] = filter Q as"
  using assms
proof (induction as arbitrary: n)
  case (Cons v as)
  have "[v. (i, v) \<leftarrow> enumerate (Suc n) as, P i v] = filter Q as"
    by (rule Cons.IH) (use Cons.prems [of "Suc _"] in auto)
  then show ?case using Cons.prems [of 0] by simp
qed simp

lemma append_added_law:
  "distinct (map v_Address (vs @ added)) \<Longrightarrow> append_added vs added = Inr (vs @ added)"
proof (induction added arbitrary: vs)
  case (Cons a added)
  have "v_Address a \<notin> addresses vs" using Cons.prems by (auto simp: addresses_def)
  then show ?case using Cons by simp
qed simp

lemma stakes_update:
  "distinct (map v_Address vs) \<Longrightarrow> i < length vs \<Longrightarrow> v_Address (vs ! i) = v_Address u \<Longrightarrow>
   stakes (vs[i := u]) = (stakes vs)(v_Address u \<mapsto> v_VotingPower u)"
proof (induction vs arbitrary: i)
  case (Cons v vs)
  show ?case
  proof (cases i)
    case (Suc i')
    have "vs ! i' \<in> set vs" using Cons.prems(2) Suc by simp
    then have "v_Address v \<noteq> v_Address (vs ! i')" using Cons.prems(1) by auto
    then have "v_Address v \<noteq> v_Address u" using Cons.prems(3) Suc by simp
    moreover have "stakes (vs[i' := u]) = (stakes vs)(v_Address u \<mapsto> v_VotingPower u)"
      by (rule Cons.IH) (use Cons.prems Suc in simp_all)
    ultimately show ?thesis using Suc
      by (intro ext) (simp add: stakes_def)
  qed (use Cons.prems in \<open>auto simp: stakes_def fun_eq_iff\<close>)
qed simp

lemma apply_updated_law:
  "distinct (map v_Address vs) \<Longrightarrow> distinct (map v_Address us) \<Longrightarrow> addresses us \<subseteq> addresses vs \<Longrightarrow>
   \<exists>r. apply_updated vs us = Inr r \<and> map v_Address r = map v_Address vs \<and> stakes r = stakes vs ++ stakes us"
proof (induction us arbitrary: vs)
  case (Cons u us)
  obtain i where i: "i < length vs" "Index vs (v_Address u) = int i" "v_Address (vs ! i) = v_Address u"
    using Cons.prems by (cases rule: Index_cases [of vs "v_Address u"]) auto
  let ?vs = "vs[i := u]"
  have addr: "map v_Address ?vs = map v_Address vs" using i by (metis list_update_id map_update)
  then have "addresses ?vs = addresses vs" by (metis addresses_def set_map)
  then obtain r where r: "apply_updated ?vs us = Inr r" "map v_Address r = map v_Address ?vs"
    "stakes r = stakes ?vs ++ stakes us"
    using Cons.IH [of ?vs] Cons.prems addr by auto
  have "v_Address u \<notin> dom (stakes us)"
    using Cons.prems(2) stakes_None_iff [of us "v_Address u"] by (auto simp: addresses_def)
  then have "stakes ?vs ++ stakes us = stakes vs ++ stakes (u # us)"
    using Cons.prems(1) i by (simp add: stakes_update map_add_upd_left) (simp add: stakes_def)
  then show ?case using r addr i by simp
qed (simp add: stakes_def)

text \<open>Keys that survive encoding and decoding, as the keys of a registered validator do.\<close>

definition accounts_ok :: "'k BlsLib \<Rightarrow> 'k AccountSet \<Rightarrow> bool" where
  "accounts_ok B as \<longleftrightarrow>
     (\<forall>v \<in> set as. \<exists>k. v_BlsKey v = Some k \<and> UnmarshalPublicKey B (g2_Marshal B k) = Some k)"

lemma AccountSet_Copy_id: "accounts_ok B as \<Longrightarrow> AccountSet_Copy B as = Some as"
  by (induction as) (auto simp: accounts_ok_def ValidatorMetadata_Copy_def BytesToAddress_Address_Bytes)

lemma same_stakes_length:
  assumes "stakes as = stakes bs" and "distinct (map v_Address as)" and "distinct (map v_Address bs)"
  shows "length as = length bs"
proof -
  have "set (map v_Address as) = set (map v_Address bs)"
    using assms(1) stakes_None_iff [of as] stakes_None_iff [of bs] by (auto simp: addresses_def)
  then show ?thesis using distinct_card [OF assms(2)] distinct_card [OF assms(3)] by simp
qed

text \<open>Old members that stay, new members and changed powers together are the new set.\<close>

lemma merged_stakes:
  fixes old new :: "'k AccountSet"
  defines "oldA \<equiv> map_of (map (\<lambda>v. (v_Address v, v)) old)"
  defines "kept \<equiv> [v \<leftarrow> old. v_Address v \<in> addresses new]"
    and "changed \<equiv> [n \<leftarrow> new. \<exists>v. oldA (v_Address n) = Some v \<and> v_VotingPower v \<noteq> v_VotingPower n]"
    and "fresh \<equiv> [n \<leftarrow> new. oldA (v_Address n) = None]"
  assumes old: "distinct (map v_Address old)" and new: "distinct (map v_Address new)"
  shows "stakes (kept @ fresh) ++ stakes changed = stakes new"
proof
  fix x
  note key = map_of_key_iff [OF old, folded oldA_def]
  have dist: "distinct (map v_Address kept)" "distinct (map v_Address changed)" "distinct (map v_Address fresh)"
    using old new by (simp_all add: kept_def changed_def fresh_def distinct_map_filter)
  show "(stakes (kept @ fresh) ++ stakes changed) x = stakes new x"
  proof (cases "x \<in> addresses new")
    case False
    then have "x \<notin> addresses kept" "x \<notin> addresses changed" "x \<notin> addresses fresh"
      by (auto simp: kept_def changed_def fresh_def addresses_def)
    then show ?thesis using False by (simp add: stakes_append map_add_None stakes_None_iff [THEN iffD2])
  next
    case True
    then obtain n where n: "n \<in> set new" "v_Address n = x" by (auto simp: addresses_def)
    have uniq: "m = n" if "m \<in> set new" "v_Address m = x" for m
      using that n new by (metis distinct_map inj_onD)
    have sn: "stakes new x = Some (v_VotingPower n)" using stakes_eq_Some [OF new n(1)] n(2) by simp
    show ?thesis
    proof (cases "oldA x")
      case None
      then have "x \<notin> addresses changed" using n(2) by (auto simp: changed_def addresses_def)
      moreover have "x \<notin> addresses kept" using None key by (force simp: kept_def addresses_def)
      moreover have "n \<in> set fresh" using n None by (simp add: fresh_def)
      ultimately show ?thesis
        using sn stakes_eq_Some [OF dist(3), of n] n(2) stakes_None_iff [of kept x] stakes_None_iff [of changed x]
        by (simp add: stakes_append map_add_def split: option.split)
    next
      case (Some v)
      have v: "v \<in> set old" "v_Address v = x" using key Some by auto
      show ?thesis
      proof (cases "v_VotingPower v = v_VotingPower n")
        case True
        have "x \<notin> addresses changed"
        proof
          assume "x \<in> addresses changed"
          then obtain m w where m: "m \<in> set new" "v_Address m = x" "oldA (v_Address m) = Some w"
            "v_VotingPower w \<noteq> v_VotingPower m"
            by (auto simp: changed_def addresses_def)
          then show False using uniq [OF m(1,2)] Some True by simp
        qed
        moreover have "x \<notin> addresses fresh" using Some by (auto simp: fresh_def addresses_def)
        moreover have "v \<in> set kept" using v \<open>x \<in> addresses new\<close> by (simp add: kept_def)
        ultimately show ?thesis
          using sn True stakes_eq_Some [OF dist(1), of v] v(2) stakes_None_iff [of fresh x]
            stakes_None_iff [of changed x]
          by (simp add: stakes_append map_add_def split: option.split)
      next
        case False
        then have "n \<in> set changed" using n Some by (auto simp: changed_def)
        then show ?thesis using sn stakes_eq_Some [OF dist(2), of n] n(2) by (simp add: map_add_def)
      qed
    qed
  qed
qed

text \<open>The parts of a calculated delta.\<close>

lemma UpdateValidatorSet_parts:
  assumes "UpdateValidatorSet B g dbg n (Inr full) old = Some (Inr d)" and old: "distinct (map v_Address old)"
  obtains new where "getSorted (vss_Validators full) n = Some new"
    and "Removed d = removed_bitmap old (map v_Address new)"
    and "split_new g (map_of (map (\<lambda>v. (v_Address v, v)) old)) [] [] new = Inr (Updated d, Added d)"
proof -
  obtain new where new: "getSorted (vss_Validators full) n = Some new"
    using assms(1) by (auto simp: UpdateValidatorSet_def split: bind_splits)
  let ?oldA = "map_of (map (\<lambda>v. (v_Address v, v)) old)"
  have oldA: "fold (\<lambda>v m. m(v_Address v \<mapsto> v)) old Map.empty = ?oldA"
    using fold_map_upd [OF old, of "\<lambda>v. v" Map.empty] by simp
  obtain u a where ua: "split_new g ?oldA [] [] new = Inr (u, a)"
    using assms(1) new unfolding UpdateValidatorSet_def by (auto simp: oldA split: sum.splits)
  then have "d = \<lparr>Added = a, Updated = u, Removed = removed_bitmap old (map v_Address new)\<rparr>"
    using assms(1) new unfolding UpdateValidatorSet_def
    by (auto simp: oldA Let_def split: bind_splits if_splits sum.splits)
  then show thesis using that new ua by simp
qed

lemma removed_bitmap_length:
  "length old < 2 ^ 60 \<Longrightarrow> length (removed_bitmap old as) < 2 ^ 60"
proof -
  assume old: "length old < 2 ^ 60"
  have "length (fold (\<lambda>(i, v) b. if v_Address v \<in> set as then b else Bitmap_Set b (of_nat i))
      (enumerate n old) b) \<le> max (length b) (n + length old)" if "n + length old < 2 ^ 60" for n b
    using that
  proof (induction old arbitrary: n b)
    case (Cons v old)
    have u: "unat (of_nat n :: uint64) = n" using Cons.prems by (intro unat_of_nat64) simp
    show ?case using Cons.IH [of "Suc n" b] Cons.IH [of "Suc n" "Bitmap_Set b (of_nat n)"] Cons.prems
        div_le_dividend [of n 8]
      by (auto simp: length_Bitmap_Set u)
  qed simp
  from this [of 0 "[]"] old show ?thesis by (simp add: removed_bitmap_def)
qed

theorem ApplyDelta_law:
  fixes old new :: "'k AccountSet"
  assumes old: "distinct (map v_Address old)" "length old < 2 ^ 60" "accounts_ok B old"
    and new: "distinct (map v_Address new)"
    and removed: "Removed d = removed_bitmap old (map v_Address new)"
    and split: "split_new g (map_of (map (\<lambda>v. (v_Address v, v)) old)) [] [] new = Inr (Updated d, Added d)"
  shows "\<exists>r. ApplyDelta B old (Some d) = Some (Inr r) \<and> stakes r = stakes new \<and> distinct (map v_Address r)"
proof -
  let ?oldA = "map_of (map (\<lambda>v. (v_Address v, v)) old)"
  let ?kept = "[v \<leftarrow> old. v_Address v \<in> addresses new]" and ?fresh = "[n \<leftarrow> new. ?oldA (v_Address n) = None]"
  let ?changed = "[n \<leftarrow> new. \<exists>v. ?oldA (v_Address n) = Some v \<and> v_VotingPower v \<noteq> v_VotingPower n]"
  have upd: "Updated d = ?changed" and add: "map stake_entry (Added d) = map stake_entry ?fresh"
    using split_new_law [OF split] by simp_all
  have addr: "map v_Address (Added d) = map v_Address ?fresh"
    using arg_cong [OF add, of "map fst"] by (simp add: comp_def)
  have in_old: "?oldA x = None \<longleftrightarrow> x \<notin> addresses old" for x
    by (auto simp: addresses_def map_of_eq_None_iff image_iff)
  have fresh_old: "addresses (Added d) \<inter> addresses old = {}"
    using arg_cong [OF addr, of set] in_old by (auto simp: addresses_def)
  have kept: "kept_validators old d = ?kept"
    unfolding kept_validators_def
  proof (rule enumerate_filter)
    fix j assume j: "j < length old"
    then have "v_Address (old ! j) \<in> addresses old" by (simp add: addresses_def)
    then have "v_Address (old ! j) \<notin> addresses (Added d)" using fresh_old by blast
    then show "(\<not> Bitmap_IsSet (Removed d) (of_nat (0 + j)) \<or> ContainsAddress (Added d) (v_Address (old ! j)))
        \<longleftrightarrow> v_Address (old ! j) \<in> addresses new"
      using removed_bitmap_IsSet [OF old(2) j] by (simp add: removed addresses_def)
  qed
  have dist: "distinct (map v_Address (?kept @ Added d))"
  proof -
    have "distinct (map v_Address ?kept)" "distinct (map v_Address (Added d))"
      unfolding addr using old(1) new by (simp_all only: distinct_map_filter)
    moreover have "v_Address ` set ?kept \<subseteq> addresses old" by (auto simp: addresses_def)
    ultimately show ?thesis using fresh_old by (simp add: addresses_def) blast
  qed
  have st: "stakes (?kept @ Added d) = stakes (?kept @ ?fresh)"
    by (simp add: stakes_append) (simp add: stakes_def add)
  have sub: "addresses (Updated d) \<subseteq> addresses (?kept @ Added d)"
  proof
    fix x assume "x \<in> addresses (Updated d)"
    then obtain n v where n: "n \<in> set new" "v_Address n = x" "?oldA x = Some v"
      by (auto simp: upd addresses_def)
    then have "v \<in> set ?kept" "v_Address v = x"
      using map_of_key_iff [OF old(1), of x v] by (auto simp: addresses_def)
    then show "x \<in> addresses (?kept @ Added d)" by (auto simp: addresses_def)
  qed
  obtain r where r: "apply_updated (?kept @ Added d) (Updated d) = Inr r"
    "map v_Address r = map v_Address (?kept @ Added d)" "stakes r = stakes new"
    using apply_updated_law [OF dist _ sub] merged_stakes [OF old(1) new] new
    by (auto simp: upd st distinct_map_filter)
  show ?thesis
  proof (cases "Delta_IsEmpty d")
    case True
    then have "Removed d = []" "Added d = []" "Updated d = []"
      using removed_bitmap_length [OF old(2), of "map v_Address new"] unat_of_nat64 [of "length (Removed d) * 8"]
      by (auto simp: Delta_IsEmpty_def Bitmap_Len_def removed)
    then have "v_Address (old ! j) \<in> addresses new" if "j < length old" for j
      using removed_bitmap_IsSet [OF old(2) that, of "map v_Address new"]
      by (simp add: removed addresses_def Bitmap_IsSet_iff)
    then have "?kept = old" by (intro filter_True) (metis in_set_conv_nth)
    then have "r = old" using r(1) \<open>Added d = []\<close> \<open>Updated d = []\<close> by simp
    then show ?thesis using True r(3) old AccountSet_Copy_id by (auto simp: ApplyDelta_def)
  next
    case False
    then show ?thesis
      using r dist append_added_law [OF dist] by (simp add: ApplyDelta_def kept)
  qed
qed

section \<open>The quorum\<close>

lemma getQuorumSize_bounds:
  shows "2 * t \<le> 3 * getQuorumSize fm n t"
    and "2 * t < 3 * x \<Longrightarrow> getQuorumSize fm n t \<le> x"
  by (auto simp: getQuorumSize_def big_Div_def BigIntDivCeil_def Let_def)

definition power_in :: "'k AccountSet \<Rightarrow> address \<Rightarrow> int" where
  "power_in valz a = (case stakes valz a of None \<Rightarrow> 0 | Some p \<Rightarrow> p)"

lemma HasQuorum_iff:
  assumes "distinct (map v_Address valz)" and "distinct signers"
  shows "HasQuorum fm (NewValidatorSet valz) n signers \<longleftrightarrow>
    getQuorumSize fm n (\<Sum>a \<in> addresses valz. power_in valz a) \<le> (\<Sum>a \<in> set signers. power_in valz a)"
proof -
  have pm: "votingPowerMap (NewValidatorSet valz) = stakes valz"
    using fold_map_upd [OF assms(1), of v_VotingPower Map.empty] by (simp add: NewValidatorSet_def stakes_def)
  have agg: "fold (\<lambda>a p. case stakes valz a of None \<Rightarrow> p | Some vp \<Rightarrow> p + vp) as t
      = t + sum_list (map (power_in valz) as)" for as t
    by (induction as arbitrary: t) (auto simp: power_in_def split: option.split)
  have "fold (\<lambda>v t. t + v_VotingPower v) as t = t + sum_list (map v_VotingPower as)"
    for as :: "'a AccountSet" and t by (induction as arbitrary: t) simp_all
  then have "totalVotingPower (NewValidatorSet valz) = sum_list (map v_VotingPower valz)"
    by (simp add: NewValidatorSet_def AccountSet_GetTotalVotingPower_def)
  also have "map v_VotingPower valz = map (power_in valz) (map v_Address valz)"
    using stakes_eq_Some [OF assms(1)] by (simp add: power_in_def)
  finally have "totalVotingPower (NewValidatorSet valz) = (\<Sum>a \<in> addresses valz. power_in valz a)"
    using sum_list_distinct_conv_sum_set [OF assms(1), of "power_in valz"] by (simp add: addresses_def)
  then show ?thesis
    using sum_list_distinct_conv_sum_set [OF assms(2), of "power_in valz"]
    by (simp add: HasQuorum_def pm agg)
qed

end
