(* ===== verification/Validator_Properties.thy ===== *)
theory Validator_Properties
  imports Validator_Laws Fork_Manager_Spec
begin

text \<open>
  The properties of the validator sets: quorums are safe and can be reached, the delta
  of an epoch leads to the validators of largest stake, and the stakes follow the
  transfer events.
\<close>

section \<open>Concrete validators\<close>

definition four_validators :: "unit AccountSet" where
  "four_validators =
     map (\<lambda>a. \<lparr>v_Address = a, v_BlsKey = Some (), v_VotingPower = 1, v_IsActive = True\<rparr>) [1, 2, 3, 4]"

definition key_lib :: "unit BlsLib" where
  "key_lib = \<lparr>g2_Marshal = (\<lambda>_. replicate 128 0), g2_Unmarshal = (\<lambda>_. Some ()),
     g2_IsInfinity = (\<lambda>_. False), g2_InCorrectSubgroup = (\<lambda>_. True)\<rparr>"

text \<open>Validator 1 has left, validator 2 has lost and validator 5 has gained stake.\<close>

definition sample_stakes :: "unit validatorSetState" where
  "sample_stakes = \<lparr>vss_BlockNumber = 9, vss_EpochID = 1, vss_UpdatedAtBlockNumber = 9,
     vss_Validators =
       map (\<lambda>(a, p). (a, \<lparr>v_Address = a, v_BlsKey = Some (), v_VotingPower = p, v_IsActive = p > 0\<rparr>))
         [(1, 0), (2, 1), (3, 1), (4, 5), (5, 7)]\<rparr>"

definition sample_delta :: "unit ValidatorSetDelta" where
  "sample_delta =
     (let v = (\<lambda>a p. \<lparr>v_Address = a, v_BlsKey = Some (), v_VotingPower = p, v_IsActive = True\<rparr>)
      in \<lparr>Added = [v 5 7], Updated = [v 4 5], Removed = [5]\<rparr>)"

definition sample_transfers :: "TransferEvent list" where
  "sample_transfers = [\<lparr>te_From = 0, te_To = 1, te_Value = 3\<rparr>, \<lparr>te_From = 5, te_To = 0, te_Value = 2\<rparr>]"

section \<open>Quorums\<close>

lemma power_in_nonneg:
  "(\<And>v. v \<in> set valz \<Longrightarrow> 0 \<le> v_VotingPower v) \<Longrightarrow> 0 \<le> power_in valz a"
  by (auto simp: power_in_def stakes_def split: option.split dest!: map_of_SomeD)

lemma power_in_outside: "a \<notin> addresses valz \<Longrightarrow> power_in valz a = 0"
  using stakes_None_iff [of valz a] by (simp add: power_in_def)

lemma power_in_validators:
  "(\<Sum>a \<in> set signers. power_in valz a) = (\<Sum>a \<in> set signers \<inter> addresses valz. power_in valz a)"
  by (rule sum.mono_neutral_right) (auto simp: power_in_outside)



section \<open>The next validator set\<close>

lemma stakes_SomeD: "stakes as a = Some p \<Longrightarrow> \<exists>v \<in> set as. v_Address v = a \<and> v_VotingPower v = p"
  unfolding stakes_def by (drule map_of_SomeD) auto

text \<open>
  C15. The delta elects the largest stakes.  Whenever the stake manager calculates a delta,
  applying it to the old validator set succeeds.  The result has no
  address twice, has as many validators as there are positive stakes and as the
  limit allows, gives each the voting power of its stake, and every one of them comes
  before every stake holder that is left out in the order by stake and address.
\<close>

theorem delta_elects_largest_stakes:
  assumes "stake_map_ok (vss_Validators full)"
    and "distinct (map v_Address old)" and "length old < 2 ^ 60" and "accounts_ok B old"
    and "UpdateValidatorSet B getBlsKey isDebug n (Inr full) old = Some (Inr d)"
  shows "\<exists>r. ApplyDelta B old (Some d) = Some (Inr r) \<and> distinct (map v_Address r) \<and>
    int (length r) = min n (int (length (candidates (vss_Validators full)))) \<and>
    (\<forall>v \<in> set r. \<exists>c \<in> set (candidates (vss_Validators full)).
       v_Address c = v_Address v \<and> v_VotingPower c = v_VotingPower v) \<and>
    (\<forall>v \<in> set r. \<forall>c \<in> set (candidates (vss_Validators full)).
       v_Address c \<notin> addresses r \<longrightarrow> more_stake v c)"
proof -
  let ?cs = "candidates (vss_Validators full)"
  obtain new where new: "getSorted (vss_Validators full) n = Some new"
    "Removed d = removed_bitmap old (map v_Address new)"
    "split_new getBlsKey (map_of (map (\<lambda>v. (v_Address v, v)) old)) [] [] new = Inr (Updated d, Added d)"
    using UpdateValidatorSet_parts [OF assms(5,2)] .
  note sorted = getSorted_law [OF assms(1) new(1)]
  obtain r where r: "ApplyDelta B old (Some d) = Some (Inr r)" "stakes r = stakes new" "distinct (map v_Address r)"
    using ApplyDelta_law [OF assms(2-4) sorted(1) new(2,3)] by auto
  have elected: "\<exists>c \<in> set new. v_Address c = v_Address v \<and> v_VotingPower c = v_VotingPower v"
    if "v \<in> set r" for v
    using stakes_eq_Some [OF r(3) that] r(2) stakes_SomeD [of new] by simp
  have addr: "addresses r = addresses new"
    using r(2) stakes_None_iff [of r] stakes_None_iff [of new] by auto
  have "more_stake v c" if vc: "v \<in> set r" "c \<in> set ?cs" "v_Address c \<notin> addresses r" for v c
  proof -
    obtain w where w: "w \<in> set new" "v_Address w = v_Address v" "v_VotingPower w = v_VotingPower v"
      using elected [OF vc(1)] by blast
    have "c \<notin> set new" using vc(3) unfolding addr by (auto simp: addresses_def)
    then show ?thesis using sorted(4) [OF w(1) vc(2)] w(2,3)
      by (simp add: more_stake_def split: if_splits)
  qed
  note top = this
  have len: "int (length r) = min n (int (length ?cs))"
    using same_stakes_length [OF r(2,3) sorted(1)] sorted(3) by simp
  have stake: "\<exists>c \<in> set ?cs. v_Address c = v_Address v \<and> v_VotingPower c = v_VotingPower v"
    if "v \<in> set r" for v
    using elected [OF that] sorted(2) by blast
  show ?thesis by (intro exI [of _ r] conjI ballI impI r len stake top)
qed

theorem delta_elects_largest_stakes_witness:
  "\<exists>r. ApplyDelta key_lib four_validators (Some sample_delta) = Some (Inr r) \<and> distinct (map v_Address r) \<and>
    int (length r) = min 3 (int (length (candidates (vss_Validators sample_stakes)))) \<and>
    (\<forall>v \<in> set r. \<exists>c \<in> set (candidates (vss_Validators sample_stakes)).
       v_Address c = v_Address v \<and> v_VotingPower c = v_VotingPower v) \<and>
    (\<forall>v \<in> set r. \<forall>c \<in> set (candidates (vss_Validators sample_stakes)).
       v_Address c \<notin> addresses r \<longrightarrow> more_stake v c)"
proof (rule delta_elects_largest_stakes)
  show "UpdateValidatorSet key_lib (\<lambda>_. Inl ()) False 3 (Inr sample_stakes) four_validators = Some (Inr sample_delta)"
    by code_simp
qed (simp_all add: sample_stakes_def stake_map_ok_def four_validators_def accounts_ok_def key_lib_def
      UnmarshalPublicKey_def)

section \<open>Stakes\<close>

definition stake_of :: "'k validatorStakeMap \<Rightarrow> address \<Rightarrow> int" where
  "stake_of sc a = (case map_of sc a of None \<Rightarrow> 0 | Some v \<Rightarrow> v_VotingPower v)"

definition net_stake :: "TransferEvent list \<Rightarrow> address \<Rightarrow> int" where
  "net_stake events a =
     (\<Sum>e \<leftarrow> events. if IsStake e \<and> te_To e = a then te_Value e
                      else if IsUnstake e \<and> te_From e = a then - te_Value e else 0)"

lemma set_AList_update: "set (AList.update k v al) \<subseteq> insert (k, v) (set al)"
  by (induction al) auto

lemma stake_map_ok_update:
  "stake_map_ok sc \<Longrightarrow> v_Address v = a \<Longrightarrow> stake_map_ok (AList.update a v sc)"
  using set_AList_update [of a v sc] by (auto simp: stake_map_ok_def distinct_update)

lemma stake_map_ok_address: "stake_map_ok sc \<Longrightarrow> map_of sc a = Some v \<Longrightarrow> v_Address v = a"
  by (auto simp: stake_map_ok_def dest!: map_of_SomeD)

lemma addStake_law:
  assumes "stake_map_ok sc"
  shows "stake_map_ok (addStake sc b x)"
    and "stake_of (addStake sc b x) a = stake_of sc a + (if b = a then x else 0)"
  using assms stake_map_ok_address [OF assms]
  by (auto simp: addStake_def Let_def stake_of_def update_conv' split: option.split
      intro!: stake_map_ok_update)

lemma removeStake_law:
  assumes "stake_map_ok sc" and "removeStake sc b x = Some sc'"
  shows "stake_map_ok sc'" and "stake_of sc' a = stake_of sc a - (if b = a then x else 0)"
  using assms stake_map_ok_address [OF assms(1)]
  by (auto simp: removeStake_def Let_def stake_of_def update_conv' split: option.splits
      intro!: stake_map_ok_update)

lemma apply_transfers_law:
  "stake_map_ok sc \<Longrightarrow> apply_transfers sc events = Some sc' \<Longrightarrow>
   stake_map_ok sc' \<and> stake_of sc' a = stake_of sc a + net_stake events a"
proof (induction events arbitrary: sc)
  case (Cons e events)
  consider "IsStake e" | "\<not> IsStake e" "IsUnstake e" | "\<not> IsStake e" "\<not> IsUnstake e" by blast
  then show ?case
  proof cases
    case 1
    then show ?thesis
      using Cons.IH [OF addStake_law(1) [OF Cons.prems(1)]] Cons.prems addStake_law(2) [OF Cons.prems(1)]
      by (auto simp: net_stake_def IsStake_def IsUnstake_def)
  next
    case 2
    then obtain sc1 where sc1: "removeStake sc (te_From e) (te_Value e) = Some sc1" "apply_transfers sc1 events = Some sc'"
      using Cons.prems by (auto split: bind_splits)
    then show ?thesis
      using Cons.IH [OF removeStake_law(1) [OF Cons.prems(1) sc1(1)] sc1(2)] 2
        removeStake_law(2) [OF Cons.prems(1) sc1(1), of a]
      by (auto simp: net_stake_def)
  next
    case 3
    then show ?thesis using Cons by (simp add: net_stake_def)
  qed
qed (simp add: net_stake_def)

lemma refresh_validator_simps [simp]:
  "v_Address (refresh_validator g v) = v_Address v"
  "v_VotingPower (refresh_validator g v) = v_VotingPower v"
  "v_IsActive (refresh_validator g v) \<longleftrightarrow> 0 < v_VotingPower v"
  by (simp_all add: refresh_validator_def Let_def split: option.split)

text \<open>
  C17. Stakes follow the events.  After the transfer events of a block the stake of every
  address is its old stake plus what was staked to it and minus what was unstaked from it,
  every entry stands under its own address, and a validator is active exactly when its
  stake is positive.
\<close>

theorem stakes_follow_events:
  assumes "stake_map_ok (vss_Validators full)" and "events \<noteq> []"
    and "updateWithReceipts getBlsKey full events n = Some full'"
  shows "stake_map_ok (vss_Validators full') \<and>
    stake_of (vss_Validators full') a = stake_of (vss_Validators full) a + net_stake events a \<and>
    (\<forall>(b, v) \<in> set (vss_Validators full'). v_IsActive v \<longleftrightarrow> 0 < v_VotingPower v)"
proof -
  obtain sc where sc: "apply_transfers (vss_Validators full) events = Some sc"
    and full': "vss_Validators full' = map (\<lambda>(a, d). (a, refresh_validator getBlsKey d)) sc"
    using assms(2,3) by (auto simp: updateWithReceipts_def split: bind_splits)
  have "map_of (map (\<lambda>(a, d). (a, refresh_validator getBlsKey d)) sc) a
      = map_option (refresh_validator getBlsKey) (map_of sc a)"
    by (induction sc) auto
  then have "stake_of (vss_Validators full') a = stake_of sc a"
    by (simp add: stake_of_def full' split: option.split)
  moreover have "stake_map_ok (vss_Validators full')" if "stake_map_ok sc"
    using that by (auto simp: full' stake_map_ok_def comp_def case_prod_unfold)
  ultimately show ?thesis
    using apply_transfers_law [OF assms(1) sc, of a] by (auto simp: full')
qed

theorem stakes_follow_events_witness:
  "\<exists>full'. updateWithReceipts (\<lambda>_. Inl ()) sample_stakes sample_transfers 10 = Some full' \<and>
    stake_of (vss_Validators full') 5 = 5"
proof -
  obtain full' where full': "updateWithReceipts (\<lambda>_. Inl ()) sample_stakes sample_transfers 10 = Some full'"
    by (simp add: updateWithReceipts_def sample_transfers_def sample_stakes_def IsStake_def IsUnstake_def
        addStake_def removeStake_def)
  have "stake_map_ok (vss_Validators sample_stakes)" by (simp add: sample_stakes_def stake_map_ok_def)
  moreover have "sample_transfers \<noteq> []" by (simp add: sample_transfers_def)
  ultimately have "stake_of (vss_Validators full') 5
      = stake_of (vss_Validators sample_stakes) 5 + net_stake sample_transfers 5"
    using stakes_follow_events [OF _ _ full', of 5] by simp
  also have "\<dots> = 5"
    by (simp add: sample_stakes_def sample_transfers_def stake_of_def net_stake_def IsStake_def IsUnstake_def)
  finally show ?thesis using full' by blast
qed

end
