(* ===== verification/Proposer.thy ===== *)
theory Proposer
  imports Validator_Set
begin

text \<open>
  The proposer calculator of the PolyBFT consensus,
  \<open>consensus/polybft/proposer_calculator.go\<close>: a weighted round robin over the
  validators, kept as one priority per validator.

  The priorities are \<open>*big.Int\<close> values that a snapshot and its copies share, and the
  rescaling and the centring change them in place.  They therefore live in a store: a
  list of integers, a pointer being an index, and \<open>new(big.Int)\<close> extending the list.
  The structures that hold the pointers are copied by the code before they are changed,
  so they are plain records.
\<close>

type_synonym ptr = nat
type_synonym store = "int list"

definition new_Int :: "int \<Rightarrow> store \<Rightarrow> ptr \<times> store" where
  "new_Int x h = (length h, h @ [x])"

record 'k PrioritizedValidator =
  Metadata :: "'k ValidatorMetadata"
  ProposerPriority :: ptr

record 'k ProposerSnapshot =
  Height :: uint64
  Round :: uint64
  Proposer :: "'k PrioritizedValidator option"
  Validators :: "'k PrioritizedValidator list"

datatype proposer_error =
    InvalidHeight
  | LatestProposerNotFound
  | EmptyValidators
  | NonPositiveTimes
  | WrongBlock
  | NoBlockData
  | NoValidators
  | CannotSave
  | NoStoredSnapshot

abbreviation prio :: "store \<Rightarrow> 'k PrioritizedValidator \<Rightarrow> int" where
  "prio h v \<equiv> h ! ProposerPriority v"

abbreviation vpower :: "'k PrioritizedValidator \<Rightarrow> int" where
  "vpower v \<equiv> v_VotingPower (Metadata v)"

section \<open>Snapshots\<close>

fun new_validators ::
  "'k AccountSet \<Rightarrow> store \<Rightarrow> 'k PrioritizedValidator list \<times> store" where
  "new_validators [] h = ([], h)"
| "new_validators (x # xs) h =
     (let (p, h1) = new_Int 0 h; (vs, h2) = new_validators xs h1
      in (\<lparr>Metadata = x, ProposerPriority = p\<rparr> # vs, h2))"

definition NewProposerSnapshot :: "uint64 \<Rightarrow> 'k AccountSet \<Rightarrow> store \<Rightarrow> 'k ProposerSnapshot \<times> store" where
  "NewProposerSnapshot height validators h =
     (let (vs, h') = new_validators validators h
      in (\<lparr>Height = height, Round = 0, Proposer = None, Validators = vs\<rparr>, h'))"

definition GetTotalVotingPower :: "'k ProposerSnapshot \<Rightarrow> int" where
  "GetTotalVotingPower pcs = fold (\<lambda>v tvp. tvp + vpower v) (Validators pcs) 0"

text \<open>The copies have their own metadata and the same pointers.\<close>

fun copy_validators ::
  "'k BlsLib \<Rightarrow> 'k PrioritizedValidator list \<Rightarrow> 'k PrioritizedValidator list go" where
  "copy_validators B [] = Some []"
| "copy_validators B (v # vs) =
     do { m \<leftarrow> ValidatorMetadata_Copy B (Metadata v);
          cs \<leftarrow> copy_validators B vs;
          Some (\<lparr>Metadata = m, ProposerPriority = ProposerPriority v\<rparr> # cs) }"

definition copied_proposer ::
  "'k PrioritizedValidator option \<Rightarrow> ('k PrioritizedValidator \<times> 'k PrioritizedValidator) list \<Rightarrow>
   'k PrioritizedValidator option" where
  "copied_proposer p vs =
     fold (\<lambda>(v, c) r. case p of
             None \<Rightarrow> r
           | Some p \<Rightarrow> if v_Address (Metadata p) = v_Address (Metadata v) then Some c else r) vs None"

definition Snapshot_Copy :: "'k BlsLib \<Rightarrow> 'k ProposerSnapshot \<Rightarrow> 'k ProposerSnapshot go" where
  "Snapshot_Copy B pcs =
     do { valCopy \<leftarrow> copy_validators B (Validators pcs);
          Some \<lparr>Height = Height pcs, Round = Round pcs,
                Proposer = copied_proposer (Proposer pcs) (zip (Validators pcs) valCopy),
                Validators = valCopy\<rparr> }"

definition toMap :: "'k ProposerSnapshot \<Rightarrow> address \<rightharpoonup> 'k PrioritizedValidator" where
  "toMap pcs = fold (\<lambda>v m. m(v_Address (Metadata v) \<mapsto> v)) (Validators pcs) Map.empty"

section \<open>Choosing the proposer\<close>

text \<open>The second comparison is between the pointers, as in the source.\<close>

definition isBetterProposer ::
  "store \<Rightarrow> 'k PrioritizedValidator \<Rightarrow> 'k PrioritizedValidator option \<Rightarrow> bool" where
  "isBetterProposer h a b =
     (case b of
        None \<Rightarrow> True
      | Some b \<Rightarrow>
          if prio h a > prio h b then True
          else if ProposerPriority a = ProposerPriority b
            then v_Address (Metadata a) \<le> v_Address (Metadata b)
          else False)"

definition getValWithMostPriority ::
  "store \<Rightarrow> 'k ProposerSnapshot \<Rightarrow> proposer_error + 'k PrioritizedValidator" where
  "getValWithMostPriority h snapshot =
     (case fold (\<lambda>curr result. if isBetterProposer h curr result then Some curr else result)
             (Validators snapshot) None of
        None \<Rightarrow> Inl EmptyValidators
      | Some v \<Rightarrow> Inr v)"

fun add_powers :: "'k PrioritizedValidator list \<Rightarrow> store \<Rightarrow> 'k PrioritizedValidator list \<times> store" where
  "add_powers [] h = ([], h)"
| "add_powers (v # vs) h =
     (let (p, h1) = new_Int (prio h v + vpower v) h;
          (vs', h2) = add_powers vs h1
      in (v\<lparr>ProposerPriority := p\<rparr> # vs', h2))"

definition incrementProposerPriority ::
  "'k ProposerSnapshot \<Rightarrow> int \<Rightarrow> store \<Rightarrow>
   (proposer_error + 'k PrioritizedValidator) \<times> 'k ProposerSnapshot \<times> store" where
  "incrementProposerPriority snapshot tvp h =
     (let (vs, h1) = add_powers (Validators snapshot) h;
          snapshot' = snapshot\<lparr>Validators := vs\<rparr>
      in case getValWithMostPriority h1 snapshot' of
           Inl e \<Rightarrow> (Inl e, snapshot', h1)
         | Inr mostest \<Rightarrow>
             (Inr mostest, snapshot', h1[ProposerPriority mostest := prio h1 mostest - tvp]))"

section \<open>Rescaling and centring\<close>

definition computeMaxMinPriorityDiff :: "store \<Rightarrow> 'k PrioritizedValidator list \<Rightarrow> int go" where
  "computeMaxMinPriorityDiff h validators =
     (case validators of
        [] \<Rightarrow> None
      | v0 # vs \<Rightarrow>
          let (lo, hi) =
                fold (\<lambda>v (lo, hi). (if prio h v < lo then prio h v else lo,
                                    if prio h v > hi then prio h v else hi))
                  vs (prio h v0, prio h v0);
              diff = hi - lo
          in Some (if diff < 0 then - diff else diff))"

definition Quo :: "int \<Rightarrow> int \<Rightarrow> int" where
  "Quo x y = (if x < 0 then - (- x div y) else x div y)"

text \<open>
  \<open>BigIntDivCeil\<close> divides by the window before the window is compared, so a total power
  of zero panics.
\<close>

definition rescalePriorities ::
  "'k ProposerSnapshot \<Rightarrow> int \<Rightarrow> store \<Rightarrow> (proposer_error + store) go" where
  "rescalePriorities snapshot tvp h =
     (if length (Validators snapshot) = 0 then Some (Inl EmptyValidators)
      else
        do { let diffMax = 2 * tvp;
             diff \<leftarrow> computeMaxMinPriorityDiff h (Validators snapshot);
             if diffMax = 0 then None
             else let ratio = BigIntDivCeil diff diffMax
                  in if diff > diffMax
                     then Some (Inr (fold (\<lambda>v h. h[ProposerPriority v := Quo (prio h v) ratio])
                                 (Validators snapshot) h))
                     else Some (Inr h) })"

definition computeAvgProposerPriority :: "'k ProposerSnapshot \<Rightarrow> store \<Rightarrow> proposer_error + int" where
  "computeAvgProposerPriority snapshot h =
     (if length (Validators snapshot) = 0 then Inl EmptyValidators
      else Inr (big_Div (fold (\<lambda>v sum. sum + prio h v) (Validators snapshot) 0)
             (int (length (Validators snapshot)))))"

definition shiftByAvgProposerPriority ::
  "'k ProposerSnapshot \<Rightarrow> store \<Rightarrow> proposer_error + store" where
  "shiftByAvgProposerPriority snapshot h =
     (case computeAvgProposerPriority snapshot h of
        Inl e \<Rightarrow> Inl e
      | Inr avg \<Rightarrow> Inr (fold (\<lambda>v h. h[ProposerPriority v := prio h v - avg]) (Validators snapshot) h))"

definition updateWithChangeSet ::
  "'k ProposerSnapshot \<Rightarrow> int \<Rightarrow> store \<Rightarrow> (proposer_error + store) go" where
  "updateWithChangeSet snapshot tvp h =
     do { r \<leftarrow> rescalePriorities snapshot tvp h;
          Some (case r of Inl e \<Rightarrow> Inl e | Inr h \<Rightarrow> shiftByAvgProposerPriority snapshot h) }"

section \<open>The calculation for a round\<close>

text \<open>The loop body runs at least once; the first argument counts the further runs.\<close>

fun increment_loop ::
  "nat \<Rightarrow> 'k ProposerSnapshot \<Rightarrow> int \<Rightarrow> store \<Rightarrow>
   (proposer_error + 'k PrioritizedValidator) \<times> 'k ProposerSnapshot \<times> store" where
  "increment_loop 0 snapshot tvp h = incrementProposerPriority snapshot tvp h"
| "increment_loop (Suc i) snapshot tvp h =
     (case incrementProposerPriority snapshot tvp h of
        (Inl e, s) \<Rightarrow> (Inl e, s)
      | (Inr _, snapshot', h') \<Rightarrow> increment_loop i snapshot' tvp h')"

definition incrementProposerPriorityNTimes ::
  "'k ProposerSnapshot \<Rightarrow> uint64 \<Rightarrow> store \<Rightarrow>
   ((proposer_error + 'k PrioritizedValidator) \<times> 'k ProposerSnapshot \<times> store) go" where
  "incrementProposerPriorityNTimes snapshot ntimes h =
     (if length (Validators snapshot) = 0 then Some (Inl EmptyValidators, snapshot, h)
      else if ntimes \<le> 0 then Some (Inl NonPositiveTimes, snapshot, h)
      else
        do { let tvp = GetTotalVotingPower snapshot;
             r \<leftarrow> updateWithChangeSet snapshot tvp h;
             Some (case r of
                     Inl e \<Rightarrow> (Inl e, snapshot, h)
                   | Inr h1 \<Rightarrow>
                       (case increment_loop (unat ntimes - 1) snapshot tvp h1 of
                          (Inl e, s) \<Rightarrow> (Inl e, s)
                        | (Inr proposer, snapshot', h2) \<Rightarrow>
                            (Inr proposer, snapshot'\<lparr>Proposer := Some proposer, Round := ntimes - 1\<rparr>, h2))) })"

definition CalcProposer ::
  "'k BlsLib \<Rightarrow> 'k ProposerSnapshot \<Rightarrow> uint64 \<Rightarrow> uint64 \<Rightarrow> store \<Rightarrow>
   ((proposer_error + address) \<times> 'k ProposerSnapshot \<times> store) go" where
  "CalcProposer B pcs round height h =
     (if height \<noteq> Height pcs then Some (Inl InvalidHeight, pcs, h)
      else case (if Round pcs = round then Proposer pcs else None) of
        Some p \<Rightarrow> Some (Inr (v_Address (Metadata p)), pcs, h)
      | None \<Rightarrow>
          do { c \<leftarrow> Snapshot_Copy B pcs;
               (r, _, h') \<leftarrow> incrementProposerPriorityNTimes c (round + 1) h;
               Some (case r of
                       Inl e \<Rightarrow> (Inl e, pcs, h')
                     | Inr proposer \<Rightarrow>
                         (Inr (v_Address (Metadata proposer)),
                          pcs\<lparr>Proposer := Some proposer, Round := round\<rparr>, h')) })"

text \<open>The error message reads the fields of the snapshot, so a nil snapshot panics.\<close>

definition GetLatestProposer ::
  "'k ProposerSnapshot option \<Rightarrow> uint64 \<Rightarrow> uint64 \<Rightarrow> (proposer_error + address) go" where
  "GetLatestProposer pcs round height =
     (case pcs of
        None \<Rightarrow> None
      | Some pcs \<Rightarrow>
          (case Proposer pcs of
             None \<Rightarrow> Some (Inl LatestProposerNotFound)
           | Some p \<Rightarrow>
               if Round pcs \<noteq> round \<or> Height pcs \<noteq> height then Some (Inl LatestProposerNotFound)
               else Some (Inr (v_Address (Metadata p)))))"

section \<open>A new validator set and the update of a block\<close>

text \<open>\<open>tvp\<close> is one big integer that every added validator increases in place.\<close>

fun merge_validators ::
  "(address \<rightharpoonup> 'k PrioritizedValidator) \<Rightarrow> int \<Rightarrow> 'k AccountSet \<Rightarrow> store \<Rightarrow>
   'k PrioritizedValidator list \<times> store" where
  "merge_validators old tvp [] h = ([], h)"
| "merge_validators old tvp (n # ns) h =
     (case old (v_Address n) of
        Some v \<Rightarrow>
          let (vs, h') = merge_validators old tvp ns h
          in (\<lparr>Metadata = n, ProposerPriority = ProposerPriority v\<rparr> # vs, h')
      | None \<Rightarrow>
          let coefficient = big_Div tvp 8;
              tvp' = tvp + coefficient;
              (p, h1) = new_Int (- tvp') h;
              (vs, h') = merge_validators old tvp' ns h1
          in (\<lparr>Metadata = n, ProposerPriority = p\<rparr> # vs, h'))"

text \<open>
  The range over the map visits each address of the old set once, with the validator that
  the map holds for it.
\<close>

definition removed_power :: "'k ProposerSnapshot \<Rightarrow> 'k AccountSet \<Rightarrow> int" where
  "removed_power snapshot new =
     (\<Sum>a \<leftarrow> remdups (map (v_Address \<circ> Metadata) (Validators snapshot)).
        case toMap snapshot a of
          None \<Rightarrow> 0
        | Some v \<Rightarrow> if a \<in> set (map v_Address new) then 0 else vpower v)"

definition updateValidators ::
  "'k ProposerSnapshot \<Rightarrow> 'k AccountSet \<Rightarrow> store \<Rightarrow>
   ((proposer_error + unit) \<times> 'k ProposerSnapshot \<times> store) go" where
  "updateValidators snapshot newValidatorSet h =
     (if length newValidatorSet = 0 then Some (Inr (), snapshot, h)
      else
        do { let tvp = (\<Sum>v \<leftarrow> newValidatorSet. v_VotingPower v) + removed_power snapshot newValidatorSet;
             let (vs, h1) = merge_validators (toMap snapshot) tvp newValidatorSet h;
             let snapshot' = snapshot\<lparr>Validators := vs\<rparr>;
             r \<leftarrow> updateWithChangeSet snapshot' (GetTotalVotingPower snapshot') h1;
             Some (case r of Inl e \<Rightarrow> (Inl e, snapshot', h1) | Inr h2 \<Rightarrow> (Inr (), snapshot', h2)) })"

text \<open>
  What the calculator reads of the chain and of the back end: the round a block was
  agreed in, whether it carries a non-empty delta, and the validators of a block.
\<close>

record 'k Chain =
  chain_block :: "uint64 \<Rightarrow> (uint64 \<times> bool) option"
  chain_validators :: "uint64 \<Rightarrow> 'k AccountSet option"

definition updatePerBlock ::
  "'k Chain \<Rightarrow> uint64 \<Rightarrow> 'k ProposerSnapshot \<Rightarrow> store \<Rightarrow>
   ((proposer_error + unit) \<times> 'k ProposerSnapshot \<times> store) go" where
  "updatePerBlock C blockNumber snapshot h =
     (if Height snapshot \<noteq> blockNumber then Some (Inl WrongBlock, snapshot, h)
      else case chain_block C blockNumber of
        None \<Rightarrow> Some (Inl NoBlockData, snapshot, h)
      | Some (blockRound, changed) \<Rightarrow>
          (case (if changed then chain_validators C blockNumber else Some []) of
             None \<Rightarrow> Some (Inl NoValidators, snapshot, h)
           | Some newValidatorSet \<Rightarrow>
               do { (r, snapshot1, h1) \<leftarrow> incrementProposerPriorityNTimes snapshot (blockRound + 1) h;
                    case r of
                      Inl e \<Rightarrow> Some (Inl e, snapshot1, h1)
                    | Inr _ \<Rightarrow>
                        do { (r, snapshot2, h2) \<leftarrow> updateValidators snapshot1 newValidatorSet h1;
                             Some (case r of
                                     Inl e \<Rightarrow> (Inl e, snapshot2, h2)
                                   | Inr () \<Rightarrow>
                                       (Inr (), snapshot2\<lparr>Height := blockNumber + 1, Round := 0, Proposer := None\<rparr>,
                                        h2)) } }))"

text \<open>
  The loop over the heights is written as the source has it, on wrapping integers; it
  has no result (and so is \<open>None\<close>) where it does not end.
\<close>

partial_function (option) update_loop ::
  "'k Chain \<Rightarrow> uint64 \<Rightarrow> uint64 \<Rightarrow> 'k ProposerSnapshot \<Rightarrow> store \<Rightarrow>
   ((proposer_error + unit) \<times> 'k ProposerSnapshot \<times> store) go" where
  "update_loop C height blockNumber snapshot h =
     (if height \<le> blockNumber then
        do { (r, snapshot', h') \<leftarrow> updatePerBlock C height snapshot h;
             case r of
               Inl e \<Rightarrow> Some (Inl e, snapshot', h')
             | Inr () \<Rightarrow> update_loop C (height + 1) blockNumber snapshot' h' }
      else Some (Inr (), snapshot, h))"

definition Calculator_update ::
  "'k Chain \<Rightarrow> ('k ProposerSnapshot \<Rightarrow> store \<Rightarrow> bool) \<Rightarrow> uint64 \<Rightarrow> 'k ProposerSnapshot \<Rightarrow> store \<Rightarrow>
   ((proposer_error + unit) \<times> 'k ProposerSnapshot \<times> store) go" where
  "Calculator_update C writeProposerSnapshot blockNumber snapshot h =
     do { (r, snapshot', h') \<leftarrow> update_loop C (Height snapshot) blockNumber snapshot h;
          Some (case r of
                  Inl e \<Rightarrow> (Inl e, snapshot', h')
                | Inr () \<Rightarrow> if writeProposerSnapshot snapshot' h' then (Inr (), snapshot', h')
                            else (Inl CannotSave, snapshot', h')) }"

definition PostBlock ::
  "'k Chain \<Rightarrow> ('k ProposerSnapshot \<Rightarrow> store \<Rightarrow> bool) \<Rightarrow> uint64 \<Rightarrow> 'k ProposerSnapshot \<Rightarrow> store \<Rightarrow>
   ((proposer_error + unit) \<times> 'k ProposerSnapshot \<times> store) go" where
  "PostBlock C writeProposerSnapshot number snapshot h =
     Calculator_update C writeProposerSnapshot number snapshot h"

section \<open>Starting the calculator\<close>

text \<open>
  Reading the saved snapshot decodes it into fresh integers, so the reader takes and
  returns the store; it fails, finds nothing, or finds a snapshot.
\<close>

definition NewProposerSnapshotFromState ::
  "'k Chain \<Rightarrow> (store \<Rightarrow> ('k ProposerSnapshot option \<times> store) option) \<Rightarrow> store \<Rightarrow>
   proposer_error + 'k ProposerSnapshot \<times> store" where
  "NewProposerSnapshotFromState C getProposerSnapshot h =
     (case getProposerSnapshot h of
        None \<Rightarrow> Inl NoStoredSnapshot
      | Some (Some snapshot, h') \<Rightarrow> Inr (snapshot, h')
      | Some (None, h') \<Rightarrow>
          (case chain_validators C 0 of
             None \<Rightarrow> Inl NoValidators
           | Some genesisValidatorsSet \<Rightarrow> Inr (NewProposerSnapshot 1 genesisValidatorsSet h')))"

definition NewProposerCalculator ::
  "'k Chain \<Rightarrow> (store \<Rightarrow> ('k ProposerSnapshot option \<times> store) option) \<Rightarrow>
   ('k ProposerSnapshot \<Rightarrow> store \<Rightarrow> bool) \<Rightarrow> uint64 \<Rightarrow> store \<Rightarrow>
   (proposer_error + 'k ProposerSnapshot \<times> store) go" where
  "NewProposerCalculator C getProposerSnapshot writeProposerSnapshot blockNumber h =
     (case NewProposerSnapshotFromState C getProposerSnapshot h of
        Inl e \<Rightarrow> Some (Inl e)
      | Inr (snap, h1) \<Rightarrow>
          if Height snap \<le> blockNumber then
            do { (r, snap', h2) \<leftarrow> Calculator_update C writeProposerSnapshot blockNumber snap h1;
                 Some (case r of Inl e \<Rightarrow> Inl e | Inr () \<Rightarrow> Inr (snap', h2)) }
          else Some (Inr (snap, h1)))"

definition GetSnapshot ::
  "'k BlsLib \<Rightarrow> 'k ProposerSnapshot option \<Rightarrow> 'k ProposerSnapshot option go" where
  "GetSnapshot B snapshot =
     (case snapshot of
        None \<Rightarrow> Some None
      | Some s \<Rightarrow> do { c \<leftarrow> Snapshot_Copy B s; Some (Some c) })"

end
