(* ===== verification/Proposer_Laws.thy ===== *)
theory Proposer_Laws
  imports Proposer
begin

text \<open>
  The proposer calculator as a weighted round robin on lists of integers.  The first
  part is the abstract algorithm: one priority and one weight per position, the first
  position of greatest priority is chosen.  It shows that rescaling and centring are
  idempotent, that the priorities stay bounded below, and that every position of
  positive weight is chosen within a bounded number of steps.  The second part shows
  that the calculator, with its shared and mutated big integers, implements it.
\<close>

section \<open>The abstract round robin\<close>

text \<open>The first position of the greatest element.\<close>

fun first_max :: "int list \<Rightarrow> nat" where
  "first_max [] = 0"
| "first_max [x] = 0"
| "first_max (x # y # xs) =
     (let i = first_max (y # xs) in if (y # xs) ! i > x then Suc i else 0)"

definition rr_add :: "int list \<Rightarrow> int list \<Rightarrow> int list" where
  "rr_add ws ps = map2 (+) ps ws"

definition rr_step :: "int list \<Rightarrow> int list \<Rightarrow> int list" where
  "rr_step ws ps =
     (let qs = rr_add ws ps; i = first_max qs in qs[i := qs ! i - sum_list ws])"

definition rr_winner :: "int list \<Rightarrow> int list \<Rightarrow> nat" where
  "rr_winner ws ps = first_max (rr_add ws ps)"

definition spread :: "int list \<Rightarrow> int" where
  "spread ps = Max (set ps) - Min (set ps)"

definition rr_scale :: "int \<Rightarrow> int list \<Rightarrow> int list" where
  "rr_scale T ps =
     (if spread ps > 2 * T then map (\<lambda>p. Quo p (BigIntDivCeil (spread ps) (2 * T))) ps else ps)"

definition rr_centre :: "int list \<Rightarrow> int list" where
  "rr_centre ps = map (\<lambda>p. p - sum_list ps div int (length ps)) ps"

definition rr_normal :: "int \<Rightarrow> int list \<Rightarrow> int list" where
  "rr_normal T ps = rr_centre (rr_scale T ps)"

lemma length_rr [simp]:
  "length ps = length ws \<Longrightarrow> length (rr_add ws ps) = length ws"
  "length ps = length ws \<Longrightarrow> length (rr_step ws ps) = length ws"
  "length (rr_scale T ps) = length ps" "length (rr_centre ps) = length ps"
  "length (rr_normal T ps) = length ps"
  by (simp_all add: rr_add_def rr_step_def rr_scale_def rr_centre_def rr_normal_def Let_def)

lemma rr_scale_Nil_iff [simp]: "rr_scale T ps = [] \<longleftrightarrow> ps = []"
  by (simp add: rr_scale_def)

lemma length_rr_iterate [simp]:
  "length ps = length ws \<Longrightarrow> length ((rr_step ws ^^ k) ps) = length ws"
  by (induction k) simp_all

lemma first_max_less: "xs \<noteq> [] \<Longrightarrow> first_max xs < length xs"
  by (induction xs rule: first_max.induct) (auto simp: Let_def)

lemma first_max_ge: "x \<in> set xs \<Longrightarrow> x \<le> xs ! first_max xs"
proof (induction xs rule: first_max.induct)
  case (3 x' y xs)
  show ?case
  proof (cases "(y # xs) ! first_max (y # xs) > x'")
    case True
    then have "first_max (x' # y # xs) = Suc (first_max (y # xs))" by simp
    then show ?thesis using 3 True by fastforce
  next
    case False
    then have "first_max (x' # y # xs) = 0" by simp
    then show ?thesis using 3 False by fastforce
  qed
qed auto

lemma first_max_first: "j < first_max xs \<Longrightarrow> xs ! j < xs ! first_max xs"
proof (induction xs arbitrary: j rule: first_max.induct)
  case (3 x y xs)
  then have gt: "(y # xs) ! first_max (y # xs) > x"
    and eq: "first_max (x # y # xs) = Suc (first_max (y # xs))"
    by (auto simp: Let_def split: if_splits)
  show ?case
  proof (cases j)
    case 0
    then show ?thesis using gt eq by simp
  next
    case (Suc j')
    then have "j' < first_max (y # xs)" using 3(2) eq by simp
    then show ?thesis using 3(1) Suc eq by simp
  qed
qed auto

lemma sum_rr_add: "length ps = length ws \<Longrightarrow> sum_list (rr_add ws ps) = sum_list ps + sum_list ws"
  unfolding rr_add_def by (induction ps ws rule: list_induct2) simp_all

lemma sum_list_upd: "i < length xs \<Longrightarrow> sum_list (xs[i := y]) = sum_list xs - xs ! i + (y :: int)"
  by (induction xs arbitrary: i) (auto split: nat.split)

lemma sum_le_length_mult: "(\<And>x. x \<in> set xs \<Longrightarrow> x \<le> m) \<Longrightarrow> sum_list xs \<le> int (length xs) * m"
  by (induction xs) (auto simp: algebra_simps intro: add_mono)

lemma length_mult_le_sum: "(\<And>x. x \<in> set xs \<Longrightarrow> m \<le> x) \<Longrightarrow> int (length xs) * m \<le> sum_list xs"
  by (induction xs) (auto simp: algebra_simps intro: add_mono)

lemma sum_rr_step:
  assumes "length ps = length ws" and "ws \<noteq> []"
  shows "sum_list (rr_step ws ps) = sum_list ps"
proof -
  have "first_max (rr_add ws ps) < length ws"
    using first_max_less [of "rr_add ws ps"] assms by (metis length_0_conv length_rr(1))
  then show ?thesis using assms by (simp add: rr_step_def Let_def sum_list_upd sum_rr_add)
qed

lemma sum_rr_iterate:
  "length ps = length ws \<Longrightarrow> ws \<noteq> [] \<Longrightarrow> sum_list ((rr_step ws ^^ k) ps) = sum_list ps"
  by (induction k) (simp_all add: sum_rr_step)

lemma rr_add_nth: "length ps = length ws \<Longrightarrow> j < length ws \<Longrightarrow> rr_add ws ps ! j = ps ! j + ws ! j"
  by (simp add: rr_add_def)

text \<open>The chosen priority is at least the average, so it does not fall below minus the total.\<close>

lemma rr_winner_positive:
  assumes "length ps = length ws" and "ws \<noteq> []" and "0 \<le> sum_list ps" and "0 < sum_list ws"
  shows "0 < rr_add ws ps ! rr_winner ws ps"
proof (rule ccontr)
  assume "\<not> ?thesis"
  then have "x \<le> 0" if "x \<in> set (rr_add ws ps)" for x
    using first_max_ge [OF that] by (simp add: rr_winner_def)
  then have "sum_list (rr_add ws ps) \<le> int (length (rr_add ws ps)) * 0" by (rule sum_le_length_mult)
  then show False using assms by (simp add: sum_rr_add)
qed

lemma rr_step_lower:
  assumes len: "length ps = length ws" and ne: "ws \<noteq> []"
    and sum: "0 \<le> sum_list ps" and T: "0 < sum_list ws" and ws: "\<And>w. w \<in> set ws \<Longrightarrow> 0 \<le> w"
    and low: "\<And>p. p \<in> set ps \<Longrightarrow> - 2 * sum_list ws \<le> p"
    and p: "p \<in> set (rr_step ws ps)"
  shows "- 2 * sum_list ws \<le> p"
proof -
  let ?qs = "rr_add ws ps"
  obtain j where j: "j < length ws" and pj: "p = rr_step ws ps ! j"
    using p len by (metis in_set_conv_nth length_rr(2))
  show ?thesis
  proof (cases "j = rr_winner ws ps")
    case True
    then have "p = ?qs ! rr_winner ws ps - sum_list ws"
      using j len by (simp add: pj rr_step_def rr_winner_def Let_def)
    then show ?thesis using rr_winner_positive [OF len ne sum T] T by simp
  next
    case False
    then have "p = ps ! j + ws ! j"
      using j len by (simp add: pj rr_step_def rr_winner_def Let_def rr_add_nth)
    moreover have "- 2 * sum_list ws \<le> ps ! j" "0 \<le> ws ! j" using j len low ws by simp_all
    ultimately show ?thesis by simp
  qed
qed

lemma rr_iterate_lower:
  assumes len: "length ps = length ws" and ne: "ws \<noteq> []"
    and sum: "0 \<le> sum_list ps" and T: "0 < sum_list ws" and ws: "\<And>w. w \<in> set ws \<Longrightarrow> 0 \<le> w"
    and low: "\<And>p. p \<in> set ps \<Longrightarrow> - 2 * sum_list ws \<le> p"
  shows "p \<in> set ((rr_step ws ^^ k) ps) \<Longrightarrow> - 2 * sum_list ws \<le> p"
proof (induction k arbitrary: p)
  case (Suc k)
  show ?case
    by (rule rr_step_lower [of "(rr_step ws ^^ k) ps" ws])
       (use Suc len ne sum T ws in \<open>auto simp: sum_rr_iterate\<close>)
qed (use low in auto)

text \<open>With a fixed sum and a lower bound, no priority can grow without end.\<close>

lemma nth_le_sum_bound:
  assumes "j < length xs" and low: "\<And>x. x \<in> set xs \<Longrightarrow> - m \<le> (x :: int)"
  shows "xs ! j \<le> sum_list xs + (int (length xs) - 1) * m"
proof -
  have "sum_list (xs[j := - m]) = sum_list xs - xs ! j - m" using assms(1) by (simp add: sum_list_upd)
  moreover have "int (length (xs[j := - m])) * (- m) \<le> sum_list (xs[j := - m])"
  proof (rule length_mult_le_sum)
    fix x assume "x \<in> set (xs[j := - m])"
    then have "x = - m \<or> x \<in> set xs" by (meson in_mono insertE set_update_subset_insert)
    then show "- m \<le> x" using low by auto
  qed
  ultimately show ?thesis by (simp add: algebra_simps)
qed

lemma rr_unchosen_grows:
  assumes len: "length ps = length ws" and j: "j < length ws"
  shows "(\<And>i. i < k \<Longrightarrow> rr_winner ws ((rr_step ws ^^ i) ps) \<noteq> j) \<Longrightarrow>
         (rr_step ws ^^ k) ps ! j = ps ! j + int k * ws ! j"
proof (induction k)
  case (Suc k)
  let ?ps = "(rr_step ws ^^ k) ps"
  have "rr_winner ws ?ps \<noteq> j" using Suc.prems by simp
  then have "rr_step ws ?ps ! j = ?ps ! j + ws ! j"
    using j len by (simp add: rr_step_def rr_winner_def Let_def rr_add_nth)
  then show ?case using Suc by (simp add: algebra_simps)
qed simp

theorem rr_rotates:
  assumes len: "length ps = length ws" and j: "j < length ws" and pos: "0 < ws ! j"
    and ws: "\<And>w. w \<in> set ws \<Longrightarrow> 0 \<le> w"
    and low: "\<And>p. p \<in> set ps \<Longrightarrow> - 2 * sum_list ws \<le> p"
    and sum: "0 \<le> sum_list ps" "sum_list ps < int (length ps)"
    and R: "int (length ws) * (2 * sum_list ws + 1) \<le> int R * ws ! j"
  shows "\<exists>k < R. rr_winner ws ((rr_step ws ^^ k) ps) = j"
proof (rule ccontr)
  assume none: "\<not> ?thesis"
  have ne: "ws \<noteq> []" using j by auto
  have T: "0 < sum_list ws"
    using nth_le_sum_bound [of j ws 0] pos j ws by simp
  let ?qs = "(rr_step ws ^^ R) ps"
  have "?qs ! j = ps ! j + int R * ws ! j" by (rule rr_unchosen_grows [OF len j]) (use none in auto)
  moreover have "?qs ! j \<le> sum_list ?qs + (int (length ?qs) - 1) * (2 * sum_list ws)"
  proof (rule nth_le_sum_bound)
    show "j < length ?qs" using len j by simp
    show "- (2 * sum_list ws) \<le> x" if "x \<in> set ?qs" for x
      using rr_iterate_lower [OF len ne sum(1) T ws low that] by simp
  qed
  moreover have "- 2 * sum_list ws \<le> ps ! j" using low len j by simp
  ultimately show False using R sum(2) len by (simp add: sum_rr_iterate [OF len ne] algebra_simps)
qed

section \<open>Rescaling and centring\<close>

lemma Quo_mono:
  assumes "0 < r" and "x \<le> y"
  shows "Quo x r \<le> Quo y r"
proof (cases "x < 0 \<and> 0 \<le> y")
  case True
  then have "0 \<le> - x div r" "0 \<le> y div r" using assms by (simp_all add: pos_imp_zdiv_nonneg_iff)
  then show ?thesis using True by (simp add: Quo_def)
next
  case False
  then show ?thesis using assms zdiv_mono1 [of x y r] zdiv_mono1 [of "- y" "- x" r] by (auto simp: Quo_def)
qed

lemma div_diff_le: "0 < r \<Longrightarrow> x \<le> y + r * D \<Longrightarrow> x div r \<le> y div r + (D :: int)"
  using zdiv_mono1 [of x "y + r * D" r] by simp

lemma Quo_diff:
  assumes r: "0 < r" and xy: "y \<le> x" and D: "x - y \<le> r * D"
  shows "Quo x r - Quo y r \<le> D"
proof -
  consider "0 \<le> y" | "y < 0" "0 \<le> x" | "x < 0" by linarith
  then show ?thesis
  proof cases
    case 1
    then show ?thesis using div_diff_le [of r x y D] r xy D by (simp add: Quo_def)
  next
    case 2
    have "r * (x div r) + r * (- y div r) \<le> x + - y"
      using r by (intro add_mono) (simp_all add: minus_mod_eq_mult_div [symmetric])
    then have "r * (x div r + - y div r) \<le> r * D" using D by (simp add: distrib_left)
    then show ?thesis using 2 r by (simp add: Quo_def)
  next
    case 3
    then show ?thesis using div_diff_le [of r "- y" "- x" D] r xy D by (simp add: Quo_def)
  qed
qed

lemma spread_mono_map:
  assumes "ps \<noteq> []" and "mono f"
  shows "spread (map f ps) = f (Max (set ps)) - f (Min (set ps))"
  using assms by (simp add: spread_def mono_Max_commute mono_Min_commute)

lemma Min_le_Max: "ps \<noteq> [] \<Longrightarrow> Min (set ps) \<le> Max (set (ps :: int list))"
  by (meson List.finite_set Max_ge Min_in set_empty)

lemma spread_scale:
  assumes T: "0 < T" and ne: "ps \<noteq> []"
  shows "spread (rr_scale T ps) \<le> 2 * T"
proof (cases "spread ps > 2 * T")
  case True
  let ?r = "BigIntDivCeil (spread ps) (2 * T)"
  have le: "spread ps \<le> 2 * T * ?r" using BigIntDivCeil_bounds(2) [of "2 * T" "spread ps"] T by simp
  then have "0 < 2 * T * ?r" using True T by linarith
  then have r: "0 < ?r" using T by (simp add: zero_less_mult_iff)
  have "spread (rr_scale T ps) = Quo (Max (set ps)) ?r - Quo (Min (set ps)) ?r"
    using True r by (simp add: rr_scale_def spread_mono_map [OF ne] mono_def Quo_mono)
  also have "\<dots> \<le> 2 * T"
    by (rule Quo_diff [OF r Min_le_Max [OF ne]]) (use le in \<open>simp add: spread_def mult.commute\<close>)
  finally show ?thesis .
qed (simp add: rr_scale_def)

lemma spread_centre: "ps \<noteq> [] \<Longrightarrow> spread (rr_centre ps) = spread ps"
  unfolding rr_centre_def by (subst spread_mono_map) (auto simp: mono_def spread_def)

lemma sum_map_minus: "sum_list (map (\<lambda>p. p - c) ps) = sum_list ps - int (length ps) * (c :: int)"
  by (induction ps) (simp_all add: algebra_simps)

lemma sum_centre: "sum_list (rr_centre ps) = sum_list ps mod int (length ps)"
  by (simp add: rr_centre_def sum_map_minus minus_mult_div_eq_mod)

lemma sum_normal:
  assumes "ps \<noteq> []"
  shows "0 \<le> sum_list (rr_normal T ps)" and "sum_list (rr_normal T ps) < int (length ps)"
  using assms by (simp_all add: rr_normal_def sum_centre)

lemma spread_normal: "0 < T \<Longrightarrow> ps \<noteq> [] \<Longrightarrow> spread (rr_normal T ps) \<le> 2 * T"
  by (simp add: rr_normal_def spread_centre spread_scale)

lemma rr_normal_idem:
  assumes "0 < T" and "ps \<noteq> []"
  shows "rr_normal T (rr_normal T ps) = rr_normal T ps"
proof -
  have "rr_scale T (rr_normal T ps) = rr_normal T ps"
    using spread_normal [OF assms] by (simp add: rr_scale_def)
  moreover have "rr_centre (rr_normal T ps) = rr_normal T ps"
    using sum_normal [OF assms(2), of T] by (simp add: rr_centre_def)
  ultimately show ?thesis by (simp add: rr_normal_def)
qed

lemma rr_normal_lower:
  assumes T: "0 < T" and p: "p \<in> set (rr_normal T ps)"
  shows "- 2 * T \<le> p"
proof -
  let ?qs = "rr_normal T ps"
  have ne: "ps \<noteq> []" using p by (auto simp: rr_normal_def rr_centre_def rr_scale_def)
  have "0 \<le> Max (set ?qs)"
  proof (rule ccontr)
    assume "\<not> ?thesis"
    then have "sum_list ?qs \<le> int (length ?qs) * (- 1)"
      by (intro sum_le_length_mult) (metis List.finite_set Max_ge linorder_not_less zle_diff1_eq diff_0 order_trans)
    moreover have "0 < length ps" using ne by simp
    ultimately show False using sum_normal(1) [OF ne, of T] by simp
  qed
  moreover have "Min (set ?qs) \<le> p" using p by simp
  ultimately show ?thesis using spread_normal [OF T ne] by (simp add: spread_def)
qed

section \<open>The calculator implements the round robin\<close>

definition prios :: "store \<Rightarrow> 'k PrioritizedValidator list \<Rightarrow> int list" where
  "prios h vs = map (prio h) vs"

definition powers :: "'k PrioritizedValidator list \<Rightarrow> int list" where
  "powers vs = map (\<lambda>v. vpower v) vs"

text \<open>Every validator has a priority of its own, and the pointers are valid.\<close>

definition snap_ok :: "store \<Rightarrow> 'k PrioritizedValidator list \<Rightarrow> bool" where
  "snap_ok h vs \<longleftrightarrow> distinct (map ProposerPriority vs) \<and> (\<forall>v \<in> set vs. ProposerPriority v < length h)"

lemma length_prios [simp]: "length (prios h vs) = length vs" "length (powers vs) = length vs"
  by (simp_all add: prios_def powers_def)

lemma prios_Nil_iff [simp]: "prios h vs = [] \<longleftrightarrow> vs = []" "powers vs = [] \<longleftrightarrow> vs = []"
  by (simp_all add: prios_def powers_def)

lemma GetTotalVotingPower_sum: "GetTotalVotingPower s = sum_list (powers (Validators s))"
proof -
  have "fold (\<lambda>v t. t + vpower v) vs t = t + sum_list (powers vs)" for vs :: "'a PrioritizedValidator list" and t
    by (induction vs arbitrary: t) (simp_all add: powers_def)
  then show ?thesis by (simp add: GetTotalVotingPower_def)
qed

text \<open>A loop that changes every priority in place.\<close>

definition in_place :: "(int \<Rightarrow> int) \<Rightarrow> 'k PrioritizedValidator list \<Rightarrow> store \<Rightarrow> store" where
  "in_place f vs h = fold (\<lambda>v h. h[ProposerPriority v := f (prio h v)]) vs h"

lemma in_place_simps [simp]:
  "in_place f [] h = h"
  "in_place f (v # vs) h = in_place f vs (h[ProposerPriority v := f (prio h v)])"
  by (simp_all add: in_place_def)

lemma in_place_other: "p \<notin> ProposerPriority ` set vs \<Longrightarrow> in_place f vs h ! p = h ! p"
  by (induction vs arbitrary: h) auto

lemma length_in_place [simp]: "length (in_place f vs h) = length h"
  by (induction vs arbitrary: h) auto

lemma in_place_prios: "snap_ok h vs \<Longrightarrow> prios (in_place f vs h) vs = map f (prios h vs)"
proof (induction vs arbitrary: h)
  case (Cons v vs)
  let ?h = "h[ProposerPriority v := f (prio h v)]"
  have ok: "snap_ok ?h vs" and fresh: "ProposerPriority v \<notin> ProposerPriority ` set vs"
    and v: "ProposerPriority v < length h"
    using Cons.prems by (auto simp: snap_ok_def)
  have "prios ?h vs = prios h vs" 
    unfolding prios_def by (rule map_cong) (use fresh in \<open>auto, metis imageI nth_list_update_neq\<close>)
  then show ?case using Cons.IH [OF ok] v fresh by (simp add: prios_def in_place_other)
qed (simp add: prios_def)

lemma fold_prio_sum: "fold (\<lambda>v sum. sum + prio h v) vs t = t + sum_list (prios h vs)"
  by (induction vs arbitrary: t) (simp_all add: prios_def)

lemma shift_centre:
  assumes "snap_ok h (Validators s)" and "Validators s \<noteq> []"
  obtains h' where "shiftByAvgProposerPriority s h = Inr h'" and "length h' = length h"
    and "prios h' (Validators s) = rr_centre (prios h (Validators s))"
proof -
  let ?avg = "sum_list (prios h (Validators s)) div int (length (Validators s))"
  have "shiftByAvgProposerPriority s h = Inr (in_place (\<lambda>p. p - ?avg) (Validators s) h)"
    using assms(2) by (simp add: shiftByAvgProposerPriority_def computeAvgProposerPriority_def
        fold_prio_sum big_Div_def in_place_def)
  from that [OF this] show thesis using assms(1) by (simp add: in_place_prios rr_centre_def)
qed

lemma minmax_fold:
  "lo \<le> hi \<Longrightarrow>
   fold (\<lambda>v (lo, hi). (if prio h v < lo then prio h v else lo, if prio h v > hi then prio h v else hi)) vs (lo, hi)
   = (Min (set (lo # prios h vs)), Max (set (hi # prios h vs)))"
proof (induction vs arbitrary: lo hi)
  case (Cons v vs)
  let ?lo = "if prio h v < lo then prio h v else lo" and ?hi = "if prio h v > hi then prio h v else hi"
  have "?lo \<le> ?hi" using Cons.prems by simp
  note IH = Cons.IH [OF this]
  have "Min (set (?lo # prios h vs)) = Min (set (lo # prios h (v # vs)))"
    by (cases "vs = []") (auto simp: prios_def min_def)
  moreover have "Max (set (?hi # prios h vs)) = Max (set (hi # prios h (v # vs)))"
    by (cases "vs = []") (auto simp: prios_def max_def)
  ultimately show ?case using IH by simp
qed (simp add: prios_def)

lemma MaxMinDiff_spread:
  assumes "vs \<noteq> []"
  shows "computeMaxMinPriorityDiff h vs = Some (spread (prios h vs))"
proof (cases vs)
  case (Cons v vs')
  have "\<not> spread (prios h vs) < 0"
    unfolding spread_def using Min_le_Max [of "prios h vs"] assms by (metis diff_ge_0_iff_ge leD prios_Nil_iff(1))
  moreover have "prios h vs = prio h v # prios h vs'" by (simp add: Cons prios_def)
  ultimately show ?thesis
    by (simp add: Cons computeMaxMinPriorityDiff_def minmax_fold spread_def Let_def)
qed (use assms in simp)

lemma rescale_scale:
  assumes "snap_ok h (Validators s)" and "Validators s \<noteq> []" and "T \<noteq> 0"
  obtains h' where "rescalePriorities s T h = Some (Inr h')" and "length h' = length h"
    and "prios h' (Validators s) = rr_scale T (prios h (Validators s))"
proof -
  let ?sp = "spread (prios h (Validators s))"
  have "rescalePriorities s T h =
      Some (Inr (if ?sp > 2 * T then in_place (\<lambda>p. Quo p (BigIntDivCeil ?sp (2 * T))) (Validators s) h else h))"
    using assms(2,3) by (simp add: rescalePriorities_def MaxMinDiff_spread in_place_def)
  from that [OF this] show thesis using assms(1) by (simp add: in_place_prios rr_scale_def split: if_splits)
qed

lemma updateWithChangeSet_normal:
  assumes "snap_ok h (Validators s)" and "Validators s \<noteq> []" and "T \<noteq> 0"
  obtains h' where "updateWithChangeSet s T h = Some (Inr h')" and "length h' = length h"
    and "prios h' (Validators s) = rr_normal T (prios h (Validators s))"
proof -
  obtain h1 where 1: "rescalePriorities s T h = Some (Inr h1)" "length h1 = length h"
    "prios h1 (Validators s) = rr_scale T (prios h (Validators s))"
    using rescale_scale [OF assms] .
  have "snap_ok h1 (Validators s)" using assms(1) 1(2) by (simp add: snap_ok_def)
  then obtain h2 where "shiftByAvgProposerPriority s h1 = Inr h2" "length h2 = length h1"
    "prios h2 (Validators s) = rr_centre (prios h1 (Validators s))"
    using shift_centre assms(2) by blast
  then show thesis using 1 by (intro that) (simp_all add: updateWithChangeSet_def rr_normal_def)
qed

section \<open>One increment, a round, the proposer\<close>

lemma add_powers_eq:
  "(\<And>v. v \<in> set vs \<Longrightarrow> ProposerPriority v < length h) \<Longrightarrow>
   add_powers vs h =
     (map2 (\<lambda>v p. v\<lparr>ProposerPriority := p\<rparr>) vs [length h ..< length h + length vs],
      h @ map (\<lambda>v. prio h v + vpower v) vs)"
proof (induction vs arbitrary: h)
  case (Cons v vs)
  let ?h = "h @ [prio h v + vpower v]"
  have "[length h ..< length h + length (v # vs)] = length h # [length ?h ..< length ?h + length vs]"
    by (simp add: upt_conv_Cons del: upt_Suc)
  moreover have "add_powers vs ?h =
      (map2 (\<lambda>v p. v\<lparr>ProposerPriority := p\<rparr>) vs [length ?h ..< length ?h + length vs],
       ?h @ map (\<lambda>v. prio h v + vpower v) vs)"
    using Cons.prems by (subst Cons.IH) (auto simp: nth_append less_SucI)
  ultimately show ?case by (simp add: new_Int_def del: upt_Suc)
qed simp

lemma add_powers_law:
  assumes ok: "snap_ok h vs" and eq: "add_powers vs h = (vs', h')"
  shows "map Metadata vs' = map Metadata vs" and "snap_ok h' vs'"
    and "prios h' vs' = rr_add (powers vs) (prios h vs)"
    and "length h \<le> length h'" and "q < length h \<Longrightarrow> h' ! q = h ! q"
    and "v \<in> set vs' \<Longrightarrow> length h \<le> ProposerPriority v"
proof -
  have eqs: "vs' = map2 (\<lambda>v p. v\<lparr>ProposerPriority := p\<rparr>) vs [length h ..< length h + length vs]"
    "h' = h @ map (\<lambda>v. prio h v + vpower v) vs"
    using eq ok add_powers_eq [of vs h] by (auto simp: snap_ok_def)
  have ptrs: "map ProposerPriority vs' = [length h ..< length h + length vs]"
    by (rule nth_equalityI) (simp_all add: eqs)
  show "map Metadata vs' = map Metadata vs" by (rule nth_equalityI) (simp_all add: eqs)
  have mem: "length h \<le> ProposerPriority v \<and> ProposerPriority v < length h + length vs" if "v \<in> set vs'" for v
    using that ptrs by (metis atLeastLessThan_iff image_eqI list.set_map set_upt)
  show "snap_ok h' vs'" using mem by (simp add: snap_ok_def ptrs) (simp add: eqs)
  show "prios h' vs' = rr_add (powers vs) (prios h vs)"
    by (rule nth_equalityI) (simp_all add: prios_def powers_def rr_add_def eqs)
  show "length h \<le> length h'" "q < length h \<Longrightarrow> h' ! q = h ! q" by (simp_all add: eqs nth_append)
  show "v \<in> set vs' \<Longrightarrow> length h \<le> ProposerPriority v" using mem by simp
qed

text \<open>With a priority of its own for every validator the comparison of pointers never holds.\<close>

lemma best_fold:
  "distinct (map ProposerPriority (r # vs)) \<Longrightarrow>
   fold (\<lambda>curr result. if isBetterProposer h curr result then Some curr else result) vs (Some r)
   = Some ((r # vs) ! first_max (prios h (r # vs)))"
proof (induction vs arbitrary: r)
  case (Cons v vs)
  let ?r = "if prio h v > prio h r then v else r"
  have step: "(if isBetterProposer h v (Some r) then Some v else Some r) = Some ?r"
    using Cons.prems by (simp add: isBetterProposer_def)
  have "distinct (map ProposerPriority (?r # vs))" using Cons.prems by simp
  note IH = Cons.IH [OF this]
  show ?case
  proof (cases "prio h v > prio h r")
    case True
    have "prio h v \<le> prios h (v # vs) ! first_max (prios h (v # vs))"
      by (rule first_max_ge) (simp add: prios_def)
    then have "first_max (prios h (r # v # vs)) = Suc (first_max (prios h (v # vs)))"
      using True by (simp add: prios_def Let_def)
    then show ?thesis using IH step True by simp
  next
    case False
    have "(r # v # vs) ! first_max (prios h (r # v # vs)) = (r # vs) ! first_max (prios h (r # vs))"
      using False by (cases vs) (auto simp: prios_def Let_def)
    then show ?thesis using IH step False by simp
  qed
qed (simp add: prios_def)

lemma most_priority_first_max:
  assumes "snap_ok h (Validators s)" and "Validators s \<noteq> []"
  shows "getValWithMostPriority h s = Inr (Validators s ! first_max (prios h (Validators s)))"
proof (cases "Validators s")
  case (Cons v vs)
  have "distinct (map ProposerPriority (v # vs))" using assms(1) Cons by (simp add: snap_ok_def)
  then show ?thesis using best_fold [of v vs h]
    by (simp add: getValWithMostPriority_def Cons isBetterProposer_def)
qed (use assms in simp)

lemma prios_update:
  assumes "snap_ok h vs" and "i < length vs"
  shows "prios (h[ProposerPriority (vs ! i) := x]) vs = (prios h vs)[i := x]"
proof (rule nth_equalityI)
  fix j assume "j < length (prios (h[ProposerPriority (vs ! i) := x]) vs)"
  then have j: "j < length vs" by simp
  have "ProposerPriority (vs ! i) = ProposerPriority (vs ! j) \<longleftrightarrow> i = j"
    using assms j by (simp add: snap_ok_def distinct_conv_nth) metis
  moreover have "ProposerPriority (vs ! i) < length h" using assms by (simp add: snap_ok_def)
  ultimately show "prios (h[ProposerPriority (vs ! i) := x]) vs ! j = (prios h vs)[i := x] ! j"
    using j by (simp add: prios_def nth_list_update)
qed simp

definition same_validators :: "store \<Rightarrow> 'k PrioritizedValidator list \<Rightarrow> store \<Rightarrow> 'k PrioritizedValidator list \<Rightarrow> bool" where
  "same_validators h vs h' vs' \<longleftrightarrow>
     map Metadata vs' = map Metadata vs \<and> snap_ok h' vs' \<and> length h \<le> length h' \<and>
     (\<forall>q < length h. h' ! q = h ! q)"

lemma increment_step:
  fixes s :: "'k ProposerSnapshot"
  defines "vs \<equiv> Validators s"
  assumes ok: "snap_ok h vs" and ne: "vs \<noteq> []"
  obtains p vs' h' where
    "incrementProposerPriority s (sum_list (powers vs)) h = (Inr p, s\<lparr>Validators := vs'\<rparr>, h')"
    and "same_validators h vs h' vs'"
    and "Metadata p = Metadata (vs ! rr_winner (powers vs) (prios h vs))"
    and "prios h' vs' = rr_step (powers vs) (prios h vs)"
proof -
  obtain vs' h1 where eq: "add_powers vs h = (vs', h1)" by fastforce
  note law = add_powers_law [OF ok eq]
  have len: "length vs' = length vs" using law(1) by (metis length_map)
  define i where "i = rr_winner (powers vs) (prios h vs)"
  have i: "i < length vs"
    using first_max_less [of "rr_add (powers vs) (prios h vs)"] ne
    by (metis i_def rr_winner_def length_0_conv length_prios length_rr(1))
  have ne': "vs' \<noteq> []" using len ne by auto
  have most: "getValWithMostPriority h1 (s\<lparr>Validators := vs'\<rparr>) = Inr (vs' ! i)"
    using most_priority_first_max [of h1 "s\<lparr>Validators := vs'\<rparr>"] law(2,3) ne'
    by (simp add: i_def rr_winner_def)
  let ?h = "h1[ProposerPriority (vs' ! i) := prio h1 (vs' ! i) - sum_list (powers vs)]"
  have "same_validators h vs ?h vs'"
    using law len i by (auto simp: same_validators_def snap_ok_def nth_list_update leD)
  moreover have "Metadata (vs' ! i) = Metadata (vs ! i)" using law(1) i len by (metis nth_map)
  moreover have "prios ?h vs' = rr_step (powers vs) (prios h vs)"
  proof -
    have "prio h1 (vs' ! i) = rr_add (powers vs) (prios h vs) ! i"
      using law(3) i len by (metis nth_map prios_def)
    then show ?thesis
      using prios_update [OF law(2)] i len
      by (simp add: law(3) rr_step_def Let_def) (simp add: i_def rr_winner_def)
  qed
  ultimately show thesis
    using that [of "vs' ! i" vs' ?h] most eq
    by (simp add: incrementProposerPriority_def vs_def i_def)
qed

lemma same_validators_trans:
  "same_validators h vs h' vs' \<Longrightarrow> same_validators h' vs' h'' vs'' \<Longrightarrow> same_validators h vs h'' vs''"
  by (auto simp: same_validators_def)

lemma same_validators_metadata:
  assumes "same_validators h vs h' vs'"
  shows "powers vs' = powers vs" and "length vs' = length vs"
    and "i < length vs \<Longrightarrow> Metadata (vs' ! i) = Metadata (vs ! i)"
proof -
  have eq: "map Metadata vs' = map Metadata vs" using assms by (simp add: same_validators_def)
  show "length vs' = length vs" using eq by (metis length_map)
  then show "i < length vs \<Longrightarrow> Metadata (vs' ! i) = Metadata (vs ! i)" using eq by (metis nth_map)
  have "map v_VotingPower (map Metadata vs') = map v_VotingPower (map Metadata vs)" by (simp only: eq)
  then show "powers vs' = powers vs" by (simp add: powers_def comp_def)
qed

lemma rr_winner_less:
  assumes "length ps = length ws" and "ws \<noteq> []"
  shows "rr_winner ws ps < length ws"
  using first_max_less [of "rr_add ws ps"] assms by (metis length_0_conv length_rr(1) rr_winner_def)

lemma increment_loop_law:
  fixes s :: "'k ProposerSnapshot"
  assumes "snap_ok h (Validators s)" and "Validators s \<noteq> []"
  shows "\<exists>p vs' h'. increment_loop k s (sum_list (powers (Validators s))) h = (Inr p, s\<lparr>Validators := vs'\<rparr>, h') \<and>
    same_validators h (Validators s) h' vs' \<and>
    Metadata p = Metadata (Validators s ! rr_winner (powers (Validators s))
      ((rr_step (powers (Validators s)) ^^ k) (prios h (Validators s))))"
  using assms
proof (induction k arbitrary: s h)
  case 0
  then show ?case using increment_step [OF 0] by (metis funpow_0 increment_loop.simps(1))
next
  case (Suc k)
  let ?vs = "Validators s"
  obtain p vs' h' where 1: "incrementProposerPriority s (sum_list (powers ?vs)) h = (Inr p, s\<lparr>Validators := vs'\<rparr>, h')"
    "same_validators h ?vs h' vs'" "prios h' vs' = rr_step (powers ?vs) (prios h ?vs)"
    using increment_step [OF Suc.prems] by metis
  note meta = same_validators_metadata [OF 1(2)]
  have "snap_ok h' (Validators (s\<lparr>Validators := vs'\<rparr>))" "Validators (s\<lparr>Validators := vs'\<rparr>) \<noteq> []"
    using 1(2) meta(2) Suc.prems(2) by (auto simp: same_validators_def)
  from Suc.IH [OF this] obtain p' vs'' h'' where
    2: "increment_loop k (s\<lparr>Validators := vs'\<rparr>) (sum_list (powers ?vs)) h' = (Inr p', s\<lparr>Validators := vs''\<rparr>, h'')"
      "same_validators h' vs' h'' vs''"
      "Metadata p' = Metadata (vs' ! rr_winner (powers ?vs) ((rr_step (powers ?vs) ^^ k) (prios h' vs')))"
    using meta(1) by auto
  have "rr_winner (powers ?vs) ((rr_step (powers ?vs) ^^ k) (prios h' vs')) < length ?vs"
    using rr_winner_less [of _ "powers ?vs"] Suc.prems(2) meta(2) by (metis length_0_conv length_prios length_rr_iterate)
  then show ?case using 1 2 same_validators_trans [OF 1(2) 2(2)] meta(3)
    by (intro exI [of _ p'] exI [of _ vs''] exI [of _ h'']) (simp add: funpow_swap1)
qed

text \<open>Keys that survive encoding and decoding, as the keys of a registered validator do.\<close>

definition keys_ok :: "'k BlsLib \<Rightarrow> 'k PrioritizedValidator list \<Rightarrow> bool" where
  "keys_ok B vs \<longleftrightarrow>
     (\<forall>v \<in> set vs. \<exists>k. v_BlsKey (Metadata v) = Some k \<and> UnmarshalPublicKey B (g2_Marshal B k) = Some k)"

lemma copy_validators_id: "keys_ok B vs \<Longrightarrow> copy_validators B vs = Some vs"
  by (induction vs) (auto simp: keys_ok_def ValidatorMetadata_Copy_def BytesToAddress_Address_Bytes)

definition chosen :: "store \<Rightarrow> 'k PrioritizedValidator list \<Rightarrow> nat \<Rightarrow> nat" where
  "chosen h vs k =
     (let ws = powers vs in rr_winner ws ((rr_step ws ^^ k) (rr_normal (sum_list ws) (prios h vs))))"

theorem CalcProposer_law:
  fixes pcs :: "'k ProposerSnapshot"
  defines "vs \<equiv> Validators pcs"
  assumes ok: "snap_ok h vs" and ne: "vs \<noteq> []" and keys: "keys_ok B vs"
    and T: "sum_list (powers vs) \<noteq> 0" and round: "round + 1 \<noteq> 0"
    and uncached: "Proposer pcs = None \<or> Round pcs \<noteq> round"
  shows "\<exists>p h'. CalcProposer B pcs round (Height pcs) h =
      Some (Inr (v_Address (Metadata p)), pcs\<lparr>Proposer := Some p, Round := round\<rparr>, h') \<and>
    Metadata p = Metadata (vs ! chosen h vs (unat round)) \<and>
    snap_ok h' vs \<and> prios h' vs = rr_normal (sum_list (powers vs)) (prios h vs)"
proof -
  define c where "c = \<lparr>Height = Height pcs, Round = Round pcs,
    Proposer = copied_proposer (Proposer pcs) (zip vs vs), Validators = vs\<rparr>"
  have copy: "Snapshot_Copy B pcs = Some c"
    using copy_validators_id [OF keys] by (simp add: Snapshot_Copy_def c_def vs_def)
  have c: "Validators c = vs" by (simp add: c_def)
  obtain h1 where 1: "updateWithChangeSet c (sum_list (powers vs)) h = Some (Inr h1)" "length h1 = length h"
    "prios h1 vs = rr_normal (sum_list (powers vs)) (prios h vs)"
    using updateWithChangeSet_normal [of h c] ok ne T c by metis
  have ok1: "snap_ok h1 vs" using ok 1(2) by (simp add: snap_ok_def)
  have k: "unat (round + 1) - 1 = unat round" using round unatSuc [of round] by (simp add: add.commute)
  obtain p vs' h' where 2: "increment_loop (unat round) c (sum_list (powers vs)) h1 = (Inr p, c\<lparr>Validators := vs'\<rparr>, h')"
    "same_validators h1 vs h' vs'" "Metadata p = Metadata (vs ! chosen h vs (unat round))"
    using increment_loop_law [of h1 c "unat round"] ok1 ne c 1(3) by (auto simp: chosen_def Let_def)
  have "incrementProposerPriorityNTimes c (round + 1) h =
      Some (Inr p, c\<lparr>Validators := vs', Proposer := Some p, Round := round\<rparr>, h')"
    using ne round 1(1) 2(1) k
    by (simp add: incrementProposerPriorityNTimes_def c GetTotalVotingPower_sum word_le_0_iff)
  then have "CalcProposer B pcs round (Height pcs) h =
      Some (Inr (v_Address (Metadata p)), pcs\<lparr>Proposer := Some p, Round := round\<rparr>, h')"
    using uncached by (auto simp: CalcProposer_def copy)
  moreover have "snap_ok h' vs" using ok1 2(2) by (auto simp: snap_ok_def same_validators_def)
  moreover have "prios h' vs = prios h1 vs" using ok1 2(2) by (auto simp: snap_ok_def same_validators_def prios_def)
  ultimately show ?thesis using 1(3) 2(3) by (intro exI [of _ p] exI [of _ h']) simp
qed

text \<open>The positions chosen are those of the abstract round robin, and a choice leaves them as they are.\<close>

lemma chosen_less: "vs \<noteq> [] \<Longrightarrow> chosen h vs k < length vs"
  using rr_winner_less [of "(rr_step (powers vs) ^^ k) (rr_normal (sum_list (powers vs)) (prios h vs))" "powers vs"]
  by (simp add: chosen_def Let_def)

lemma chosen_normal:
  assumes "prios h' vs = rr_normal (sum_list (powers vs)) (prios h vs)"
    and "vs \<noteq> []" and "0 < sum_list (powers vs)"
  shows "chosen h' vs k = chosen h vs k"
  using assms by (simp add: chosen_def rr_normal_idem)

lemma power_le_total:
  assumes ws: "\<And>w. w \<in> set vs \<Longrightarrow> 0 \<le> vpower w" and v: "v \<in> set vs"
  shows "vpower v \<le> sum_list (powers vs)"
  unfolding powers_def by (rule member_le_sum_list) (use ws v in auto)

theorem chosen_rotates:
  assumes v: "v \<in> set vs" and pos: "0 < vpower v" and ws: "\<And>w. w \<in> set vs \<Longrightarrow> 0 \<le> vpower w"
    and R: "int (length vs) * (2 * sum_list (powers vs) + 1) \<le> int R * vpower v"
  obtains k where "k < R" and "vs ! chosen h vs k = v"
proof -
  let ?ws = "powers vs" and ?ps = "rr_normal (sum_list (powers vs)) (prios h vs)"
  obtain j where j: "j < length vs" "vs ! j = v" using v by (metis in_set_conv_nth)
  have wj: "?ws ! j = vpower v" using j by (simp add: powers_def)
  have ne: "vs \<noteq> []" using v by auto
  have nonneg: "0 \<le> w" if "w \<in> set ?ws" for w using that ws by (auto simp: powers_def)
  have T: "0 < sum_list ?ws" using power_le_total [OF ws v] pos by simp
  have "\<exists>k < R. rr_winner ?ws ((rr_step ?ws ^^ k) ?ps) = j"
  proof (rule rr_rotates)
    show "0 \<le> sum_list ?ps" "sum_list ?ps < int (length ?ps)"
      using sum_normal [of "prios h vs" "sum_list ?ws"] ne by simp_all
    show "- 2 * sum_list ?ws \<le> p" if "p \<in> set ?ps" for p using rr_normal_lower [OF T that] .
  qed (use j wj pos nonneg R in simp_all)
  then show thesis using that j(2) by (auto simp: chosen_def Let_def)
qed

end
