(* ===== verification/Proposer_Properties.thy ===== *)
theory Proposer_Properties
  imports Proposer_Laws
begin

text \<open>
  What the proposer calculator promises: every validator with voting power proposes
  within a bounded number of rounds, the answer for a round does not depend on the rounds
  asked for before, and ties go to the validator that comes first in the set.
\<close>

section \<open>A concrete validator set\<close>

definition unit_bls :: "unit BlsLib" where
  "unit_bls = \<lparr>g2_Marshal = (\<lambda>_. replicate 128 0), g2_Unmarshal = (\<lambda>_. Some ()),
     g2_IsInfinity = (\<lambda>_. False), g2_InCorrectSubgroup = (\<lambda>_. True)\<rparr>"

definition sample_validator :: "address \<Rightarrow> int \<Rightarrow> unit ValidatorMetadata" where
  "sample_validator a p = \<lparr>v_Address = a, v_BlsKey = Some (), v_VotingPower = p, v_IsActive = True\<rparr>"

definition sample_snapshot :: "unit ProposerSnapshot" where
  "sample_snapshot = fst (NewProposerSnapshot 1 [sample_validator 2 1, sample_validator 1 1] [])"

lemma sample_snapshot_eq:
  "sample_snapshot = \<lparr>Height = 1, Round = 0, Proposer = None,
     Validators = [\<lparr>Metadata = sample_validator 2 1, ProposerPriority = 0\<rparr>,
                   \<lparr>Metadata = sample_validator 1 1, ProposerPriority = 1\<rparr>]\<rparr>"
  by (simp add: sample_snapshot_def NewProposerSnapshot_def new_Int_def)

lemma sample_keys_ok: "keys_ok unit_bls (Validators sample_snapshot)"
  by (simp add: sample_snapshot_eq keys_ok_def unit_bls_def UnmarshalPublicKey_def sample_validator_def)

lemma sample_snap_ok: "snap_ok [0, 0] (Validators sample_snapshot)"
  by (simp add: sample_snapshot_eq snap_ok_def)

lemma sample_powers: "powers (Validators sample_snapshot) = [1, 1]"
  by (simp add: sample_snapshot_eq powers_def sample_validator_def)

section \<open>Properties\<close>

text \<open>
  C9. Liveness of the rotation.  At every height, whatever the priorities were left at,
  every validator with positive voting power \<open>p\<close> is the proposer of some round: one of the
  first \<open>R\<close> rounds, for any \<open>R\<close> with \<open>n * (2 * total + 1) \<le> R * p\<close>, where \<open>n\<close> is the number
  of validators and \<open>total\<close> their voting power.
\<close>

theorem every_validator_proposes:
  assumes "snap_ok h (Validators pcs)" and "keys_ok B (Validators pcs)" and "Proposer pcs = None"
    and "\<And>w. w \<in> set (Validators pcs) \<Longrightarrow> 0 \<le> vpower w"
    and "v \<in> set (Validators pcs)" and "0 < vpower v"
    and "int (length (Validators pcs)) * (2 * GetTotalVotingPower pcs + 1) \<le> int R * vpower v"
    and "R < 2 ^ 64"
  shows "\<exists>round pcs' h'. unat round < R \<and>
    CalcProposer B pcs round (Height pcs) h = Some (Inr (v_Address (Metadata v)), pcs', h')"
proof -
  let ?vs = "Validators pcs"
  obtain k where k: "k < R" "?vs ! chosen h ?vs k = v"
    using chosen_rotates [OF assms(5,6,4)] assms(7) by (metis GetTotalVotingPower_sum)
  have "vpower v \<le> sum_list (powers ?vs)" using power_le_total assms(4,5) by blast
  then have T: "sum_list (powers ?vs) \<noteq> 0" using assms(6) by linarith
  have "k + 1 < 2 ^ 64" using k(1) assms(8) by simp
  then have u: "unat (of_nat k :: uint64) = k" and w: "(of_nat k :: uint64) + 1 \<noteq> 0"
    using unat_of_nat64 [of k] unat_of_nat64 [of "k + 1"] by (auto simp: add.commute)
  have "?vs \<noteq> []" using assms(5) by auto
  from CalcProposer_law [OF assms(1) this assms(2) T w] assms(3)
  show ?thesis using k u by (intro exI [of _ "of_nat k"]) auto
qed

theorem every_validator_proposes_witness:
  "\<exists>round pcs' h'. unat round < 10 \<and>
    CalcProposer unit_bls sample_snapshot round (Height sample_snapshot) [0, 0] = Some (Inr 1, pcs', h')"
proof -
  let ?v = "\<lparr>Metadata = sample_validator 1 1, ProposerPriority = 1\<rparr>"
  have "\<exists>round pcs' h'. unat round < 10 \<and>
      CalcProposer unit_bls sample_snapshot round (Height sample_snapshot) [0, 0]
      = Some (Inr (v_Address (Metadata ?v)), pcs', h')"
    by (rule every_validator_proposes [OF sample_snap_ok sample_keys_ok])
       (auto simp: sample_snapshot_eq sample_validator_def GetTotalVotingPower_def)
  then show ?thesis by (simp add: sample_validator_def)
qed

text \<open>
  C16. Answers do not depend on earlier questions.  \<open>CalcProposer\<close> works on a copy of the
  snapshot that shares the priorities, so it changes the priorities of the snapshot it is
  called on.  Nevertheless, once the proposer of one round has been calculated, the
  answer for every other round is the one the untouched snapshot would have given.
\<close>

theorem CalcProposer_repeatable:
  assumes "snap_ok h (Validators pcs)" and "keys_ok B (Validators pcs)" and "Proposer pcs = None"
    and "Validators pcs \<noteq> []" and "0 < GetTotalVotingPower pcs"
    and "r1 + 1 \<noteq> 0" and "r2 + 1 \<noteq> 0"
  shows "\<exists>a1 pcs1 h1. CalcProposer B pcs r1 (Height pcs) h = Some (Inr a1, pcs1, h1) \<and>
    map_option fst (CalcProposer B pcs1 r2 (Height pcs) h1) =
    map_option fst (CalcProposer B pcs r2 (Height pcs) h)"
proof -
  let ?vs = "Validators pcs"
  have T: "0 < sum_list (powers ?vs)" using assms(5) by (simp add: GetTotalVotingPower_sum)
  then have T0: "sum_list (powers ?vs) \<noteq> 0" by simp
  note law = CalcProposer_law [OF assms(1,4,2) T0]
  obtain p h1 where 1: "CalcProposer B pcs r1 (Height pcs) h =
      Some (Inr (v_Address (Metadata p)), pcs\<lparr>Proposer := Some p, Round := r1\<rparr>, h1)"
    "Metadata p = Metadata (?vs ! chosen h ?vs (unat r1))" "snap_ok h1 ?vs"
    "prios h1 ?vs = rr_normal (sum_list (powers ?vs)) (prios h ?vs)"
    using law [OF assms(6)] assms(3) by auto
  let ?pcs1 = "pcs\<lparr>Proposer := Some p, Round := r1\<rparr>"
  obtain p2 h2 where 2: "CalcProposer B pcs r2 (Height pcs) h =
      Some (Inr (v_Address (Metadata p2)), pcs\<lparr>Proposer := Some p2, Round := r2\<rparr>, h2)"
    "Metadata p2 = Metadata (?vs ! chosen h ?vs (unat r2))"
    using law [OF assms(7)] assms(3) by auto
  have "map_option fst (CalcProposer B ?pcs1 r2 (Height pcs) h1) = Some (Inr (v_Address (Metadata p2)))"
  proof (cases "r1 = r2")
    case True
    then show ?thesis using 1(2) 2(2) by (simp add: CalcProposer_def)
  next
    case False
    have "chosen h1 ?vs k = chosen h ?vs k" for k using chosen_normal [OF 1(4) assms(4) T] .
    then show ?thesis
      using CalcProposer_law [of h1 ?pcs1 B r2] 1(3) assms(2,4,7) T0 2(2) False by auto
  qed
  then show ?thesis using 1(1) 2(1) by auto
qed

theorem CalcProposer_repeatable_witness:
  "\<exists>a1 pcs1 h1. CalcProposer unit_bls sample_snapshot 3 (Height sample_snapshot) [0, 0] = Some (Inr a1, pcs1, h1) \<and>
    map_option fst (CalcProposer unit_bls pcs1 0 (Height sample_snapshot) h1) =
    map_option fst (CalcProposer unit_bls sample_snapshot 0 (Height sample_snapshot) [0, 0])"
  by (rule CalcProposer_repeatable [OF sample_snap_ok sample_keys_ok])
     (simp_all add: sample_snapshot_eq sample_validator_def GetTotalVotingPower_def)

text \<open>
  Ties go to the first validator of the set.  Two validators with the same voting
  power and the same priority: the one with address 2, which comes first, is chosen
  before the one with address 1, since the code compares the pointers of the priorities
  and not their values before it looks at the addresses.
\<close>

theorem tie_ignores_address:
  "map_option fst (CalcProposer unit_bls sample_snapshot 0 1 [0, 0]) = Some (Inr 2)"
  by code_simp

text \<open>
  \<open>CalcProposer\<close> changes the priorities of the snapshot it is called on: with the
  priorities 9 and 0 and a total power of 2 it leaves 2 and -1 behind.
\<close>

theorem CalcProposer_rescales_original:
  "map_option (\<lambda>(r, pcs, h). prios h (Validators pcs)) (CalcProposer unit_bls sample_snapshot 0 1 [9, 0])
   = Some [2, - 1]"
  by code_simp

end
