(* ===== verification/Merkle.thy ===== *)
theory Merkle
  imports Edge_Types
begin

text \<open>
  The Merkle tree of \<open>merkle-tree/merkle_tree.go\<close>, which proves to the root chain that an
  event is part of a checkpoint: building the tree, generating the proof of a leaf and
  verifying a proof.  The hash function is third-party code and a parameter.

  The nodes of the source are linked by pointers to children and parents.  Here the tree
  is the list of its levels, the leaves first, each the list of the hashes of its nodes;
  a node is its position, so the parent of node \<open>i\<close> is node \<open>i div 2\<close> of the next level.
\<close>

datatype merkle_error = EmptyTree | LeafNotFound | NotInTree | EmptyLeaf | InvalidLeafIndex | NotMember

text \<open>The hash of a node: of its data for a leaf, of the children's hashes otherwise.\<close>

definition newMerkleNode :: "(byte list \<Rightarrow> byte list) \<Rightarrow> (hash \<times> hash) option \<Rightarrow> byte list \<Rightarrow> hash" where
  "newMerkleNode H children data =
     (let dataToHash = (case children of
                          None \<Rightarrow> data
                        | Some (left, right) \<Rightarrow> Hash_Bytes left @ Hash_Bytes right)
      in BytesToHash (H dataToHash))"

text \<open>The last node of a level of odd length is its own sibling.\<close>

fun new_level :: "(byte list \<Rightarrow> byte list) \<Rightarrow> hash list \<Rightarrow> hash list" where
  "new_level H [] = []"
| "new_level H [x] = [newMerkleNode H (Some (x, x)) []]"
| "new_level H (x # y # nodes) = newMerkleNode H (Some (x, y)) [] # new_level H nodes"

lemma length_new_level [simp]: "length (new_level H nodes) = (length nodes + 1) div 2"
  by (induction H nodes rule: new_level.induct) auto

function levels :: "(byte list \<Rightarrow> byte list) \<Rightarrow> hash list \<Rightarrow> hash list list" where
  "levels H nodes = (if length nodes > 1 then nodes # levels H (new_level H nodes) else [nodes])"
  by pat_completeness auto
termination
  by (relation "measure (\<lambda>(H, nodes). length nodes)") auto

declare levels.simps [simp del]

record MerkleTree =
  leafData :: "byte list list"
  nodeLevels :: "hash list list"

definition rootNode :: "MerkleTree \<Rightarrow> hash" where
  "rootNode t = last (nodeLevels t) ! 0"

definition NewMerkleTreeWithHashing ::
  "(byte list \<Rightarrow> byte list) \<Rightarrow> byte list list \<Rightarrow> merkle_error + MerkleTree" where
  "NewMerkleTreeWithHashing H data =
     (if length data = 0 then Inl EmptyTree
      else Inr \<lparr>leafData = data, nodeLevels = levels H (map (newMerkleNode H None) data)\<rparr>)"

fun find_leaf :: "nat \<Rightarrow> byte list list \<Rightarrow> byte list \<Rightarrow> nat option" where
  "find_leaf i [] leaf = None"
| "find_leaf i (d # data) leaf = (if d = leaf then Some i else find_leaf (i + 1) data leaf)"

definition LeafIndex :: "MerkleTree \<Rightarrow> byte list \<Rightarrow> merkle_error + uint64" where
  "LeafIndex t leaf =
     (case find_leaf 0 (leafData t) leaf of None \<Rightarrow> Inl LeafNotFound | Some i \<Rightarrow> Inr (of_nat i))"

definition MerkleTree_Hash :: "MerkleTree \<Rightarrow> hash" where
  "MerkleTree_Hash t = rootNode t"

text \<open>
  The climb stops at the first node whose hash is the root's; above the root there is no
  parent, and reading it panics.  The sibling is chosen by comparing hashes.
\<close>

fun proof_loop :: "hash \<Rightarrow> hash list list \<Rightarrow> nat \<Rightarrow> hash list go" where
  "proof_loop root [] i = None"
| "proof_loop root (nodes # upper) i =
     (if nodes ! i = root then Some []
      else if upper = [] then None
      else
        let left = nodes ! (2 * (i div 2));
            right = (if 2 * (i div 2) + 1 < length nodes then nodes ! (2 * (i div 2) + 1) else left)
        in do { proof \<leftarrow> proof_loop root upper (i div 2);
                Some ((if left = nodes ! i then right else left) # proof) })"

definition GenerateProof :: "MerkleTree \<Rightarrow> byte list \<Rightarrow> (merkle_error + hash list) go" where
  "GenerateProof t leaf =
     (case find_leaf 0 (leafData t) leaf of
        None \<Rightarrow> Some (Inl NotInTree)
      | Some i \<Rightarrow> do { proof \<leftarrow> proof_loop (rootNode t) (nodeLevels t) i; Some (Inr proof) })"

fun proof_hash_loop :: "(byte list \<Rightarrow> byte list) \<Rightarrow> uint64 \<Rightarrow> byte list \<Rightarrow> hash list \<Rightarrow> byte list" where
  "proof_hash_loop H index computedHash [] = computedHash"
| "proof_hash_loop H index computedHash (p # proof) =
     proof_hash_loop H (index div 2)
       (if index mod 2 = 0 then H (computedHash @ Hash_Bytes p) else H (Hash_Bytes p @ computedHash)) proof"

text \<open>The hasher is not reset before the leaf: \<open>pending\<close> is what was written to it before.\<close>

definition getProofHash ::
  "(byte list \<Rightarrow> byte list) \<Rightarrow> byte list \<Rightarrow> uint64 \<Rightarrow> byte list \<Rightarrow> hash list \<Rightarrow> byte list" where
  "getProofHash H pending index leaf proof = proof_hash_loop H index (H (pending @ leaf)) proof"

text \<open>
  \<open>int(math.Pow(2, n))\<close>: the power is exact as a floating-point number, and from \<open>2 ^ 63\<close> on
  its conversion gives the smallest integer on the supported processors.
\<close>

definition int_Pow2 :: "nat \<Rightarrow> int" where
  "int_Pow2 n = (if n < 63 then 2 ^ n else - (2 ^ 63))"

definition VerifyProofUsing ::
  "(byte list \<Rightarrow> byte list) \<Rightarrow> byte list \<Rightarrow> uint64 \<Rightarrow> byte list \<Rightarrow> hash list \<Rightarrow> hash \<Rightarrow> merkle_error + unit" where
  "VerifyProofUsing H pending index leaf proof root =
     (if length leaf = 0 then Inl EmptyLeaf
      else if sint index \<ge> int_Pow2 (length proof) then Inl InvalidLeafIndex
      else if Hash_Bytes root \<noteq> getProofHash H pending index leaf proof then Inl NotMember
      else Inr ())"

definition VerifyProof ::
  "(byte list \<Rightarrow> byte list) \<Rightarrow> uint64 \<Rightarrow> byte list \<Rightarrow> hash list \<Rightarrow> hash \<Rightarrow> merkle_error + unit" where
  "VerifyProof H index leaf proof root = VerifyProofUsing H [] index leaf proof root"

end
