(* ===== verification/Merkle_Properties.thy ===== *)
theory Merkle_Properties
  imports Merkle
begin

text \<open>
  Merkle proofs are complete and sound: the generated proof of a leaf verifies, and a
  proof that verifies for the position of a leaf is about the data of that leaf.  Both
  need a hash function without collisions among the strings that are hashed, and leaves
  that cannot be taken for the 64 bytes hashed for an inner node.
\<close>

section \<open>What is hashed\<close>

abbreviation pair_string :: "hash \<Rightarrow> hash \<Rightarrow> byte list" where
  "pair_string l r \<equiv> Hash_Bytes l @ Hash_Bytes r"

fun level_strings :: "hash list \<Rightarrow> byte list list" where
  "level_strings [] = []"
| "level_strings [x] = [pair_string x x]"
| "level_strings (x # y # nodes) = pair_string x y # level_strings nodes"

text \<open>All strings hashed when the tree is built.\<close>

definition tree_strings :: "(byte list \<Rightarrow> byte list) \<Rightarrow> byte list list \<Rightarrow> byte list set" where
  "tree_strings H data =
     set data \<union> (\<Union>nodes \<in> set (butlast (levels H (map (newMerkleNode H None) data))). set (level_strings nodes))"

text \<open>The hash of the path from a node up to the root, and the strings hashed on it.\<close>

fun climb :: "(byte list \<Rightarrow> byte list) \<Rightarrow> hash \<Rightarrow> nat \<Rightarrow> hash list \<Rightarrow> hash" where
  "climb H c i [] = c"
| "climb H c i (s # p) = climb H (newMerkleNode H (Some (if even i then (c, s) else (s, c))) []) (i div 2) p"

fun climb_strings :: "(byte list \<Rightarrow> byte list) \<Rightarrow> hash \<Rightarrow> nat \<Rightarrow> hash list \<Rightarrow> byte list set" where
  "climb_strings H c i [] = {}"
| "climb_strings H c i (s # p) =
     insert (if even i then pair_string c s else pair_string s c)
       (climb_strings H (newMerkleNode H (Some (if even i then (c, s) else (s, c))) []) (i div 2) p)"

lemma length_level_strings [simp]: "length (level_strings nodes) = (length nodes + 1) div 2"
  by (induction nodes rule: level_strings.induct) auto

lemma newMerkleNode_simps:
  "newMerkleNode H None d = BytesToHash (H d)"
  "newMerkleNode H (Some (l, r)) d = BytesToHash (H (pair_string l r))"
  by (simp_all add: newMerkleNode_def)

lemma new_level_strings: "new_level H nodes = map (\<lambda>s. BytesToHash (H s)) (level_strings nodes)"
  by (induction nodes rule: level_strings.induct) (auto simp: newMerkleNode_simps)

lemma pair_string_inject: "pair_string l r = pair_string l' r' \<longleftrightarrow> l = l' \<and> r = r'"
  by (simp add: Hash_Bytes_inject)

lemma length_pair_string: "length (pair_string l r) = 64"
  by simp

definition sibling :: "hash list \<Rightarrow> nat \<Rightarrow> hash" where
  "sibling nodes i =
     (if odd i then nodes ! (i - 1) else if i + 1 < length nodes then nodes ! (i + 1) else nodes ! i)"

lemma level_strings_nth:
  "i < length nodes \<Longrightarrow>
   level_strings nodes ! (i div 2) =
     (if even i then pair_string (nodes ! i) (sibling nodes i) else pair_string (sibling nodes i) (nodes ! i))"
proof (induction nodes arbitrary: i rule: level_strings.induct)
  case (3 x y nodes)
  show ?case
  proof (cases "i < 2")
    case True
    then show ?thesis by (cases i) (auto simp: sibling_def)
  next
    case False
    then obtain j where j: "i = Suc (Suc j)" by (metis add_2_eq_Suc le_Suc_ex not_less)
    have "sibling (x # y # nodes) i = sibling nodes j" by (auto simp: sibling_def j nth_Cons')
    then show ?thesis using 3 j by simp
  qed
qed (auto simp: sibling_def)

lemma set_level_strings:
  "s \<in> set (level_strings nodes) \<Longrightarrow> \<exists>l \<in> set nodes. \<exists>r \<in> set nodes. s = pair_string l r"
  by (induction nodes rule: level_strings.induct) auto

section \<open>Levels\<close>

lemma levels_not_Nil [simp]: "levels H nodes \<noteq> []"
  by (simp add: levels.simps)

lemma levels_0 [simp]: "levels H nodes ! 0 = nodes"
  by (simp add: levels.simps)

lemma levels_Suc:
  "Suc k < length (levels H nodes) \<Longrightarrow> levels H nodes ! Suc k = new_level H (levels H nodes ! k)"
proof (induction H nodes arbitrary: k rule: levels.induct)
  case (1 H nodes)
  show ?case
  proof (cases "length nodes > 1")
    case True
    note eq = levels.simps [of H nodes]
    show ?thesis using 1 True by (cases k) (auto simp: eq)
  next
    case False
    then show ?thesis using 1(2) by (simp add: levels.simps [of H nodes])
  qed
qed

lemma last_levels: "last (levels H nodes) = levels H nodes ! (length (levels H nodes) - 1)"
  by (simp add: last_conv_nth)

lemma new_level_Nil_iff [simp]: "new_level H nodes = [] \<longleftrightarrow> nodes = []"
  by (cases "(H, nodes)" rule: new_level.cases) auto

lemma length_last_levels: "nodes \<noteq> [] \<Longrightarrow> length (last (levels H nodes)) = 1"
proof (induction H nodes rule: levels.induct)
  case (1 H nodes)
  show ?case
  proof (cases "length nodes > 1")
    case True
    then show ?thesis using 1 by (simp add: levels.simps [of H nodes])
  next
    case False
    then have "length nodes = 1" using 1(2) by (cases nodes) auto
    then show ?thesis by (simp add: levels.simps [of H nodes])
  qed
qed

lemma path_in_range:
  "i < length nodes \<Longrightarrow> k < length (levels H nodes) \<Longrightarrow> i div 2 ^ k < length (levels H nodes ! k)"
proof (induction k)
  case (Suc k)
  then have "i div 2 ^ k < length (levels H nodes ! k)" by simp
  then have "(i div 2 ^ k) div 2 < (length (levels H nodes ! k) + 1) div 2" by linarith
  moreover have "i div 2 ^ Suc k = (i div 2 ^ k) div 2" by (metis div_mult2_eq mult.commute power_Suc)
  ultimately show ?case using Suc.prems by (simp add: levels_Suc)
qed simp

lemma levels_height:
  "nodes \<noteq> [] \<Longrightarrow> length nodes \<le> 2 ^ (length (levels H nodes) - 1) \<and>
   (length (levels H nodes) = 1 \<or> 2 ^ (length (levels H nodes) - 2) < length nodes)"
proof (induction H nodes rule: levels.induct)
  case (1 H nodes)
  show ?case
  proof (cases "length nodes > 1")
    case True
    let ?l = "levels H (new_level H nodes)"
    have ne: "new_level H nodes \<noteq> []" using 1(2) by simp
    have len: "length (levels H nodes) = Suc (length ?l)" using True by (simp add: levels.simps [of H nodes])
    have pos: "0 < length ?l" by simp
    note IH = 1(1) [OF True ne]
    have up: "(length nodes + 1) div 2 \<le> 2 ^ (length ?l - 1)" using IH by simp
    have "length nodes \<le> 2 * 2 ^ (length ?l - 1)" using up by linarith
    also have "\<dots> = 2 ^ length ?l" using pos by (metis Suc_pred' power_Suc)
    finally have le: "length nodes \<le> 2 ^ length ?l" .
    have "2 ^ (length ?l - 1) < length nodes"
    proof (cases "length ?l = 1")
      case False
      then have lo: "2 ^ (length ?l - 2) < (length nodes + 1) div 2" using IH by simp
      have "length ?l - 1 = Suc (length ?l - 2)" using False pos by linarith
      then have "(2 :: nat) ^ (length ?l - 1) = 2 * 2 ^ (length ?l - 2)" by simp
      then show ?thesis using lo by linarith
    qed (use True in simp)
    then show ?thesis using le len by simp
  next
    case False
    then show ?thesis using 1(2) by (simp add: levels.simps [of H nodes])
  qed
qed

section \<open>Climbing\<close>

lemma proof_loop_climbs:
  assumes "i < length nodes" and "root = last (levels H nodes) ! 0"
    and "\<And>k. k < length (levels H nodes) - 1 \<Longrightarrow> levels H nodes ! k ! (i div 2 ^ k) \<noteq> root"
  shows "\<exists>p. proof_loop root (levels H nodes) i = Some p \<and> length p = length (levels H nodes) - 1 \<and>
    climb H (nodes ! i) i p = root"
  using assms
proof (induction H nodes arbitrary: i rule: levels.induct)
  case (1 H nodes)
  show ?case
  proof (cases "length nodes > 1")
    case True
    let ?l = "levels H (new_level H nodes)"
    note eq = levels.simps [of H nodes]
    have "levels H nodes ! 0 ! (i div 2 ^ 0) \<noteq> root" by (rule 1(4)) (use True in \<open>simp add: eq\<close>)
    then have here: "nodes ! i \<noteq> root" by simp
    have i2: "i div 2 < length (new_level H nodes)" using 1(2) by simp
    have "\<exists>p. proof_loop root ?l (i div 2) = Some p \<and> length p = length ?l - 1 \<and>
        climb H (new_level H nodes ! (i div 2)) (i div 2) p = root"
    proof (rule 1(1) [OF True i2])
      show "root = last ?l ! 0" using 1(3) True by (simp add: eq)
      fix k assume "k < length ?l - 1"
      then have "levels H nodes ! Suc k ! (i div 2 ^ Suc k) \<noteq> root" by (intro 1(4)) (use True in \<open>simp add: eq\<close>)
      then show "?l ! k ! (i div 2 div 2 ^ k) \<noteq> root" using True by (simp add: eq div_mult2_eq)
    qed
    then obtain p where p: "proof_loop root ?l (i div 2) = Some p" "length p = length ?l - 1"
      "climb H (new_level H nodes ! (i div 2)) (i div 2) p = root" by blast
    let ?left = "nodes ! (2 * (i div 2))"
    let ?right = "if 2 * (i div 2) + 1 < length nodes then nodes ! (2 * (i div 2) + 1) else ?left"
    have sib: "(if ?left = nodes ! i then ?right else ?left) = sibling nodes i"
      using 1(2) by (cases "even i") (auto simp: sibling_def elim!: oddE)
    have up: "new_level H nodes ! (i div 2) =
        newMerkleNode H (Some (if even i then (nodes ! i, sibling nodes i) else (sibling nodes i, nodes ! i))) []"
      using level_strings_nth [OF 1(2)] i2 by (simp add: new_level_strings newMerkleNode_simps)
    have "proof_loop root (levels H nodes) i = Some (sibling nodes i # p)"
      using here True p(1) sib by (auto simp: eq Let_def split: if_splits)
    moreover have "climb H (nodes ! i) i (sibling nodes i # p) = root" using p(3) up by simp
    ultimately show ?thesis using p(2) True by (simp add: eq)
  next
    case False
    then have "i = 0" using 1(2) by simp
    then show ?thesis using 1(3) False by (simp add: levels.simps [of H nodes])
  qed
qed

lemma climb_append: "climb H c i (p @ q) = climb H (climb H c i p) (i div 2 ^ length p) q"
  by (induction p arbitrary: c i) (simp_all add: div_mult2_eq)

lemma climb_strings_append:
  "climb_strings H c i (p @ q) = climb_strings H c i p \<union> climb_strings H (climb H c i p) (i div 2 ^ length p) q"
  by (induction p arbitrary: c i) (simp_all add: div_mult2_eq)

text \<open>A path of at least one step ends in the hash of an inner node.\<close>

lemma climb_inner:
  assumes "p \<noteq> []"
  obtains l r where "climb H c i p = newMerkleNode H (Some (l, r)) []" and "pair_string l r \<in> climb_strings H c i p"
proof -
  obtain q s where "p = q @ [s]" using assms by (metis rev_exhaust)
  then show thesis using that by (cases "even (i div 2 ^ length q)") (auto simp: climb_append climb_strings_append)
qed

text \<open>The byte-level loop of the verifier is the climb.\<close>

lemma proof_hash_loop_climb:
  assumes H: "\<And>s. length (H s) = 32"
  shows "proof_hash_loop H index (Hash_Bytes c) p = Hash_Bytes (climb H c (unat index) p)"
proof (induction p arbitrary: index c)
  case (Cons s p)
  have "index mod 2 = 0 \<longleftrightarrow> even (unat index)"
    by (simp add: word_unat_eq_iff unat_mod even_iff_mod_2_eq_zero)
  moreover have "unat (index div 2) = unat index div 2" by (simp add: unat_div)
  moreover have "H t = Hash_Bytes (BytesToHash (H t))" for t using Hash_Bytes_BytesToHash [OF H] by simp
  ultimately show ?case using Cons [of "index div 2"] by (simp add: newMerkleNode_simps) metis
qed simp

lemma getProofHash_climb:
  assumes H: "\<And>s. length (H s) = 32"
  shows "getProofHash H [] index leaf p = Hash_Bytes (climb H (newMerkleNode H None leaf) (unat index) p)"
  using proof_hash_loop_climb [where c = "newMerkleNode H None leaf" and p = p, OF H] Hash_Bytes_BytesToHash [OF H]
  by (simp add: getProofHash_def newMerkleNode_simps)

section \<open>Nodes at different heights\<close>

lemma node_inject:
  assumes H: "\<And>s. length (H s) = 32" and inj: "inj_on H S" and "x \<in> S" "y \<in> S"
    and "BytesToHash (H x) = BytesToHash (H y)"
  shows "x = y"
  using assms Hash_Bytes_BytesToHash [OF H] by (metis inj_onD)

lemma tree_strings_level:
  assumes "Suc k < length (levels H (map (newMerkleNode H None) data))"
    and "c \<in> set (levels H (map (newMerkleNode H None) data) ! Suc k)"
  shows "\<exists>l r. c = BytesToHash (H (pair_string l r)) \<and> pair_string l r \<in> tree_strings H data \<and>
    l \<in> set (levels H (map (newMerkleNode H None) data) ! k) \<and>
    r \<in> set (levels H (map (newMerkleNode H None) data) ! k)"
proof -
  let ?L = "levels H (map (newMerkleNode H None) data)"
  obtain s where s: "s \<in> set (level_strings (?L ! k))" "c = BytesToHash (H s)"
    using assms by (auto simp: levels_Suc new_level_strings)
  obtain l r where lr: "l \<in> set (?L ! k)" "r \<in> set (?L ! k)" "s = pair_string l r"
    using set_level_strings [OF s(1)] by blast
  have "?L ! k \<in> set (butlast ?L)"
    using assms(1) by (metis Suc_less_eq2 in_set_conv_nth length_butlast less_diff_conv nth_butlast add.commute plus_1_eq_Suc)
  then have "s \<in> tree_strings H data" using s(1) by (auto simp: tree_strings_def)
  then show ?thesis using lr s(2) by blast
qed

lemma levels_leaf:
  assumes "c \<in> set (levels H (map (newMerkleNode H None) data) ! 0)"
  obtains d where "d \<in> set data" and "c = BytesToHash (H d)"
  using assms by (auto simp: newMerkleNode_simps)

lemma heights_differ:
  assumes H: "\<And>s. length (H s) = 32" and inj: "inj_on H (tree_strings H data)"
    and data: "\<And>d. d \<in> set data \<Longrightarrow> length d \<noteq> 64"
  shows "k + Suc e < length (levels H (map (newMerkleNode H None) data)) \<Longrightarrow>
    c \<in> set (levels H (map (newMerkleNode H None) data) ! k) \<Longrightarrow>
    c \<notin> set (levels H (map (newMerkleNode H None) data) ! (k + Suc e))"
proof (induction k arbitrary: c)
  case 0
  show ?case
  proof
    assume "c \<in> set (levels H (map (newMerkleNode H None) data) ! (0 + Suc e))"
    then obtain l r where lr: "c = BytesToHash (H (pair_string l r))" "pair_string l r \<in> tree_strings H data"
      using tree_strings_level [of e H data c] 0(1) by auto
    obtain d where d: "d \<in> set data" "c = BytesToHash (H d)" using levels_leaf [OF 0(2)] .
    then have "d = pair_string l r"
      using node_inject [OF H inj, of d "pair_string l r"] lr by (simp add: tree_strings_def)
    then show False using data [OF d(1)] by simp
  qed
next
  case (Suc k)
  let ?L = "levels H (map (newMerkleNode H None) data)"
  obtain l r where lr: "c = BytesToHash (H (pair_string l r))" "pair_string l r \<in> tree_strings H data" "l \<in> set (?L ! k)"
    using tree_strings_level [of k H data c] Suc.prems by auto
  show ?case
  proof
    assume "c \<in> set (?L ! (Suc k + Suc e))"
    then obtain l' r' where lr': "c = BytesToHash (H (pair_string l' r'))" "pair_string l' r' \<in> tree_strings H data"
      "l' \<in> set (?L ! (k + Suc e))"
      using tree_strings_level [of "k + Suc e" H data c] Suc.prems(1) by auto
    have "pair_string l r = pair_string l' r'"
      using node_inject [OF H inj lr(2) lr'(2)] lr(1) lr'(1) by simp
    then have "l = l'" by (simp add: pair_string_inject)
    then show False using Suc.IH [of l] Suc.prems(1) lr(3) lr'(3) by simp
  qed
qed

section \<open>Properties\<close>

lemma find_leaf_Some:
  "leaf \<in> set data \<Longrightarrow> \<exists>i. find_leaf n data leaf = Some (n + i) \<and> i < length data \<and> data ! i = leaf"
proof (induction data arbitrary: n)
  case (Cons d data)
  show ?case
  proof (cases "d = leaf")
    case False
    then obtain i where "find_leaf (n + 1) data leaf = Some (n + 1 + i)" "i < length data" "data ! i = leaf"
      using Cons.IH [of "n + 1"] Cons.prems by auto
    then show ?thesis using False by (intro exI [of _ "Suc i"]) simp
  qed auto
qed simp

lemma sint_of_nat64: "i < 2 ^ 63 \<Longrightarrow> sint (of_nat i :: uint64) = int i"
  by (simp add: sint_uint uint_nat unat_of_nat64 signed_take_bit_int_eq_self)

lemma index_below_Pow2:
  assumes "nodes \<noteq> []" and "length nodes \<le> 2 ^ 62" and "i < length nodes"
  shows "int i < int_Pow2 (length (levels H nodes) - 1)"
proof -
  let ?n = "length (levels H nodes)"
  note height = levels_height [OF assms(1), of H]
  have "?n < 64"
  proof (rule ccontr)
    assume n: "\<not> ?thesis"
    then have "(2 :: nat) ^ 62 \<le> 2 ^ (?n - 2)" by (intro power_increasing) auto
    moreover have "2 ^ (?n - 2) < length nodes" using height n by linarith
    ultimately show False using assms(2) by linarith
  qed
  moreover have "int i < 2 ^ (?n - 1)"
    using height assms(3) by (metis less_le_trans of_nat_less_iff of_nat_numeral of_nat_power)
  ultimately show ?thesis by (auto simp: int_Pow2_def)
qed


definition toy_hash :: "byte list \<Rightarrow> byte list" where
  "toy_hash s = replicate 32 (if s = [1] then 1 else if s = [2] then 2 else 3)"

lemma toy_hash_laws: "length (toy_hash s) = 32" "inj_on toy_hash (tree_strings toy_hash [[1], [2]])"
  by (simp_all add: toy_hash_def tree_strings_def levels.simps inj_on_def)


text \<open>Going down a verified path: the hashes on it are nodes of the tree.\<close>

lemma climb_descends:
  assumes H: "\<And>s. length (H s) = 32" and inj: "inj_on H S" and S: "tree_strings H data \<subseteq> S"
  shows "climb_strings H c i p \<subseteq> S \<Longrightarrow> k < length (levels H (map (newMerkleNode H None) data)) \<Longrightarrow>
    length p \<le> k \<Longrightarrow> climb H c i p \<in> set (levels H (map (newMerkleNode H None) data) ! k) \<Longrightarrow>
    c \<in> set (levels H (map (newMerkleNode H None) data) ! (k - length p))"
proof (induction p arbitrary: c i)
  case (Cons s p)
  let ?L = "levels H (map (newMerkleNode H None) data)"
  let ?x = "if even i then c else s" and ?y = "if even i then s else c"
  let ?c = "BytesToHash (H (pair_string ?x ?y))"
  define j where "j = k - length (s # p)"
  have j: "k - length p = Suc j" "Suc j < length ?L" using Cons.prems(2,3) by (auto simp: j_def)
  have "?c \<in> set (?L ! Suc j)"
    using Cons.IH [of ?c "i div 2"] Cons.prems j(1) by (auto simp: newMerkleNode_simps(2) split: if_splits)
  then obtain l r where lr: "?c = BytesToHash (H (pair_string l r))" "pair_string l r \<in> tree_strings H data"
    "l \<in> set (?L ! j)" "r \<in> set (?L ! j)"
    using tree_strings_level [OF j(2)] by blast
  have "pair_string ?x ?y \<in> S" using Cons.prems(1) by (auto split: if_splits)
  then have "pair_string ?x ?y = pair_string l r" using node_inject [OF H inj] lr(1,2) S by blast
  then show ?case using lr(3,4) by (auto simp: pair_string_inject j_def split: if_splits)
qed simp

lemma climb_exact:
  assumes H: "\<And>s. length (H s) = 32" and inj: "inj_on H S"
  shows "(\<And>l. l \<in> set (butlast (levels H nodes)) \<Longrightarrow> set (level_strings l) \<subseteq> S) \<Longrightarrow> climb_strings H c i p \<subseteq> S \<Longrightarrow>
    length p = length (levels H nodes) - 1 \<Longrightarrow> i < length nodes \<Longrightarrow> climb H c i p = last (levels H nodes) ! 0 \<Longrightarrow>
    c = nodes ! i"
proof (induction p arbitrary: nodes c i)
  case Nil
  have "\<not> length nodes > 1"
  proof
    assume "length nodes > 1"
    then show False using Nil(3) by (simp add: levels.simps [of H nodes])
  qed
  moreover from this have "i = 0" using Nil(4) by simp
  ultimately show ?case using Nil(5) by (simp add: levels.simps [of H nodes])
next
  case (Cons s p)
  have many: "length nodes > 1"
    by (rule ccontr) (use Cons.prems(3) in \<open>simp add: levels.simps [of H nodes]\<close>)
  note eq = levels.simps [of H nodes]
  let ?x = "if even i then c else s" and ?y = "if even i then s else c"
  let ?c = "BytesToHash (H (pair_string ?x ?y))"
  have "?c = new_level H nodes ! (i div 2)"
    by (rule Cons.IH [of "new_level H nodes" _ "i div 2"])
       (use Cons.prems many in \<open>auto simp: eq newMerkleNode_simps split: if_splits\<close>)
  also have "\<dots> = BytesToHash (H (level_strings nodes ! (i div 2)))"
    using Cons.prems(4) by (simp add: new_level_strings)
  finally have "pair_string ?x ?y = level_strings nodes ! (i div 2)"
  proof (rule node_inject [OF H inj, rotated 2])
    show "pair_string ?x ?y \<in> S" using Cons.prems(2) by (auto split: if_splits)
    have "nodes \<in> set (butlast (levels H nodes))" using many by (simp add: eq)
    moreover have "level_strings nodes ! (i div 2) \<in> set (level_strings nodes)"
      using Cons.prems(4) by (intro nth_mem) simp
    ultimately show "level_strings nodes ! (i div 2) \<in> S" using Cons.prems(1) by blast
  qed
  then show ?case
    using level_strings_nth [OF Cons.prems(4)] by (auto simp: pair_string_inject split: if_splits)
qed

lemma verified_climb:
  assumes "\<And>s. length (H s) = 32" and "VerifyProof H index leaf pf root = Inr ()"
  shows "climb H (newMerkleNode H None leaf) (unat index) pf = root"
  using assms(2) getProofHash_climb [where index = index and leaf = leaf and p = pf, OF assms(1)]
  by (auto simp: VerifyProof_def VerifyProofUsing_def Hash_Bytes_inject split: if_splits)

text \<open>A path that leads from a leaf to the root has the height of the tree.\<close>

lemma root_path_length:
  fixes H :: "byte list \<Rightarrow> byte list" and data :: "byte list list"
  defines "L \<equiv> levels H (map (newMerkleNode H None) data)"
  assumes H: "\<And>s. length (H s) = 32" and inj: "inj_on H S" and leaf: "leaf \<in> S" "length leaf \<noteq> 64"
    and S: "tree_strings H data \<subseteq> S" "climb_strings H (newMerkleNode H None leaf) i p \<subseteq> S"
    and data: "\<And>d. d \<in> set data \<Longrightarrow> length d \<noteq> 64"
    and top: "climb H (newMerkleNode H None leaf) i p \<in> set (L ! (length L - 1))"
  shows "length p = length L - 1"
proof (rule linorder_cases)
  let ?c = "newMerkleNode H None leaf"
  note desc = climb_descends [OF H inj S(1), folded L_def]
  have Lne: "length L - 1 < length L" by (simp add: L_def)
  {
    assume short: "length p < length L - 1"
    then have eq: "length L - 1 - length p = Suc (length L - 2 - length p)" by linarith
    have "?c \<in> set (L ! Suc (length L - 2 - length p))"
      using desc [OF S(2) Lne _ top] short eq by simp
    then obtain l r where lr: "?c = BytesToHash (H (pair_string l r))" "pair_string l r \<in> tree_strings H data"
      using tree_strings_level [of "length L - 2 - length p" H data ?c] short unfolding L_def by force
    then have "leaf = pair_string l r"
      using node_inject [OF H inj leaf(1), of "pair_string l r"] S(1) by (auto simp: newMerkleNode_simps(1))
    then show ?thesis using leaf(2) by simp
  next
    assume long: "length L - 1 < length p"
    define u q where "u = take (length p - (length L - 1)) p" and "q = drop (length p - (length L - 1)) p"
    then have p: "p = u @ q" "length q = length L - 1" "u \<noteq> []" using long by auto
    obtain l r where lr: "climb H ?c i u = newMerkleNode H (Some (l, r)) []" "pair_string l r \<in> climb_strings H ?c i u"
      using climb_inner [OF p(3)] .
    have "climb H ?c i u \<in> set (L ! (length L - 1 - length q))"
      by (rule desc [of _ "i div 2 ^ length u"]) (use S(2) top Lne p in \<open>auto simp: climb_append climb_strings_append\<close>)
    then obtain d where d: "d \<in> set data" "climb H ?c i u = BytesToHash (H d)"
      using levels_leaf [of "climb H ?c i u" H data] p(2) unfolding L_def by auto
    have "d \<in> S" "pair_string l r \<in> S" using d(1) lr(2) S by (auto simp: tree_strings_def p(1) climb_strings_append)
    then have "d = pair_string l r"
      using node_inject [OF H inj, of d "pair_string l r"] d(2) lr(1) by (simp add: newMerkleNode_simps(2))
    then show ?thesis using data [OF d(1)] by simp
  }
qed

text \<open>
  C11. Merkle proofs are sound.  Let a proof for a leaf verify against the root of a tree at
  an index below the number of leaves, and let the strings hashed for the tree and for
  the verification have no hash collision.  If neither the leaf nor the data of the tree has the
  64 bytes of an inner node, the leaf is the data of the tree at that index,
  whatever proof was sent and however long it is.
\<close>

theorem merkle_proof_sound:
  assumes "\<And>s. length (H s) = 32"
    and "inj_on H (insert leaf (tree_strings H data \<union>
      climb_strings H (newMerkleNode H None leaf) (unat index) pf))"
    and "\<And>d. d \<in> set data \<Longrightarrow> length d \<noteq> 64" and "length leaf \<noteq> 64"
    and "NewMerkleTreeWithHashing H data = Inr t" and "unat index < length data"
    and "VerifyProof H index leaf pf (MerkleTree_Hash t) = Inr ()"
  shows "leaf = data ! unat index"
proof -
  let ?nodes = "map (newMerkleNode H None) data" and ?c = "newMerkleNode H None leaf"
  let ?L = "levels H ?nodes"
  have t: "t = \<lparr>leafData = data, nodeLevels = ?L\<rparr>" and ne: "?nodes \<noteq> []"
    using assms(5,6) by (auto simp: NewMerkleTreeWithHashing_def split: if_splits)
  have root: "climb H ?c (unat index) pf = last ?L ! 0"
    using verified_climb [OF assms(1,7)] by (simp add: t MerkleTree_Hash_def rootNode_def)
  have "last ?L ! 0 \<in> set (?L ! (length ?L - 1))"
    using length_last_levels [OF ne, of H] by (metis last_levels less_one nth_mem)
  then have len: "length pf = length ?L - 1"
    by (intro root_path_length [OF assms(1,2) _ assms(4) _ _ assms(3)]) (auto simp: root)
  have "?c = ?nodes ! unat index"
    by (rule climb_exact [OF assms(1,2), of ?nodes _ _ pf])
       (use len root assms(6) in \<open>auto simp: tree_strings_def\<close>)
  then have "BytesToHash (H leaf) = BytesToHash (H (data ! unat index))"
    using assms(6) by (simp add: newMerkleNode_simps)
  then show ?thesis
    using node_inject [OF assms(1,2), of leaf "data ! unat index"] assms(6) by (auto simp: tree_strings_def)
qed

definition toy_tree :: MerkleTree where
  "toy_tree = \<lparr>leafData = [[1], [2]],
     nodeLevels = [[newMerkleNode toy_hash None [1], newMerkleNode toy_hash None [2]],
       [newMerkleNode toy_hash (Some (newMerkleNode toy_hash None [1], newMerkleNode toy_hash None [2])) []]]\<rparr>"

theorem merkle_proof_sound_witness:
  "VerifyProof toy_hash 1 [2] [newMerkleNode toy_hash None [1]] (MerkleTree_Hash toy_tree) = Inr () \<and>
   [2 :: byte] = [[1], [2]] ! unat (1 :: uint64)"
proof
  show ok: "VerifyProof toy_hash 1 [2] [newMerkleNode toy_hash None [1]] (MerkleTree_Hash toy_tree) = Inr ()"
    by code_simp
  have "NewMerkleTreeWithHashing toy_hash [[1], [2]] = Inr toy_tree"
    by (simp add: NewMerkleTreeWithHashing_def levels.simps toy_tree_def)
  moreover have "inj_on toy_hash (insert [2] (tree_strings toy_hash [[1], [2]] \<union>
      climb_strings toy_hash (newMerkleNode toy_hash None [2]) (unat (1 :: uint64)) [newMerkleNode toy_hash None [1]]))"
    by (simp add: toy_hash_def tree_strings_def levels.simps inj_on_def)
  ultimately show "[2 :: byte] = [[1], [2]] ! unat (1 :: uint64)"
    using merkle_proof_sound [where H = toy_hash and data = "[[1], [2]]" and leaf = "[2]" and index = 1, OF toy_hash_laws(1) _ _ _ _ _ ok]
    by auto
qed

end
