(* ===== verification/Spec2Isabelle.thy ===== *)
theory Spec2Isabelle
  imports EVM_Properties EVM_Opcodes Chain_Params Block_Executor Receipt Fork_Manager_Spec Blake2f
    Staking Tx_Signer Transition_Errors Snapshot_Properties
    Validator_Properties Proposer_Properties Merkle_Properties
begin

text \<open>
  A verification of the core of a Polygon Edge node: the execution of transactions, the
  state they change, and the choice of the validators and proposers that agree on them.
  File names below are relative to \<open>src\<close>.

  \<^bold>\<open>The program and its parts.\<close>  A block arrives at the executor (\<open>state/executor.go\<close>), which
  applies its transactions one after the other to a transition.  A transition charges the
  sender, runs a message call or a contract creation, refunds what is left, pays the
  block producer and burns the base fee.  A contract is run by the first of three
  runtimes that claims it: the address lists (\<open>state/runtime/addresslist\<close>), the precompiled
  contracts (\<open>state/runtime/precompiled\<close>) or the interpreter (\<open>state/runtime/evm\<close>).  The
  interpreter calls the transition again as its host, to read and write accounts and to
  call further contracts.  The accounts are kept in a radix tree of changes over a read-only
  snapshot (\<open>state/txn.go\<close>), with nested snapshots to revert to; when a block is finished the
  changes are written into a Merkle-Patricia trie (\<open>state/immutable-trie\<close>), whose root is
  the state root of the block.  Which rules hold at a block is decided by the chain
  parameters (\<open>chain/params.go\<close>) and the fork manager (\<open>forkmanager\<close>).  Blocks are agreed on
  by the validators: the stake manager (\<open>consensus/polybft/stake_manager.go\<close>) follows the
  stakes and elects a validator set per epoch, the set (\<open>consensus/polybft/validator\<close>)
  decides what a quorum is, and the proposer calculator
  (\<open>consensus/polybft/proposer_calculator.go\<close>) says who proposes in a round.

  \<^bold>\<open>Conventions.\<close>  A Go panic is the value \<open>None\<close>; Go errors are values of an error type or
  the left side of a sum.  Integers of a fixed width are words, \<open>*big.Int\<close> values are
  integers.  Where several objects share one big integer that is changed in place (the
  operand stack with its recycled cells, the priorities of the proposers) the model keeps
  a store and pointers, or the cells themselves.  Third-party code is a parameter: a record of
  functions, with a locale or a named predicate for what its documentation promises
  (Keccak, elliptic curves, RLP encoding, the radix tree, the caches, the database).  Every such
  assumption is shown to be satisfiable by an instance.

  \<^bold>\<open>Foundations.\<close>  \<open>Prelude\<close> (panics, slices), \<open>Go_Big\<close> (\<open>math/big\<close>), \<open>Edge_Types\<close>
  (\<open>types/types.go\<close>, \<open>helper/common\<close>, \<open>crypto\<close>: addresses, hashes, padding), \<open>Containers\<close> (the
  radix tree and the cache as interfaces), \<open>System_Addresses\<close> (\<open>contracts\<close>), \<open>Chain_Params\<close>.

  \<^bold>\<open>The interpreter.\<close>  \<open>Runtime_Defs\<close> is \<open>state/runtime/runtime.go\<close>; \<open>EVM_Bitmap\<close>, \<open>EVM_State\<close>,
  \<open>EVM_Arith\<close>, \<open>EVM_Instr\<close>, \<open>EVM_Calls\<close>, \<open>EVM_Run\<close> and \<open>EVM_Opcodes\<close> are the files \<open>bitmap.go\<close>,
  \<open>state.go\<close>, \<open>instructions.go\<close>, \<open>dispatch_table.go\<close>, \<open>evm.go\<close> and \<open>opcodes.go\<close> of
  \<open>state/runtime/evm\<close>, one definition per function.  \<open>EVM_Arith_Spec\<close> has one locale per shape of
  instruction and interprets it for every arithmetic, comparison, bitwise and shift
  instruction: they compute the operation on 256-bit words and touch nothing else.
  \<open>EVM_Bytes\<close> treats the byte loops.  \<open>EVM_Safety\<close>, \<open>EVM_Instr_Safety\<close>, \<open>EVM_Host_Safety\<close>,
  \<open>EVM_Call_Safety\<close> and \<open>EVM_Run_Safety\<close> show that no instruction panics, that the invariant of
  the machine is kept, and that every iteration of the loop stops or consumes gas.  The
  locale \<open>evm_host\<close> is what the interpreter needs of its host.  \<open>EVM_Dispatch\<close> is about the
  dispatch table, and \<open>EVM_Properties\<close> holds the properties.

  \<^bold>\<open>The other runtimes.\<close>  \<open>Precompiled\<close>, \<open>Sha256\<close>, \<open>Blake2f\<close> with the refinement of the
  compression function to RFC 7693, \<open>Precompiled_Safety\<close> (no panic, no gas gained);
  \<open>Address_List\<close> with the locale \<open>role_store\<close>.

  \<^bold>\<open>State and transition.\<close>  \<open>State_Txn\<close> is \<open>state/txn.go\<close> and \<open>state/state.go\<close>, \<open>Transaction\<close> is
  \<open>types/transaction.go\<close> with the fee rules of \<open>state/londonFix_fork.go\<close>, \<open>Tx_Signer\<close> is
  \<open>crypto/txsigner*.go\<close>, \<open>Receipt\<close> is \<open>types/receipt.go\<close> with the Bloom filter, \<open>Executor\<close> and
  \<open>Block_Executor\<close> are \<open>state/executor.go\<close>, \<open>Staking\<close> is \<open>helper/staking\<close>.  \<open>State_Laws\<close> describes the
  operations through the accounts they show.  \<open>Transition_Safety\<close> shows that the transition
  is a host in the sense of \<open>evm_host\<close> at every call depth, by induction on the depth;
  \<open>Transition_Properties\<close>, \<open>Transition_Fees\<close> and \<open>Transition_Errors\<close> conclude that calls return, that
  neither calls nor transactions create money, that failed calls and rejected
  transactions are undone, and state the cases in which the code falls short.

  \<^bold>\<open>The trie and the snapshots.\<close>  \<open>Trie\<close> is \<open>state/immutable-trie\<close> (nodes, lookup, insertion,
  deletion, hashing, decoding).  \<open>Trie_Map\<close> and \<open>Trie_Delete\<close> relate the operations to the
  content of a trie and show that the canonical trie of a content is unique; \<open>Trie_Store\<close> and
  \<open>Trie_Commit\<close> carry this over to tries whose nodes are references into the storage and show that
  a written trie can be read back.  \<open>Trie_Kv\<close> states the interface \<open>kv_store\<close> and
  interprets it for both.  \<open>State_Snapshot\<close> is \<open>snapshot.go\<close> and \<open>state.go\<close>; \<open>Snapshot_Laws\<close>
  describes a commit.  The properties are in \<open>Trie_Properties\<close> and \<open>Snapshot_Properties\<close>.

  \<^bold>\<open>Forks.\<close>  \<open>Fork_Manager\<close> is \<open>forkmanager\<close>; \<open>Fork_Manager_Spec\<close> has its step relation, the
  invariant of the reachable managers, and the refinement of the binary searches to scans.

  \<^bold>\<open>Validators and proposers.\<close>  \<open>Validator_Set\<close> holds the bitmap, the account sets, the delta
  between epochs, the quorum and the stakes; \<open>Validator_Laws\<close> treats sets as maps from addresses to
  powers, with the locale \<open>slice_order\<close> for the comparison given to \<open>sort.Slice\<close>.
  \<open>Validator_Properties\<close>: quorums intersect outside the faulty validators and can be reached without them,
  an applied delta gives the validators of largest stake, stakes follow the events.  \<open>Proposer\<close>
  is the proposer calculator, \<open>Proposer_Laws\<close> an abstract weighted round robin and its
  implementation, \<open>Proposer_Properties\<close> the rotation of the proposers.

  \<^bold>\<open>Merkle proofs.\<close>  \<open>Merkle\<close> is \<open>merkle-tree/merkle_tree.go\<close>, by which an event of a checkpoint is
  proved to the root chain; \<open>Merkle_Properties\<close> shows that generated proofs verify and that a
  verified leaf is the one in the tree.

  \<^bold>\<open>Bounds and fuel.\<close>  The interpreter's loop has the gas of the call plus one as fuel;
  every iteration that does not stop consumes gas, so the loop ends before the fuel does
  (\<open>EVM_Run_Safety\<close>).  Nested calls recurse on the depth, which the code limits to 1025.  The
  safety of the interpreter is stated for less than \<open>2 ^ 61\<close> gas (\<open>gas_cap\<close>, far above any block gas
  limit) and for byte strings shorter than \<open>2 ^ 62\<close>, which no machine can hold, because Go
  computes lengths in 64 bits.  The trie operations have fuel for references to the
  storage only; a key of 32 bytes has 65 nibbles with its terminator, so 65 suffices, and
  the properties use this fuel.  The loop of the proposer calculator over block
  heights may run forever at the largest height, so it is a partial function.  Validator
  sets are shorter than \<open>2 ^ 60\<close>, so that bitmap indices do not wrap, and Merkle trees have at
  most \<open>2 ^ 62\<close> leaves, so that a leaf index is a positive integer of Go.

  \<^bold>\<open>Not modelled.\<close>  Networking, JSON-RPC, gossip, the command line, secrets and metrics: input
  and output.  The copying of a trie between databases, the block storage, the rest of the consensus engines and the bridge
  (state sync, checkpoints, exits): they drive databases, a third-party consensus
  package and services of the root chain.  The transaction pool and the block importer: their
  content is concurrency over channels and locks.  Tracers: debugging output.  Generated code
  (protobuf, contract bindings).  The RLP and JSON encoders and decoders apart
  from those of accounts and trie nodes: they are calls into third-party packages.  Concurrency:
  the modelled operations are sequential, as the code holds a lock or a private copy when it runs them.
\<close>

end
